(* ===== verification/Prelude.thy ===== *)
theory Prelude imports Main "HOL-Library.AList" "HOL-Library.List_Lexorder" "HOL-Library.Char_ord" begin

text \<open>
  Shared ground of the development: the theorem collections the component proofs
  use, the type of the errors the code throws, the state-and-exception monad in
  which every operation that touches durable files is written, and the generic
  list and map lemmas several components need.
\<close>

named_theorems io_simps "evaluation of the state-and-exception monad"
named_theorems js_simps "evaluation of JavaScript value operations"
named_theorems store_simps "evaluation of reads and writes of durable files"
named_theorems path_simps "distinctness of durable paths"

section \<open>Errors\<close>

text \<open>
  \<open>Err m\<close> is \<open>throw new Error(m)\<close>; \<open>Coded c m\<close> is an error that also carries a
  \<open>code\<close> (and \<open>classification\<close>) \<open>c\<close>; \<open>TypeErr\<close> is the \<open>TypeError\<close> the language
  raises when a property of \<open>null\<close> or \<open>undefined\<close> is read.
\<close>

datatype err = Err string | Coded string string | TypeErr

fun err_message :: "err \<Rightarrow> string" where
  "err_message (Err m) = m"
| "err_message (Coded c m) = m"
| "err_message TypeErr = ''Cannot read properties of undefined''"

section \<open>The state-and-exception monad\<close>

text \<open>
  A computation maps a world to a result and the world it leaves. An exception keeps
  the effects that happened before it, as in the code.
\<close>

type_synonym ('w, 'a) io = "'w \<Rightarrow> (err + 'a) \<times> 'w"

definition ret :: "'a \<Rightarrow> ('w, 'a) io" where
  "ret x w = (Inr x, w)"

definition throw :: "err \<Rightarrow> ('w, 'a) io" where
  "throw e w = (Inl e, w)"

definition bind_io :: "('w, 'a) io \<Rightarrow> ('a \<Rightarrow> ('w, 'b) io) \<Rightarrow> ('w, 'b) io" where
  "bind_io m f w = (case m w of (Inl e, w') \<Rightarrow> (Inl e, w') | (Inr x, w') \<Rightarrow> f x w')"

text \<open>\<open>guard_io c e m\<close> is \<open>if (c) throw e; m\<close>.\<close>

definition guard_io :: "bool \<Rightarrow> err \<Rightarrow> ('w, 'a) io \<Rightarrow> ('w, 'a) io" where
  "guard_io c e m = (if c then throw e else m)"

text \<open>\<open>lift_io r\<close> runs a pure computation that may throw.\<close>

definition lift_io :: "err + 'a \<Rightarrow> ('w, 'a) io" where
  "lift_io r w = (r, w)"

text \<open>\<open>try_io m h\<close> is \<open>try { m } catch (error) { h(error) }\<close>.\<close>

definition try_io :: "('w, 'a) io \<Rightarrow> (err \<Rightarrow> ('w, 'a) io) \<Rightarrow> ('w, 'a) io" where
  "try_io m h w = (case m w of (Inl e, w') \<Rightarrow> h e w' | (Inr x, w') \<Rightarrow> (Inr x, w'))"

fun map_io :: "('a \<Rightarrow> ('w, 'b) io) \<Rightarrow> 'a list \<Rightarrow> ('w, 'b list) io" where
  "map_io f [] = ret []"
| "map_io f (x # xs) = bind_io (f x) (\<lambda>y. bind_io (map_io f xs) (\<lambda>ys. ret (y # ys)))"

lemma ret_apply [io_simps, simp]: "ret x w = (Inr x, w)"
  by (simp add: ret_def)

lemma throw_apply [io_simps, simp]: "throw e w = (Inl e, w)"
  by (simp add: throw_def)

lemma lift_io_apply [io_simps, simp]: "lift_io r w = (r, w)"
  by (simp add: lift_io_def)

lemma bind_io_ret [io_simps, simp]: "bind_io (ret x) f = f x"
  by (simp add: bind_io_def fun_eq_iff)

lemma bind_io_throw [io_simps, simp]: "bind_io (throw e) f = throw e"
  by (simp add: bind_io_def fun_eq_iff)

lemma bind_io_Inr [io_simps]: "m w = (Inr x, w') \<Longrightarrow> bind_io m f w = f x w'"
  by (simp add: bind_io_def)

lemma bind_io_Inl [io_simps]: "m w = (Inl e, w') \<Longrightarrow> bind_io m f w = (Inl e, w')"
  by (simp add: bind_io_def)

lemma bind_io_eq_Inr:
  "bind_io m f w = (Inr y, w'') \<longleftrightarrow> (\<exists>x w'. m w = (Inr x, w') \<and> f x w' = (Inr y, w''))"
  by (auto simp: bind_io_def split: prod.splits sum.splits)

lemma bind_io_InrE:
  assumes "bind_io m f w = (Inr y, w'')"
  obtains x w' where "m w = (Inr x, w')" and "f x w' = (Inr y, w'')"
  using assms by (auto simp: bind_io_eq_Inr)

lemma bind_io_assoc: "bind_io (bind_io m f) g = bind_io m (\<lambda>x. bind_io (f x) g)"
  by (auto simp: bind_io_def fun_eq_iff split: prod.splits sum.splits)

lemma guard_io_False [io_simps, simp]: "\<not> c \<Longrightarrow> guard_io c e m = m"
  by (simp add: guard_io_def)

lemma guard_io_True [io_simps, simp]: "c \<Longrightarrow> guard_io c e m = throw e"
  by (simp add: guard_io_def)

lemma guard_io_eq_Inr:
  "guard_io c e m w = (Inr y, w') \<longleftrightarrow> \<not> c \<and> m w = (Inr y, w')"
  by (auto simp: guard_io_def)

lemma lift_io_eq_Inr: "lift_io r w = (Inr y, w') \<longleftrightarrow> r = Inr y \<and> w' = w"
  by auto

lemmas io_Inr_iff = bind_io_eq_Inr guard_io_eq_Inr lift_io_eq_Inr

section \<open>Weakest preconditions\<close>

text \<open>
  \<open>post m w Q\<close>: running \<open>m\<close> in \<open>w\<close> ends in a result and a world that satisfy \<open>Q\<close>, whether it
  returns or throws. The collection \<open>wp\<close> computes it through the code.
\<close>

named_theorems wp "weakest preconditions of monadic operations"

definition post :: "('w, 'a) io \<Rightarrow> 'w \<Rightarrow> (err + 'a \<Rightarrow> 'w \<Rightarrow> bool) \<Rightarrow> bool" where
  "post m w Q \<longleftrightarrow> Q (fst (m w)) (snd (m w))"

lemma postD: "post m w Q \<Longrightarrow> m w = (r, w') \<Longrightarrow> Q r w'"
  by (simp add: post_def)

lemma postI: "(\<And>r w'. m w = (r, w') \<Longrightarrow> Q r w') \<Longrightarrow> post m w Q"
  by (simp add: post_def)

lemma post_weaken: "post m w P \<Longrightarrow> (\<And>r w'. P r w' \<Longrightarrow> Q r w') \<Longrightarrow> post m w Q"
  by (simp add: post_def)

lemma post_ret [wp]: "post (ret x) w Q \<longleftrightarrow> Q (Inr x) w"
  by (simp add: post_def)

lemma post_throw [wp]: "post (throw e) w Q \<longleftrightarrow> Q (Inl e) w"
  by (simp add: post_def)

lemma post_lift [wp]: "post (lift_io r) w Q \<longleftrightarrow> Q r w"
  by (simp add: post_def)

lemma post_bind [wp]: "post (bind_io m f) w Q \<longleftrightarrow>
    post m w (\<lambda>r w1. (\<forall>e. r = Inl e \<longrightarrow> Q (Inl e) w1) \<and> (\<forall>x. r = Inr x \<longrightarrow> post (f x) w1 Q))"
  by (auto simp: post_def bind_io_def split: prod.splits sum.splits)

lemma post_guard [wp]: "post (guard_io c e m) w Q \<longleftrightarrow> (c \<longrightarrow> Q (Inl e) w) \<and> (\<not> c \<longrightarrow> post m w Q)"
  by (simp add: post_def guard_io_def)

lemma post_if [wp]: "post (if c then m else m') w Q \<longleftrightarrow> (c \<longrightarrow> post m w Q) \<and> (\<not> c \<longrightarrow> post m' w Q)"
  by simp

lemma post_try [wp]: "post (try_io m h) w Q \<longleftrightarrow>
    post m w (\<lambda>r w1. (\<forall>e. r = Inl e \<longrightarrow> post (h e) w1 Q) \<and> (\<forall>x. r = Inr x \<longrightarrow> Q (Inr x) w1))"
  by (auto simp: post_def try_io_def split: prod.splits sum.splits)

section \<open>Pure code that may throw\<close>

definition bind_err :: "err + 'a \<Rightarrow> ('a \<Rightarrow> err + 'b) \<Rightarrow> err + 'b" where
  "bind_err r f = (case r of Inl e \<Rightarrow> Inl e | Inr x \<Rightarrow> f x)"

definition guard_err :: "bool \<Rightarrow> err \<Rightarrow> err + 'a \<Rightarrow> err + 'a" where
  "guard_err c e r = (if c then Inl e else r)"

lemma bind_err_simps [simp, io_simps]: "bind_err (Inr x) f = f x" "bind_err (Inl e) f = Inl e"
  by (simp_all add: bind_err_def)

lemma bind_err_eq_Inr: "bind_err r f = Inr y \<longleftrightarrow> (\<exists>x. r = Inr x \<and> f x = Inr y)"
  by (cases r) auto

lemma guard_err_eq_Inr: "guard_err c e r = Inr y \<longleftrightarrow> \<not> c \<and> r = Inr y"
  by (simp add: guard_err_def)

lemma guard_err_simps [simp, io_simps]: "guard_err False e r = r" "guard_err True e r = Inl e"
  by (simp_all add: guard_err_def)

lemmas err_Inr_iff = bind_err_eq_Inr guard_err_eq_Inr

text \<open>
  \<open>||\<close> and \<open>&&\<close> whose operands may throw (the right one only when it is reached), and the
  array methods \<open>some\<close>, \<open>find\<close>, \<open>filter\<close> and \<open>map\<close> whose callback may throw.
\<close>

definition or_err :: "err + bool \<Rightarrow> err + bool \<Rightarrow> err + bool" where
  "or_err a b = bind_err a (\<lambda>x. if x then Inr True else b)"

definition and_err :: "err + bool \<Rightarrow> err + bool \<Rightarrow> err + bool" where
  "and_err a b = bind_err a (\<lambda>x. if x then b else Inr False)"

fun some_err :: "('a \<Rightarrow> err + bool) \<Rightarrow> 'a list \<Rightarrow> err + bool" where
  "some_err f [] = Inr False"
| "some_err f (x # xs) = or_err (f x) (some_err f xs)"

fun find_err :: "('a \<Rightarrow> err + bool) \<Rightarrow> 'a list \<Rightarrow> err + 'a option" where
  "find_err f [] = Inr None"
| "find_err f (x # xs) = bind_err (f x) (\<lambda>b. if b then Inr (Some x) else find_err f xs)"

fun filter_err :: "('a \<Rightarrow> err + bool) \<Rightarrow> 'a list \<Rightarrow> err + 'a list" where
  "filter_err f [] = Inr []"
| "filter_err f (x # xs) = bind_err (f x) (\<lambda>b. bind_err (filter_err f xs) (\<lambda>ys. Inr (if b then x # ys else ys)))"

fun map_err :: "('a \<Rightarrow> err + 'b) \<Rightarrow> 'a list \<Rightarrow> err + 'b list" where
  "map_err f [] = Inr []"
| "map_err f (x # xs) = bind_err (f x) (\<lambda>y. bind_err (map_err f xs) (\<lambda>ys. Inr (y # ys)))"

lemma or_err_simps [simp]: "or_err (Inr x) b = (if x then Inr True else b)" "or_err (Inl e) b = Inl e"
  by (simp_all add: or_err_def)

lemma and_err_simps [simp]: "and_err (Inr x) b = (if x then b else Inr False)" "and_err (Inl e) b = Inl e"
  by (simp_all add: and_err_def)

lemma or_err_False: "or_err a b = Inr False \<longleftrightarrow> a = Inr False \<and> b = Inr False"
  by (cases a) auto

lemma and_err_True: "and_err a b = Inr True \<longleftrightarrow> a = Inr True \<and> b = Inr True"
  by (cases a) auto

lemma some_err_False: "some_err f xs = Inr False \<longleftrightarrow> (\<forall>x\<in>set xs. f x = Inr False)"
  by (induction xs) (auto simp: or_err_False)

lemma find_err_Some: "find_err f xs = Inr (Some x) \<Longrightarrow> x \<in> set xs \<and> f x = Inr True"
  by (induction xs) (auto simp: bind_err_eq_Inr split: if_splits)

lemma find_err_None: "find_err f xs = Inr None \<Longrightarrow> x \<in> set xs \<Longrightarrow> f x = Inr False"
  by (induction xs) (auto simp: bind_err_eq_Inr split: if_splits)

lemma map_err_Inr: "map_err f xs = Inr ys \<longleftrightarrow> list_all2 (\<lambda>x y. f x = Inr y) xs ys"
  by (induction xs arbitrary: ys) (auto simp: bind_err_eq_Inr list_all2_Cons1)

text \<open>
  Validators collect messages: \<open>complain c m\<close> is \<open>if (c) errors.push(m)\<close>, and \<open>gather\<close> runs
  such statements in order.
\<close>

definition complain :: "bool \<Rightarrow> string \<Rightarrow> err + string list" where
  "complain c m = Inr (if c then [m] else [])"

definition complain_err :: "err + bool \<Rightarrow> string \<Rightarrow> err + string list" where
  "complain_err r m = bind_err r (\<lambda>c. complain c m)"

fun gather :: "(err + string list) list \<Rightarrow> err + string list" where
  "gather [] = Inr []"
| "gather (c # cs) = bind_err c (\<lambda>es. bind_err (gather cs) (\<lambda>fs. Inr (es @ fs)))"

lemma complain_nil [simp]: "complain c m = Inr [] \<longleftrightarrow> \<not> c"
  by (simp add: complain_def)

lemma complain_err_nil [simp]: "complain_err r m = Inr [] \<longleftrightarrow> r = Inr False"
  by (cases r) (simp_all add: complain_err_def)

lemma gather_nil: "gather cs = Inr [] \<longleftrightarrow> (\<forall>c\<in>set cs. c = Inr [])"
proof (induction cs)
  case (Cons c cs)
  then show ?case by (cases c; cases "gather cs") auto
qed simp

lemma gather_nil_simps [simp]:
  "gather [] = Inr []" "gather (c # cs) = Inr [] \<longleftrightarrow> c = Inr [] \<and> gather cs = Inr []"
  by (simp_all add: gather_nil del: gather.simps)

declare gather.simps(2) [simp del]

section \<open>Lists and association lists\<close>

fun join_with :: "'a list \<Rightarrow> 'a list list \<Rightarrow> 'a list" where
  "join_with sep [] = []"
| "join_with sep [x] = x"
| "join_with sep (x # y # xs) = x @ sep @ join_with sep (y # xs)"

lemma join_with_Cons: "join_with sep (x # xs) = (if xs = [] then x else x @ sep @ join_with sep xs)"
  by (cases xs) auto

lemma map_of_update_same [simp]: "map_of (AList.update k v al) k = Some v"
  by (simp add: update_conv')

lemma map_of_update_other [simp]: "k \<noteq> k' \<Longrightarrow> map_of (AList.update k v al) k' = map_of al k'"
  by (simp add: update_conv')

lemma distinct_keys_update: "distinct (map fst al) \<Longrightarrow> distinct (map fst (AList.update k v al))"
  by (rule distinct_update)

lemma map_of_sort_key_fst:
  assumes "distinct (map fst kvs)"
  shows "map_of (sort_key fst kvs) = map_of kvs"
proof (rule map_of_eqI)
  have "distinct (map fst (sort_key fst kvs))"
    using assms by (metis distinct_map distinct_sort set_sort)
  moreover show "set (map fst (sort_key fst kvs)) = set (map fst kvs)" by simp
  ultimately show "\<forall>k\<in>set (map fst (sort_key fst kvs)). map_of (sort_key fst kvs) k = map_of kvs k"
    using assms by (metis (no_types, lifting) map_of_eq_Some_iff map_of_SomeD map_of_is_SomeI
        not_None_eq set_sort)
qed

lemma map_of_map_snd: "map_of (map (map_prod id f) kvs) k = map_option f (map_of kvs k)"
  by (induction kvs) auto

lemma map_fst_map_prod [simp]: "map fst (map (map_prod id f) kvs) = map fst kvs"
  by (induction kvs) auto

end
