(* ===== verification/JsValue.thy ===== *)
theory JsValue imports Prelude begin

text \<open>
  The values the program computes with. Durable records are JSON objects the code
  reads, checks field by field and rewrites, so the model keeps them as JavaScript
  values: \<open>jget k v\<close> is \<open>v?.k\<close>, \<open>strict_eq\<close> is \<open>===\<close>, \<open>jset\<close> is the spread
  \<open>{...o, k: v}\<close>. Numbers are the integers (all durable numbers are); strings are
  lists of 8-bit characters; objects are association lists in insertion order.
\<close>

datatype jv =
    Undef
  | Null
  | JBool bool
  | Num int
  | Str string
  | Arr "jv list"
  | Obj "(string \<times> jv) list"

section \<open>Reading\<close>

fun jget :: "string \<Rightarrow> jv \<Rightarrow> jv" where
  "jget k (Obj kvs) = (case map_of kvs k of Some v \<Rightarrow> v | None \<Rightarrow> Undef)"
| "jget k (Arr xs) = (if k = ''length'' then Num (int (length xs)) else Undef)"
| "jget k (Str s) = (if k = ''length'' then Num (int (length s)) else Undef)"
| "jget k _ = Undef"

fun jidx :: "nat \<Rightarrow> jv \<Rightarrow> jv" where
  "jidx i (Arr xs) = (if i < length xs then xs ! i else Undef)"
| "jidx i (Str s) = (if i < length s then Str [s ! i] else Undef)"
| "jidx i _ = Undef"

fun jpath :: "string list \<Rightarrow> jv \<Rightarrow> jv" where
  "jpath [] v = v"
| "jpath (k # ks) v = jpath ks (jget k v)"

fun nullish :: "jv \<Rightarrow> bool" where
  "nullish Undef = True"
| "nullish Null = True"
| "nullish _ = False"

text \<open>\<open>jdot k v\<close> is \<open>v.k\<close>: a \<open>TypeError\<close> on \<open>null\<close> and \<open>undefined\<close>.\<close>

definition jdot :: "string \<Rightarrow> jv \<Rightarrow> err + jv" where
  "jdot k v = (if nullish v then Inl TypeErr else Inr (jget k v))"

definition coalesce :: "jv \<Rightarrow> jv \<Rightarrow> jv" where
  "coalesce v d = (if nullish v then d else v)"

fun truthy :: "jv \<Rightarrow> bool" where
  "truthy Undef = False"
| "truthy Null = False"
| "truthy (JBool b) = b"
| "truthy (Num n) = (n \<noteq> 0)"
| "truthy (Str s) = (s \<noteq> [])"
| "truthy _ = True"

fun is_prim :: "jv \<Rightarrow> bool" where
  "is_prim (Arr xs) = False"
| "is_prim (Obj kvs) = False"
| "is_prim _ = True"

text \<open>
  \<open>===\<close> on the values of two records: arrays and objects of different records are
  different references, so it holds of equal primitives only.
\<close>

definition strict_eq :: "jv \<Rightarrow> jv \<Rightarrow> bool" where
  "strict_eq a b \<longleftrightarrow> is_prim a \<and> a = b"

definition jincludes :: "jv list \<Rightarrow> jv \<Rightarrow> bool" where
  "jincludes xs x \<longleftrightarrow> is_prim x \<and> x \<in> set xs"

fun is_str :: "jv \<Rightarrow> bool" where
  "is_str (Str s) = True" | "is_str _ = False"

fun is_num :: "jv \<Rightarrow> bool" where
  "is_num (Num n) = True" | "is_num _ = False"

fun is_bool :: "jv \<Rightarrow> bool" where
  "is_bool (JBool b) = True" | "is_bool _ = False"

fun is_arr :: "jv \<Rightarrow> bool" where
  "is_arr (Arr xs) = True" | "is_arr _ = False"

fun is_obj :: "jv \<Rightarrow> bool" where
  "is_obj (Obj kvs) = True" | "is_obj _ = False"

fun elems :: "jv \<Rightarrow> jv list" where
  "elems (Arr xs) = xs" | "elems _ = []"

fun keys_of :: "jv \<Rightarrow> string list" where
  "keys_of (Obj kvs) = map fst kvs" | "keys_of _ = []"

fun str_of :: "jv \<Rightarrow> string" where
  "str_of (Str s) = s" | "str_of _ = []"

fun int_of :: "jv \<Rightarrow> int" where
  "int_of (Num n) = n" | "int_of _ = 0"

definition max_safe :: int where
  "max_safe = 9007199254740991"

fun safe_int :: "jv \<Rightarrow> bool" where
  "safe_int (Num n) = (- max_safe \<le> n \<and> n \<le> max_safe)" | "safe_int _ = False"

definition pos_safe :: "jv \<Rightarrow> bool" where
  "pos_safe v \<longleftrightarrow> safe_int v \<and> 0 < int_of v"

section \<open>Building\<close>

fun jset :: "string \<Rightarrow> jv \<Rightarrow> jv \<Rightarrow> jv" where
  "jset k v (Obj kvs) = Obj (AList.update k v kvs)"
| "jset k v _ = Obj [(k, v)]"

fun jsets :: "(string \<times> jv) list \<Rightarrow> jv \<Rightarrow> jv" where
  "jsets [] o1 = o1"
| "jsets ((k, v) # kvs) o1 = jsets kvs (jset k v o1)"

text \<open>\<open>{ ...a, ...b }\<close>\<close>

fun jspread :: "jv \<Rightarrow> jv \<Rightarrow> jv" where
  "jspread a (Obj kvs) = jsets kvs (case a of Obj k \<Rightarrow> a | _ \<Rightarrow> Obj [])"
| "jspread a _ = (case a of Obj k \<Rightarrow> a | _ \<Rightarrow> Obj [])"

lemma jget_jset_same [simp, js_simps]: "jget k (jset k v o1) = v"
  by (cases o1) auto

lemma jget_jset_other [simp, js_simps]: "is_obj o1 \<Longrightarrow> k \<noteq> k' \<Longrightarrow> jget k' (jset k v o1) = jget k' o1"
  by (cases o1) auto

lemma is_obj_jset [simp, js_simps]: "is_obj (jset k v o1)"
  by (cases o1) auto

lemma jset_not_nullish [simp, js_simps]: "jset k v o1 \<noteq> Undef" "jset k v o1 \<noteq> Null" "\<not> nullish (jset k v o1)"
  by (cases o1; simp)+

lemma is_obj_jsets [simp, js_simps]: "is_obj o1 \<Longrightarrow> is_obj (jsets kvs o1)"
  by (induction kvs o1 rule: jsets.induct) auto

lemma jget_jsets:
  "is_obj o1 \<Longrightarrow> jget k (jsets kvs o1) = (case map_of (rev kvs) k of Some v \<Rightarrow> v | None \<Rightarrow> jget k o1)"
  by (induction kvs o1 rule: jsets.induct) (auto simp: map_add_def split: option.splits)

lemma jget_notin: "is_obj o1 \<Longrightarrow> k \<notin> set (keys_of o1) \<Longrightarrow> jget k o1 = Undef"
  by (cases o1) (simp_all add: map_of_eq_None_iff [THEN iffD2])

lemma keys_of_jset: "is_obj o1 \<Longrightarrow> set (keys_of (jset k v o1)) = insert k (set (keys_of o1))"
  by (cases o1) (simp_all add: dom_update)

section \<open>Strings\<close>

definition digit_char :: "nat \<Rightarrow> char" where
  "digit_char n = char_of (48 + n)"

fun nat_str :: "nat \<Rightarrow> string" where
  "nat_str n = (if n < 10 then [digit_char n] else nat_str (n div 10) @ [digit_char (n mod 10)])"

declare nat_str.simps [simp del]

definition int_str :: "int \<Rightarrow> string" where
  "int_str n = (if n < 0 then CHR ''-'' # nat_str (nat (- n)) else nat_str (nat n))"

text \<open>\<open>String(v)\<close>, the coercion of template literals and of \<open>RegExp.test\<close>.\<close>

fun js_string :: "jv \<Rightarrow> string" where
  "js_string Undef = ''undefined''"
| "js_string Null = ''null''"
| "js_string (JBool b) = (if b then ''true'' else ''false'')"
| "js_string (Num n) = int_str n"
| "js_string (Str s) = s"
| "js_string (Arr xs) =
     join_with '','' (map (\<lambda>x. case x of Undef \<Rightarrow> '''' | Null \<Rightarrow> '''' | _ \<Rightarrow> js_string x) xs)"
| "js_string (Obj kvs) = ''[object Object]''"

definition is_hex_char :: "char \<Rightarrow> bool" where
  "is_hex_char c \<longleftrightarrow> (CHR ''a'' \<le> c \<and> c \<le> CHR ''f'') \<or> (CHR ''0'' \<le> c \<and> c \<le> CHR ''9'')"

text \<open>\<open>/^[a-f0-9]{64}$/.test(v ?? '')\<close>\<close>

definition hex64 :: "jv \<Rightarrow> bool" where
  "hex64 v \<longleftrightarrow> (let s = js_string (coalesce v (Str []))
     in length s = 64 \<and> list_all is_hex_char s)"

definition is_space :: "char \<Rightarrow> bool" where
  "is_space c \<longleftrightarrow> c \<in> {CHR '' '', CHR 0x09, CHR 0x0A, CHR 0x0B, CHR 0x0C, CHR 0x0D, CHR 0xA0}"

text \<open>\<open>s.trim()\<close>\<close>

definition trim :: "string \<Rightarrow> string" where
  "trim s = rev (dropWhile is_space (rev (dropWhile is_space s)))"

definition starts_with :: "string \<Rightarrow> string \<Rightarrow> bool" where
  "starts_with p s \<longleftrightarrow> take (length p) s = p"

definition ends_with :: "string \<Rightarrow> string \<Rightarrow> bool" where
  "ends_with p s \<longleftrightarrow> starts_with (rev p) (rev s)"

text \<open>\<open>toLowerCase\<close> on one character (Latin-1).\<close>

definition lower_char :: "char \<Rightarrow> char" where
  "lower_char c = (if (CHR ''A'' \<le> c \<and> c \<le> CHR ''Z'') \<or> (CHR 0xC0 \<le> c \<and> c \<le> CHR 0xDE \<and> c \<noteq> CHR 0xD7)
     then char_of (of_char c + 32 :: nat) else c)"

lemma starts_with_append [simp]: "starts_with p (p @ s)"
  by (simp add: starts_with_def)

lemma ends_with_append [simp]: "ends_with p (s @ p)"
  by (simp add: ends_with_def)

fun has_substring :: "string \<Rightarrow> string \<Rightarrow> bool" where
  "has_substring p [] = (p = [])"
| "has_substring p (c # cs) = (starts_with p (c # cs) \<or> has_substring p cs)"

text \<open>\<open>v.includes(x)\<close> and \<open>[...v]\<close>: arrays and strings have them, other values throw.\<close>

fun includes_call :: "jv \<Rightarrow> jv \<Rightarrow> err + bool" where
  "includes_call (Arr xs) x = Inr (jincludes xs x)"
| "includes_call (Str s) x = Inr (has_substring (js_string x) s)"
| "includes_call _ x = Inl TypeErr"

fun spread_list :: "jv \<Rightarrow> err + jv list" where
  "spread_list (Arr xs) = Inr xs"
| "spread_list (Str s) = Inr (map (\<lambda>c. Str [c]) s)"
| "spread_list _ = Inl TypeErr"

text \<open>Membership of a value in a constant set of strings.\<close>

definition in_strs :: "string list \<Rightarrow> jv \<Rightarrow> bool" where
  "in_strs xs v \<longleftrightarrow> is_str v \<and> str_of v \<in> set xs"

lemma in_strs_Str [simp, js_simps]: "in_strs xs (Str s) \<longleftrightarrow> s \<in> set xs"
  by (simp add: in_strs_def)

text \<open>\<open>Object.entries(v)\<close>, and \<open>[]\<close> for what has none.\<close>

fun members_of :: "jv \<Rightarrow> (string \<times> jv) list" where
  "members_of (Obj kvs) = kvs"
| "members_of (Arr xs) = zip (map nat_str [0..<length xs]) xs"
| "members_of (Str s) = zip (map nat_str [0..<length s]) (map (\<lambda>c. Str [c]) s)"
| "members_of _ = []"

section \<open>Equality\<close>

lemma strict_eq_Str [simp, js_simps]: "strict_eq v (Str s) \<longleftrightarrow> v = Str s"
  by (auto simp: strict_eq_def)

lemma strict_eq_Str' [simp, js_simps]: "strict_eq (Str s) v \<longleftrightarrow> v = Str s"
  by (auto simp: strict_eq_def)

lemma strict_eq_Num [simp, js_simps]: "strict_eq v (Num s) \<longleftrightarrow> v = Num s"
  by (auto simp: strict_eq_def)

lemma strict_eq_Num' [simp, js_simps]: "strict_eq (Num s) v \<longleftrightarrow> v = Num s"
  by (auto simp: strict_eq_def)

lemma strict_eq_JBool [simp, js_simps]: "strict_eq v (JBool s) \<longleftrightarrow> v = JBool s"
  by (auto simp: strict_eq_def)

lemma strict_eq_Null [simp, js_simps]: "strict_eq v Null \<longleftrightarrow> v = Null"
  by (auto simp: strict_eq_def)

lemma strict_eq_Undef [simp, js_simps]: "strict_eq v Undef \<longleftrightarrow> v = Undef"
  by (auto simp: strict_eq_def)

lemma strict_eq_sym: "strict_eq a b \<longleftrightarrow> strict_eq b a"
  by (auto simp: strict_eq_def)

lemma strict_eq_imp_eq: "strict_eq a b \<Longrightarrow> a = b"
  by (simp add: strict_eq_def)

lemma strict_eq_trans: "strict_eq a b \<Longrightarrow> strict_eq b c \<Longrightarrow> strict_eq a c"
  by (auto simp: strict_eq_def)

lemma coalesce_simps [simp, js_simps]:
  "coalesce Undef d = d" "coalesce Null d = d" "coalesce (Str s) d = Str s"
  "coalesce (Num n) d = Num n" "coalesce (JBool b) d = JBool b"
  "coalesce (Arr xs) d = Arr xs" "coalesce (Obj kvs) d = Obj kvs"
  by (simp_all add: coalesce_def)

lemma jdot_Obj [simp, js_simps]: "jdot k (Obj kvs) = Inr (jget k (Obj kvs))"
  by (simp add: jdot_def)

lemma jdot_eq_Inr: "jdot k v = Inr x \<longleftrightarrow> \<not> nullish v \<and> x = jget k v"
  by (auto simp: jdot_def)

lemma is_obj_truthy: "is_obj v \<Longrightarrow> truthy v"
  by (cases v) auto

lemma is_obj_not_nullish: "is_obj v \<Longrightarrow> \<not> nullish v"
  by (cases v) auto

lemma pos_safe_Num: "pos_safe (Num n) \<longleftrightarrow> 0 < n \<and> n \<le> max_safe"
  by (auto simp: pos_safe_def max_safe_def)

lemma pos_safeE:
  assumes "pos_safe v"
  obtains n where "v = Num n" "0 < n" "n \<le> max_safe"
  using assms by (cases v) (auto simp: pos_safe_def)

section \<open>Well-formed values\<close>

text \<open>The keys of an object are distinct, at every depth.\<close>

fun jwf :: "jv \<Rightarrow> bool" where
  "jwf (Arr xs) = (\<forall>x\<in>set xs. jwf x)"
| "jwf (Obj kvs) = (distinct (map fst kvs) \<and> (\<forall>kv\<in>set kvs. jwf (snd kv)))"
| "jwf _ = True"

lemma jwf_jset: "jwf v \<Longrightarrow> jwf o1 \<Longrightarrow> jwf (jset k v o1)"
proof (cases o1)
  case (Obj kvs)
  assume "jwf v" "jwf o1"
  moreover have "set (AList.update k v kvs) \<subseteq> insert (k, v) (set kvs)" for kvs
    by (induction kvs) auto
  then have "\<forall>kv\<in>set (AList.update k v kvs). kv = (k, v) \<or> kv \<in> set kvs" by blast
  ultimately show ?thesis using Obj by (fastforce simp: distinct_update)
qed auto

lemma jwf_jget: "jwf v \<Longrightarrow> jwf (jget k v)"
  by (cases v) (auto split: option.splits dest!: map_of_SomeD)

end
