(* ===== verification/JsonText.thy ===== *)
theory JsonText imports JsValue "HOL-Library.Multiset" begin

text \<open>
  Canonical JSON (\<open>canonicalize\<close>, \<open>canonicalJson\<close> of src/io.js) over a model of
  \<open>JSON.stringify\<close> and \<open>JSON.parse\<close>: the text of every durable record. The main
  result is the round trip \<open>jparse_canonicalJson\<close>: reading back what was written
  gives the same value with sorted keys and without undefined members.
  Number literals with a fraction or an exponent and characters beyond 8 bits are
  outside the model (the parser fails on them); the parser runs on fuel, and
  \<open>pval_enough\<close> shows that the fuel \<open>jparse\<close> gives is always enough.
\<close>

section \<open>JSON.stringify\<close>

definition hex_digit :: "nat \<Rightarrow> char" where
  "hex_digit n = (if n < 10 then char_of (48 + n) else char_of (87 + n))"

definition esc_char :: "char \<Rightarrow> string" where
  "esc_char c =
     (if c = CHR 0x22 then [CHR 0x5C, CHR 0x22]
      else if c = CHR 0x5C then [CHR 0x5C, CHR 0x5C]
      else if c = CHR 0x08 then [CHR 0x5C, CHR ''b'']
      else if c = CHR 0x0C then [CHR 0x5C, CHR ''f'']
      else if c = CHR 0x0A then [CHR 0x5C, CHR ''n'']
      else if c = CHR 0x0D then [CHR 0x5C, CHR ''r'']
      else if c = CHR 0x09 then [CHR 0x5C, CHR ''t'']
      else if of_char c < (32 :: nat) then
        [CHR 0x5C, CHR ''u'', CHR ''0'', CHR ''0'', hex_digit (of_char c div 16), hex_digit (of_char c mod 16)]
      else [c])"

definition quote :: "string \<Rightarrow> string" where
  "quote s = CHR 0x22 # concat (map esc_char s) @ [CHR 0x22]"

text \<open>\<open>JSON.stringify\<close>: \<open>None\<close> is its result \<open>undefined\<close>.\<close>

fun ser :: "jv \<Rightarrow> string option" where
  "ser Undef = None"
| "ser Null = Some ''null''"
| "ser (JBool b) = Some (if b then ''true'' else ''false'')"
| "ser (Num n) = Some (int_str n)"
| "ser (Str s) = Some (quote s)"
| "ser (Arr xs) = Some (''['' @ join_with '',''
     (map (\<lambda>x. case ser x of None \<Rightarrow> ''null'' | Some s \<Rightarrow> s) xs) @ '']'')"
| "ser (Obj kvs) = Some (CHR ''{'' # join_with '',''
     (concat (map (\<lambda>kv. case ser (snd kv) of None \<Rightarrow> []
        | Some s \<Rightarrow> [quote (fst kv) @ CHR '':'' # s]) kvs)) @ ''}'')"

section \<open>canonicalJson\<close>

fun canonicalize :: "jv \<Rightarrow> jv" where
  "canonicalize (Arr xs) = Arr (map canonicalize xs)"
| "canonicalize (Obj kvs) = Obj (sort_key fst (map (\<lambda>kv. (fst kv, canonicalize (snd kv))) kvs))"
| "canonicalize v = v"

definition canonicalJson :: "jv \<Rightarrow> string" where
  "canonicalJson v = (case ser (canonicalize v) of None \<Rightarrow> ''undefined'' | Some s \<Rightarrow> s) @ [CHR 0x0A]"

section \<open>JSON.parse\<close>

definition is_ws :: "char \<Rightarrow> bool" where
  "is_ws c \<longleftrightarrow> c = CHR '' '' \<or> c = CHR 0x09 \<or> c = CHR 0x0A \<or> c = CHR 0x0D"

definition skip_ws :: "string \<Rightarrow> string" where
  "skip_ws s = dropWhile is_ws s"

definition is_digit :: "char \<Rightarrow> bool" where
  "is_digit c \<longleftrightarrow> 48 \<le> (of_char c :: nat) \<and> of_char c \<le> (57 :: nat)"

definition digit_val :: "char \<Rightarrow> nat" where
  "digit_val c = of_char c - 48"

definition dec_val :: "string \<Rightarrow> nat" where
  "dec_val ds = foldl (\<lambda>n c. 10 * n + digit_val c) 0 ds"

definition hex_val :: "char \<Rightarrow> nat option" where
  "hex_val c = (let n = (of_char c :: nat) in
     if 48 \<le> n \<and> n \<le> 57 then Some (n - 48)
     else if 97 \<le> n \<and> n \<le> 102 then Some (n - 87)
     else if 65 \<le> n \<and> n \<le> 70 then Some (n - 55)
     else None)"

text \<open>The characters after a backslash.\<close>

fun unescape :: "string \<Rightarrow> (char \<times> string) option" where
  "unescape [] = None"
| "unescape (e # cs) =
     (if e = CHR 0x22 \<or> e = CHR 0x5C \<or> e = CHR ''/'' then Some (e, cs)
      else if e = CHR ''b'' then Some (CHR 0x08, cs)
      else if e = CHR ''f'' then Some (CHR 0x0C, cs)
      else if e = CHR ''n'' then Some (CHR 0x0A, cs)
      else if e = CHR ''r'' then Some (CHR 0x0D, cs)
      else if e = CHR ''t'' then Some (CHR 0x09, cs)
      else if e = CHR ''u'' then
        (case cs of a # b # h # l # rest \<Rightarrow>
           (if a = CHR ''0'' \<and> b = CHR ''0'' then
              (case (hex_val h, hex_val l) of
                 (Some x, Some y) \<Rightarrow> Some (char_of (16 * x + y), rest)
               | _ \<Rightarrow> None)
            else None)
         | _ \<Rightarrow> None)
      else None)"

lemma unescape_shorter: "unescape s = Some (c, r) \<Longrightarrow> length r < length s"
  by (cases s) (auto split: if_splits list.splits option.splits)

function pstr :: "string \<Rightarrow> (string \<times> string) option" where
  "pstr [] = None"
| "pstr (c # cs) =
     (if c = CHR 0x22 then Some ([], cs)
      else if c = CHR 0x5C then
        (case unescape cs of None \<Rightarrow> None
         | Some (d, r) \<Rightarrow> map_option (\<lambda>(s, q). (d # s, q)) (pstr r))
      else if of_char c < (32 :: nat) then None
      else map_option (\<lambda>(s, q). (c # s, q)) (pstr cs))"
  by pat_completeness auto
termination
  by (relation "measure length") (auto dest: unescape_shorter)

definition pnum :: "string \<Rightarrow> (jv \<times> string) option" where
  "pnum s = (let neg = (case s of c # _ \<Rightarrow> c = CHR ''-'' | [] \<Rightarrow> False);
                 t = (if neg then tl s else s);
                 ds = takeWhile is_digit t;
                 r = dropWhile is_digit t
     in if ds = [] \<or> (1 < length ds \<and> hd ds = CHR ''0'')
          \<or> (case r of c # _ \<Rightarrow> c = CHR ''.'' \<or> c = CHR ''e'' \<or> c = CHR ''E'' | [] \<Rightarrow> False)
        then None
        else Some (Num (if neg then - int (dec_val ds) else int (dec_val ds)), r))"

definition plit :: "string \<Rightarrow> jv \<Rightarrow> string \<Rightarrow> (jv \<times> string) option" where
  "plit p v s = (if starts_with p s then Some (v, drop (length p) s) else None)"

fun pval :: "nat \<Rightarrow> string \<Rightarrow> (jv \<times> string) option"
and parr :: "nat \<Rightarrow> string \<Rightarrow> (jv list \<times> string) option"
and pobj :: "nat \<Rightarrow> (string \<times> jv) list \<Rightarrow> string \<Rightarrow> ((string \<times> jv) list \<times> string) option" where
  "pval 0 s = None"
| "pval (Suc f) s =
     (case skip_ws s of [] \<Rightarrow> None
      | c # cs \<Rightarrow>
        (if c = CHR ''{'' then
           (case skip_ws cs of [] \<Rightarrow> None
            | d # ds \<Rightarrow> (if d = CHR ''}'' then Some (Obj [], ds)
                else map_option (\<lambda>(kvs, r). (Obj kvs, r)) (pobj f [] (d # ds))))
         else if c = CHR ''['' then
           (case skip_ws cs of [] \<Rightarrow> None
            | d # ds \<Rightarrow> (if d = CHR '']'' then Some (Arr [], ds)
                else map_option (\<lambda>(xs, r). (Arr xs, r)) (parr f (d # ds))))
         else if c = CHR 0x22 then map_option (\<lambda>(s, r). (Str s, r)) (pstr cs)
         else if c = CHR ''n'' then plit ''null'' Null (c # cs)
         else if c = CHR ''t'' then plit ''true'' (JBool True) (c # cs)
         else if c = CHR ''f'' then plit ''false'' (JBool False) (c # cs)
         else pnum (c # cs)))"
| "parr 0 s = None"
| "parr (Suc f) s =
     (case pval f s of None \<Rightarrow> None
      | Some (v, r) \<Rightarrow> (case skip_ws r of [] \<Rightarrow> None
         | d # ds \<Rightarrow> (if d = CHR '']'' then Some ([v], ds)
             else if d = CHR '','' then map_option (\<lambda>(xs, q). (v # xs, q)) (parr f ds)
             else None)))"
| "pobj 0 acc s = None"
| "pobj (Suc f) acc s =
     (case skip_ws s of [] \<Rightarrow> None
      | c # cs \<Rightarrow> (if c \<noteq> CHR 0x22 then None else
         (case pstr cs of None \<Rightarrow> None
          | Some (k, r) \<Rightarrow> (case skip_ws r of [] \<Rightarrow> None
             | d # ds \<Rightarrow> (if d \<noteq> CHR '':'' then None else
                (case pval f ds of None \<Rightarrow> None
                 | Some (v, q) \<Rightarrow> (case skip_ws q of [] \<Rightarrow> None
                    | e # es \<Rightarrow> (if e = CHR ''}'' then Some (AList.update k v acc, es)
                        else if e = CHR '','' then pobj f (AList.update k v acc) es
                        else None))))))))"

definition jparse :: "string \<Rightarrow> jv option" where
  "jparse s = (case pval (2 * length s + 2) s of None \<Rightarrow> None
     | Some (v, r) \<Rightarrow> (if skip_ws r = [] then Some v else None))"

declare pval.simps [simp del] parr.simps [simp del] pobj.simps [simp del] pstr.simps [simp del]


section \<open>Scanning what was printed\<close>

lemma nat_str_ne [simp]: "nat_str n \<noteq> []"
  by (subst nat_str.simps) auto

lemma of_char_digit: "n < 10 \<Longrightarrow> (of_char (digit_char n) :: nat) = 48 + n"
  by (simp add: digit_char_def)

lemma is_digit_digit [simp]: "n < 10 \<Longrightarrow> is_digit (digit_char n)"
  by (simp add: is_digit_def of_char_digit)

lemma digit_val_digit [simp]: "n < 10 \<Longrightarrow> digit_val (digit_char n) = n"
  by (simp add: digit_val_def of_char_digit)

lemma nat_str_digits: "list_all is_digit (nat_str n)"
proof (induction n rule: nat_str.induct)
  case (1 n)
  then show ?case by (subst nat_str.simps) auto
qed

lemma dec_val_snoc: "dec_val (ds @ [d]) = 10 * dec_val ds + digit_val d"
  by (simp add: dec_val_def)

lemma dec_val_nat_str: "dec_val (nat_str n) = n"
proof (induction n rule: nat_str.induct)
  case (1 n)
  show ?case
  proof (cases "n < 10")
    case True
    then show ?thesis by (subst nat_str.simps) (simp add: dec_val_def)
  next
    case False
    then have "dec_val (nat_str n) = dec_val (nat_str (n div 10) @ [digit_char (n mod 10)])"
      by (subst nat_str.simps) simp
    with False 1 show ?thesis by (simp add: dec_val_snoc)
  qed
qed

lemma nat_str_hd: "0 < n \<Longrightarrow> hd (nat_str n) \<noteq> CHR ''0''"
proof (induction n rule: nat_str.induct)
  case (1 n)
  show ?case
  proof (cases "n < 10")
    case True
    have "digit_char n \<noteq> CHR ''0''"
    proof
      assume "digit_char n = CHR ''0''"
      then have "(of_char (digit_char n) :: nat) = 48" by simp
      with True 1 show False by (simp add: of_char_digit)
    qed
    with True show ?thesis by (subst nat_str.simps) simp
  next
    case False
    with 1 show ?thesis by (subst nat_str.simps) (simp add: hd_append)
  qed
qed

lemma nat_str_zero: "nat_str 0 = ''0''"
  by code_simp

text \<open>What may follow a number: nothing that would extend it.\<close>

fun num_stop :: "string \<Rightarrow> bool" where
  "num_stop [] = True"
| "num_stop (c # cs) = (\<not> is_digit c \<and> c \<noteq> CHR ''.'' \<and> c \<noteq> CHR ''e'' \<and> c \<noteq> CHR ''E'')"

lemma takeWhile_digits:
  assumes "list_all is_digit ds" "num_stop rest"
  shows "takeWhile is_digit (ds @ rest) = ds" "dropWhile is_digit (ds @ rest) = rest"
proof -
  have "takeWhile is_digit rest = []" "dropWhile is_digit rest = rest"
    using assms(2) by (cases rest; simp)+
  with assms(1) show "takeWhile is_digit (ds @ rest) = ds" "dropWhile is_digit (ds @ rest) = rest"
    by (auto simp: list_all_iff takeWhile_append2 dropWhile_append2)
qed

lemma nat_str_no_minus: "hd (nat_str n) \<noteq> CHR ''-''"
proof -
  have "is_digit (hd (nat_str n))" using nat_str_digits [of n] by (cases "nat_str n") auto
  then show ?thesis by (auto simp: is_digit_def)
qed

lemma nat_str_one_zero: "1 < length (nat_str n) \<Longrightarrow> hd (nat_str n) \<noteq> CHR ''0''"
  by (cases "n = 0") (auto simp: nat_str_zero dest: nat_str_hd)

lemma pnum_int_str:
  assumes "num_stop rest"
  shows "pnum (int_str n @ rest) = Some (Num n, rest)"
proof -
  have stop: "\<not> (case rest of c # _ \<Rightarrow> c = CHR ''.'' \<or> c = CHR ''e'' \<or> c = CHR ''E'' | [] \<Rightarrow> False)"
    using assms by (cases rest) auto
  note scan = takeWhile_digits [OF nat_str_digits assms]
  show ?thesis
  proof (cases "n < 0")
    case True
    with stop scan [of "nat (- n)"] nat_str_one_zero [of "nat (- n)"] show ?thesis
      by (auto simp: pnum_def int_str_def Let_def dec_val_nat_str)
  next
    case False
    obtain c cs where c: "nat_str (nat n) = c # cs" by (cases "nat_str (nat n)") auto
    with nat_str_no_minus [of "nat n"] have "c \<noteq> CHR ''-''" by simp
    with False stop c scan [of "nat n"] nat_str_one_zero [of "nat n"] dec_val_nat_str [of "nat n"]
    show ?thesis
      by (auto simp: pnum_def int_str_def Let_def)
  qed
qed

lemma hex_val_digit: "n < 16 \<Longrightarrow> hex_val (hex_digit n) = Some n"
  by (auto simp: hex_val_def hex_digit_def)

lemma pstr_esc: "pstr (esc_char c @ t) = map_option (\<lambda>(s, q). (c # s, q)) (pstr t)"
proof -
  have split: "16 * (of_char c div 16) + of_char c mod 16 = (of_char c :: nat)"
    by presburger
  show ?thesis
    by (auto simp: esc_char_def pstr.simps hex_val_digit split split: option.splits)
qed

lemma pstr_quote: "pstr (concat (map esc_char s) @ CHR 0x22 # rest) = Some (s, rest)"
  by (induction s) (simp_all add: pstr_esc, simp add: pstr.simps)


section \<open>Round trip\<close>

text \<open>Values with a text of their own: no \<open>undefined\<close>, distinct keys.\<close>

fun jpure :: "jv \<Rightarrow> bool" where
  "jpure Undef = False"
| "jpure (Arr xs) = (\<forall>x\<in>set xs. jpure x)"
| "jpure (Obj kvs) = (distinct (map fst kvs) \<and> (\<forall>kv\<in>set kvs. jpure (snd kv)))"
| "jpure _ = True"

text \<open>Recursion depth the parser needs for the text of a value.\<close>

fun jneed :: "jv \<Rightarrow> nat" where
  "jneed (Arr xs) = Suc (sum_list (map (\<lambda>x. Suc (jneed x)) xs))"
| "jneed (Obj kvs) = Suc (sum_list (map (\<lambda>kv. Suc (jneed (snd kv))) kvs))"
| "jneed _ = 1"

lemma jneed_pos [simp]: "0 < jneed v"
  by (cases v) auto

definition jtext :: "jv \<Rightarrow> string" where
  "jtext v = (case ser v of None \<Rightarrow> [] | Some s \<Rightarrow> s)"

definition member_text :: "string \<times> jv \<Rightarrow> string" where
  "member_text kv = quote (fst kv) @ CHR '':'' # jtext (snd kv)"

lemma ser_None: "ser v = None \<longleftrightarrow> v = Undef"
  by (cases v) auto

lemma ser_Some: "v \<noteq> Undef \<Longrightarrow> ser v = Some (jtext v)"
  by (cases "ser v") (auto simp: jtext_def ser_None)

lemma jpure_Undef: "jpure v \<Longrightarrow> v \<noteq> Undef"
  by auto

lemma jtext_Arr:
  assumes "\<forall>x\<in>set xs. jpure x"
  shows "jtext (Arr xs) = ''['' @ join_with '','' (map jtext xs) @ '']''"
proof -
  have "map (\<lambda>x. case ser x of None \<Rightarrow> ''null'' | Some s \<Rightarrow> s) xs = map jtext xs"
    using assms by (auto simp: ser_Some [OF jpure_Undef])
  then show ?thesis by (simp only: jtext_def [of "Arr xs"] ser.simps option.simps)
qed

lemma jtext_Obj:
  assumes "\<forall>kv\<in>set kvs. jpure (snd kv)"
  shows "jtext (Obj kvs) = CHR ''{'' # join_with '','' (map member_text kvs) @ ''}''"
proof -
  have "concat (map (\<lambda>kv. case ser (snd kv) of None \<Rightarrow> []
        | Some s \<Rightarrow> [quote (fst kv) @ CHR '':'' # s]) kvs) = map member_text kvs"
    using assms by (induction kvs) (auto simp: member_text_def ser_Some [OF jpure_Undef])
  then show ?thesis by (simp add: jtext_def [of "Obj kvs"])
qed

lemma digit_hd_cases:
  assumes "is_digit c"
  shows "\<not> is_ws c" "c \<noteq> CHR ''{''" "c \<noteq> CHR ''[''" "c \<noteq> CHR 0x22" "c \<noteq> CHR ''n''"
    "c \<noteq> CHR ''t''" "c \<noteq> CHR ''f''" "c \<noteq> CHR ''}''" "c \<noteq> CHR '']''"
  using assms by (auto simp: is_digit_def is_ws_def)

lemma int_str_Cons:
  obtains c cs where "int_str n = c # cs" "c = CHR ''-'' \<or> is_digit c"
proof (cases "n < 0")
  case True
  then show ?thesis using that by (auto simp: int_str_def)
next
  case False
  then show ?thesis using that nat_str_digits [of "nat n"]
    by (cases "nat_str (nat n)") (auto simp: int_str_def)
qed

lemma jtext_Cons:
  assumes "jpure v"
  obtains c cs where "jtext v = c # cs" "\<not> is_ws c" "c \<noteq> CHR ''}''" "c \<noteq> CHR '']''"
proof -
  have "\<exists>c cs. jtext v = c # cs \<and> \<not> is_ws c \<and> c \<noteq> CHR ''}'' \<and> c \<noteq> CHR '']''"
  proof (cases v)
    case (Num n)
    obtain c cs where "int_str n = c # cs" "c = CHR ''-'' \<or> is_digit c" by (rule int_str_Cons)
    with Num show ?thesis by (auto simp: jtext_def is_ws_def dest: digit_hd_cases)
  qed (use assms in \<open>auto simp: jtext_def is_ws_def quote_def\<close>)
  then show ?thesis using that by blast
qed

lemma skip_ws_Cons [simp]: "\<not> is_ws c \<Longrightarrow> skip_ws (c # cs) = c # cs"
  by (simp add: skip_ws_def)

lemma skip_ws_Nil [simp]: "skip_ws [] = []"
  by (simp add: skip_ws_def)

lemma not_ws_punct [simp]:
  "\<not> is_ws CHR '',''" "\<not> is_ws CHR ''}''" "\<not> is_ws CHR '']''" "\<not> is_ws CHR '':''"
  "\<not> is_ws CHR 0x22" "\<not> is_ws CHR ''{''" "\<not> is_ws CHR ''[''"
  by (simp_all add: is_ws_def)

lemma not_digit_punct [simp]:
  "\<not> is_digit CHR '',''" "\<not> is_digit CHR ''}''" "\<not> is_digit CHR '']''" "\<not> is_digit CHR 0x0A"
  by (simp_all add: is_digit_def)

lemma num_stop_punct:
  "num_stop (CHR '','' # s)" "num_stop (CHR ''}'' # s)" "num_stop (CHR '']'' # s)"
  "num_stop (CHR 0x0A # s)"
  by simp_all

definition reads_back :: "jv \<Rightarrow> bool" where
  "reads_back v \<longleftrightarrow> (\<forall>f rest. num_stop rest \<longrightarrow> jneed v \<le> f \<longrightarrow> pval f (jtext v @ rest) = Some (v, rest))"

lemma parr_text:
  assumes "xs \<noteq> []" and "\<forall>x\<in>set xs. reads_back x"
    and "sum_list (map (\<lambda>x. Suc (jneed x)) xs) \<le> f"
  shows "parr f (join_with '','' (map jtext xs) @ '']'' @ rest) = Some (xs, rest)"
  using assms
proof (induction xs arbitrary: f)
  case (Cons x xs)
  then obtain g where f: "f = Suc g" by (cases f) auto
  have x: "pval g (jtext x @ r) = Some (x, r)" if "num_stop r" for r
    using Cons.prems f that by (auto simp: reads_back_def)
  show ?case
  proof (cases "xs = []")
    case True
    with f x show ?thesis by (simp add: parr.simps)
  next
    case False
    with Cons f have "parr g (join_with '','' (map jtext xs) @ '']'' @ rest) = Some (xs, rest)"
      by auto
    with False f x show ?thesis by (simp add: parr.simps join_with_Cons)
  qed
qed simp

lemma pobj_text:
  assumes "kvs \<noteq> []" and "\<forall>kv\<in>set kvs. reads_back (snd kv)"
    and "sum_list (map (\<lambda>kv. Suc (jneed (snd kv))) kvs) \<le> f"
    and "distinct (map fst (acc @ kvs))"
  shows "pobj f acc (join_with '','' (map member_text kvs) @ ''}'' @ rest) = Some (acc @ kvs, rest)"
  using assms
proof (induction kvs arbitrary: f acc)
  case (Cons kv kvs)
  then obtain g where f: "f = Suc g" by (cases f) auto
  obtain k x where kv: "kv = (k, x)" by (cases kv)
  have x: "pval g (jtext x @ r) = Some (x, r)" if "num_stop r" for r
    using Cons.prems f kv that by (auto simp: reads_back_def)
  have upd: "AList.update k x acc = acc @ [(k, x)]"
    using Cons.prems(4) kv by (induction acc) auto
  have q: "pstr (concat (map esc_char k) @ CHR 0x22 # CHR '':'' # r) = Some (k, CHR '':'' # r)" for r
    by (rule pstr_quote)
  show ?case
  proof (cases "kvs = []")
    case True
    with f x kv upd q show ?thesis by (simp add: pobj.simps member_text_def quote_def)
  next
    case False
    have "pobj g (acc @ [(k, x)]) (join_with '','' (map member_text kvs) @ ''}'' @ rest)
        = Some ((acc @ [(k, x)]) @ kvs, rest)"
      using Cons.prems f kv False by (intro Cons.IH) auto
    with False f x kv upd q show ?thesis
      by (simp add: pobj.simps member_text_def [of "(k, x)"] quote_def join_with_Cons)
  qed
qed simp

lemma join_with_hd: "xs \<noteq> [] \<Longrightarrow> hd xs = c # cs \<Longrightarrow> \<exists>ds. join_with sep xs = c # ds"
  by (cases xs) (auto simp: join_with_Cons)

lemma reads_back_Arr:
  assumes "\<forall>x\<in>set xs. jpure x" and "\<forall>x\<in>set xs. reads_back x"
  shows "reads_back (Arr xs)"
  unfolding reads_back_def
proof (intro allI impI)
  fix f rest assume "num_stop rest" and "jneed (Arr xs) \<le> f"
  then obtain g where f: "f = Suc g" "sum_list (map (\<lambda>x. Suc (jneed x)) xs) \<le> g"
    by (cases f) auto
  show "pval f (jtext (Arr xs) @ rest) = Some (Arr xs, rest)"
  proof (cases xs)
    case Nil
    with f show ?thesis by (simp add: jtext_Arr pval.simps)
  next
    case (Cons y ys)
    with assms(1) obtain c cs where c: "jtext y = c # cs" "\<not> is_ws c" "c \<noteq> CHR '']''"
      by (metis jtext_Cons list.set_intros(1))
    with Cons obtain ds where "join_with '','' (map jtext xs) = c # ds"
      using join_with_hd [of "map jtext xs" c cs "'',''"] by auto
    with parr_text [of xs g rest] Cons assms f c show ?thesis
      by (simp add: jtext_Arr pval.simps)
  qed
qed

lemma reads_back_Obj:
  assumes "jpure (Obj kvs)" and "\<forall>kv\<in>set kvs. reads_back (snd kv)"
  shows "reads_back (Obj kvs)"
  unfolding reads_back_def
proof (intro allI impI)
  fix f rest assume "num_stop rest" and "jneed (Obj kvs) \<le> f"
  then obtain g where f: "f = Suc g" "sum_list (map (\<lambda>kv. Suc (jneed (snd kv))) kvs) \<le> g"
    by (cases f) auto
  show "pval f (jtext (Obj kvs) @ rest) = Some (Obj kvs, rest)"
  proof (cases kvs)
    case Nil
    with f show ?thesis by (simp add: jtext_Obj pval.simps)
  next
    case (Cons y ys)
    then obtain ds where "join_with '','' (map member_text kvs) = CHR 0x22 # ds"
      using join_with_hd [of "map member_text kvs" "CHR 0x22" _ "'',''"]
      by (auto simp: member_text_def quote_def)
    with pobj_text [of kvs g "[]" rest] Cons assms f show ?thesis
      by (simp add: jtext_Obj pval.simps)
  qed
qed

lemma reads_back_Num: "reads_back (Num n)"
  unfolding reads_back_def
proof (intro allI impI)
  fix f rest assume "num_stop rest" and "jneed (Num n) \<le> f"
  then obtain g where f: "f = Suc g" by (cases f) auto
  obtain c cs where c: "int_str n = c # cs" "c = CHR ''-'' \<or> is_digit c" by (rule int_str_Cons)
  then have "\<not> is_ws c" "c \<noteq> CHR ''{''" "c \<noteq> CHR ''[''" "c \<noteq> CHR 0x22" "c \<noteq> CHR ''n''"
    "c \<noteq> CHR ''t''" "c \<noteq> CHR ''f''"
    by (auto simp: is_ws_def dest: digit_hd_cases)
  with pnum_int_str [OF \<open>num_stop rest\<close>, of n] c f
  show "pval f (jtext (Num n) @ rest) = Some (Num n, rest)"
    by (simp add: jtext_def pval.simps)
qed

lemma reads_back_pure: "jpure v \<Longrightarrow> reads_back v"
proof (induction v rule: jpure.induct [case_names Undef Arr Obj Null Bool Num Str])
  case (Arr xs)
  then show ?case by (intro reads_back_Arr) auto
next
  case (Obj kvs)
  then show ?case by (intro reads_back_Obj) auto
next
  case Null
  show ?case by (auto simp: reads_back_def jtext_def pval.simps plit_def starts_with_def is_ws_def gr0_conv_Suc Suc_le_eq)
next
  case (Bool b)
  show ?case by (cases b) (auto simp: reads_back_def jtext_def pval.simps plit_def starts_with_def is_ws_def gr0_conv_Suc Suc_le_eq)
next
  case (Num n)
  show ?case by (rule reads_back_Num)
next
  case (Str s)
  show ?case by (auto simp: reads_back_def jtext_def quote_def pval.simps pstr_quote gr0_conv_Suc Suc_le_eq)
qed simp


lemma jneed_text: "jpure v \<Longrightarrow> jneed v \<le> 2 * length (jtext v)"
proof (induction v rule: jpure.induct [case_names Undef Arr Obj Null Bool Num Str])
  case (Arr xs)
  have "sum_list (map (\<lambda>x. Suc (jneed x)) xs) \<le> 2 * length (join_with '','' (map jtext xs)) + 1"
    if "\<forall>x\<in>set xs. jneed x \<le> 2 * length (jtext x)" for xs
    using that by (induction xs) (fastforce simp: join_with_Cons)+
  with Arr show ?case by (fastforce simp: jtext_Arr)
next
  case (Obj kvs)
  have "sum_list (map (\<lambda>kv. Suc (jneed (snd kv))) kvs)
      \<le> 2 * length (join_with '','' (map member_text kvs)) + 1"
    if "\<forall>kv\<in>set kvs. jneed (snd kv) \<le> 2 * length (jtext (snd kv))" for kvs
    using that by (induction kvs) (fastforce simp: join_with_Cons member_text_def quote_def)+
  with Obj show ?case by (fastforce simp: jtext_Obj)
next
  case (Num n)
  obtain c cs where "int_str n = c # cs" by (rule int_str_Cons)
  then show ?case by (simp add: jtext_def)
qed (auto simp: jtext_def quote_def)

text \<open>The value a written record reads back as: \<open>undefined\<close> members dropped, keys sorted.\<close>

fun json_clean :: "jv \<Rightarrow> jv" where
  "json_clean (Arr xs) = Arr (map (\<lambda>x. if x = Undef then Null else json_clean x) xs)"
| "json_clean (Obj kvs) = Obj (map (\<lambda>kv. (fst kv, json_clean (snd kv))) (filter (\<lambda>kv. snd kv \<noteq> Undef) kvs))"
| "json_clean v = v"

definition durable :: "jv \<Rightarrow> jv" where
  "durable v = canonicalize (json_clean v)"

lemma canonicalize_Undef [simp]: "canonicalize v = Undef \<longleftrightarrow> v = Undef"
  by (cases v) auto

lemma json_clean_Undef [simp]: "json_clean v = Undef \<longleftrightarrow> v = Undef"
  by (cases v) auto

lemma distinct_sort_keys: "distinct (map fst kvs) \<Longrightarrow> distinct (map fst (sort_key fst kvs))"
  by (metis distinct_map distinct_sort set_sort)

lemma jpure_canonicalize: "jpure v \<Longrightarrow> jpure (canonicalize v)"
proof (induction v rule: jpure.induct [case_names Undef Arr Obj Null Bool Num Str])
  case (Obj kvs)
  then have "distinct (map fst (map (\<lambda>kv. (fst kv, canonicalize (snd kv))) kvs))"
    by (simp add: comp_def)
  from distinct_sort_keys [OF this] Obj show ?case by auto
qed auto

lemma jpure_json_clean: "jwf v \<Longrightarrow> v \<noteq> Undef \<Longrightarrow> jpure (json_clean v)"
proof (induction v rule: json_clean.induct)
  case (2 kvs)
  have "distinct (map fst (filter P kvs))" for P
    using 2 by (auto simp: distinct_map_filter)
  with 2 show ?case by (auto simp: comp_def)
qed auto

lemma jpure_durable: "jwf v \<Longrightarrow> v \<noteq> Undef \<Longrightarrow> jpure (durable v)"
  by (simp add: durable_def jpure_canonicalize jpure_json_clean)

lemma filter_sort_key: "filter P (sort_key f xs) = sort_key f (filter P xs)"
  by (rule filter_sort)

lemma insort_key_map: "(\<And>x. f (g x) = h x) \<Longrightarrow> insort_key f (g x) (map g xs) = map g (insort_key h x xs)"
  by (induction xs) auto

lemma sort_key_map: "(\<And>x. f (g x) = h x) \<Longrightarrow> sort_key f (map g xs) = map g (sort_key h xs)"
  by (induction xs) (auto simp: insort_key_map)

lemma sort_key_stable_idem: "sort_key f (sort_key f xs) = sort_key f xs"
  by (rule sort_key_id_if_sorted) simp

lemma ser_clean: "ser (canonicalize v) = ser (canonicalize (json_clean v))"
proof (induction v rule: json_clean.induct)
  case (1 xs)
  have "map ((\<lambda>x. case ser x of None \<Rightarrow> ''null'' | Some s \<Rightarrow> s) \<circ> canonicalize) xs
      = map ((\<lambda>x. case ser x of None \<Rightarrow> ''null'' | Some s \<Rightarrow> s) \<circ> canonicalize
           \<circ> (\<lambda>x. if x = Undef then Null else json_clean x)) xs"
    using 1 by auto
  then show ?case by (simp only: canonicalize.simps json_clean.simps ser.simps map_map comp_assoc)
next
  case (2 kvs)
  let ?mem = "\<lambda>kv. case ser (snd kv) of None \<Rightarrow> [] | Some s \<Rightarrow> [quote (fst kv) @ CHR '':'' # s]"
  let ?c = "\<lambda>kv :: string \<times> jv. (fst kv, canonicalize (snd kv))"
  let ?j = "\<lambda>kv :: string \<times> jv. (fst kv, json_clean (snd kv))"
  let ?ok = "\<lambda>kv :: string \<times> jv. snd kv \<noteq> Undef"
  have drop: "concat (map (?mem \<circ> ?c) xs) = concat (map (?mem \<circ> ?c) (filter ?ok xs))" for xs
    by (induction xs) auto
  have "concat (map ?mem (sort_key fst (map ?c kvs))) = concat (map (?mem \<circ> ?c) (sort_key fst kvs))"
    by (simp add: sort_key_map comp_def)
  also have "\<dots> = concat (map (?mem \<circ> ?c) (sort_key fst (filter ?ok kvs)))"
    by (subst drop) (simp add: filter_sort_key)
  also have "\<dots> = concat (map (?mem \<circ> ?c \<circ> ?j) (sort_key fst (filter ?ok kvs)))"
    using 2 by (intro arg_cong [where f = concat] map_cong refl) (auto split: option.splits)
  also have "\<dots> = concat (map ?mem (sort_key fst (map ?c (map ?j (filter ?ok kvs)))))"
    by (simp add: sort_key_map comp_def cong: option.case_cong)
  finally show ?case by (simp only: canonicalize.simps json_clean.simps ser.simps)
qed auto

lemma canonicalJson_text:
  assumes "jwf v" "v \<noteq> Undef"
  shows "canonicalJson v = jtext (durable v) @ [CHR 0x0A]"
  using assms
  by (simp add: canonicalJson_def ser_clean [of v] durable_def [symmetric] ser_Some
      jpure_Undef [OF jpure_durable])

lemma jparse_jtext: "jpure v \<Longrightarrow> jparse (jtext v @ [CHR 0x0A]) = Some v"
proof -
  assume v: "jpure v"
  then have "jneed v \<le> 2 * length (jtext v @ [CHR 0x0A]) + 2"
    using jneed_text [OF v] by simp
  moreover have "num_stop [CHR 0x0A]" by simp
  ultimately have "pval (2 * length (jtext v @ [CHR 0x0A]) + 2) (jtext v @ [CHR 0x0A]) = Some (v, [CHR 0x0A])"
    using reads_back_pure [OF v] by (simp only: reads_back_def)
  then show ?thesis by (simp add: jparse_def skip_ws_def is_ws_def)
qed

text \<open>What \<open>writeJson\<close> puts in a file, \<open>JSON.parse\<close> reads back.\<close>

lemma jparse_canonicalJson:
  "jwf v \<Longrightarrow> v \<noteq> Undef \<Longrightarrow> jparse (canonicalJson v) = Some (durable v)"
  by (simp add: canonicalJson_text jparse_jtext jpure_durable)

lemma canonicalJson_inject:
  assumes "jwf a" "a \<noteq> Undef" "jwf b" "b \<noteq> Undef"
  shows "canonicalJson a = canonicalJson b \<longleftrightarrow> durable a = durable b"
proof
  assume "canonicalJson a = canonicalJson b"
  with jparse_canonicalJson [OF assms(1,2)] jparse_canonicalJson [OF assms(3,4)]
  show "durable a = durable b" by simp
next
  assume "durable a = durable b"
  then show "canonicalJson a = canonicalJson b"
    by (simp only: canonicalJson_text [OF assms(1,2)] canonicalJson_text [OF assms(3,4)])
qed


section \<open>Enough fuel\<close>

lemma skip_ws_length: "length (skip_ws s) \<le> length s"
  by (simp add: skip_ws_def length_dropWhile_le)

lemma skip_ws_Cons_length: "skip_ws s = c # cs \<Longrightarrow> length cs < length s"
  using skip_ws_length [of s] by simp

lemma pstr_shorter: "pstr s = Some (t, r) \<Longrightarrow> length r < length s"
proof (induction s arbitrary: t r rule: pstr.induct)
  case 1
  then show ?case by (simp add: pstr.simps)
next
  case (2 c cs)
  then show ?case
    by (fastforce simp: pstr.simps split: if_splits option.splits dest: unescape_shorter)
qed

lemma pnum_shorter: "pnum s = Some (v, r) \<Longrightarrow> length r < length s"
proof -
  assume p: "pnum s = Some (v, r)"
  define t where "t = (if (case s of c # _ \<Rightarrow> c = CHR ''-'' | [] \<Rightarrow> False) then tl s else s)"
  from p have "takeWhile is_digit t \<noteq> []" "r = dropWhile is_digit t"
    by (auto simp: pnum_def Let_def t_def split: if_splits)
  moreover have "length (takeWhile is_digit t) + length (dropWhile is_digit t) = length t"
    by (metis length_append takeWhile_dropWhile_id)
  moreover have "length t \<le> length s" by (simp add: t_def)
  ultimately show ?thesis by (cases "takeWhile is_digit t") auto
qed

lemma plit_shorter: "p \<noteq> [] \<Longrightarrow> plit p v s = Some (x, r) \<Longrightarrow> length r < length s"
  by (cases s) (auto simp: plit_def starts_with_def split: if_splits)

lemma parse_shorter:
  "pval f s = Some (v, r) \<Longrightarrow> length r < length s"
  "parr f s = Some (xs, r) \<Longrightarrow> length r < length s"
  "pobj f acc s = Some (kvs, r) \<Longrightarrow> length r < length s"
proof (induction f s and f s and f acc s arbitrary: v r and xs r and kvs r
    rule: pval_parr_pobj.induct)
  case (2 f s)
  obtain c cs where s: "skip_ws s = c # cs" using 2(3) by (auto simp: pval.simps split: list.splits)
  note len = skip_ws_Cons_length [OF s]
  have "length r < length (c # cs)" if "c \<noteq> CHR ''{''" "c \<noteq> CHR ''[''"
    using 2(3) s that
    by (auto simp: pval.simps split: if_splits option.splits prod.splits
        dest: pstr_shorter plit_shorter [rotated] pnum_shorter)
  moreover have "length r < length s" if "c = CHR ''{''"
    using 2(3) s that len 2(1) [OF s that]
    by (force simp: pval.simps split: list.splits if_splits dest: skip_ws_Cons_length)
  moreover have "length r < length s" if "c = CHR ''[''"
    using 2(3) s that len 2(2) [OF s _ that]
    by (force simp: pval.simps split: list.splits if_splits dest: skip_ws_Cons_length)
  ultimately show ?case using skip_ws_length [of s] s by fastforce
next
  case (4 f s)
  then show ?case
    by (fastforce simp: parr.simps split: option.splits list.splits if_splits prod.splits
        dest: skip_ws_Cons_length)
next
  case (6 f acc s)
  then show ?case
    by (fastforce simp: pobj.simps split: option.splits list.splits if_splits prod.splits
        dest: skip_ws_Cons_length pstr_shorter)
qed (simp_all add: pval.simps parr.simps pobj.simps)


text \<open>
  One more unit of fuel changes nothing once there are two units for every character:
  a call on a shorter text is at most two levels down.
\<close>

lemma fuel_step:
  "(\<forall>s. 2 * length s + 1 \<le> f \<longrightarrow> pval (Suc f) s = pval f s)
   \<and> (\<forall>s. 2 * length s + 2 \<le> f \<longrightarrow> parr (Suc f) s = parr f s)
   \<and> (\<forall>acc s. 2 * length s + 2 \<le> f \<longrightarrow> pobj (Suc f) acc s = pobj f acc s)"
proof (induction f)
  case 0
  show ?case by simp
next
  case (Suc f)
  have V: "pval (Suc (Suc f)) s = pval (Suc f) s" if le: "2 * length s + 1 \<le> Suc f" for s
  proof (cases "skip_ws s")
    case (Cons c cs)
    have "length cs < length s" by (rule skip_ws_Cons_length [OF Cons])
    then have "2 * length (d # ds) + 2 \<le> f" if "skip_ws cs = d # ds" for d ds
      using le skip_ws_length [of cs] that by simp
    with Suc Cons show ?thesis
      by (auto simp: pval.simps(2) [of "Suc f"] pval.simps(2) [of f] split: list.splits)
  qed (simp add: pval.simps)
  have A: "parr (Suc (Suc f)) s = parr (Suc f) s" if le: "2 * length s + 2 \<le> Suc f" for s
  proof -
    have "pval (Suc f) s = pval f s" using le Suc by simp
    moreover have "parr (Suc f) ds = parr f ds" if "pval f s = Some (v, r)" "skip_ws r = d # ds" for v r d ds
      using Suc le parse_shorter(1) [OF that(1)] skip_ws_Cons_length [OF that(2)] by simp
    ultimately show ?thesis
      by (auto simp: parr.simps(2) [of "Suc f"] parr.simps(2) [of f] split: list.splits option.splits prod.splits)
  qed
  have O: "pobj (Suc (Suc f)) acc s = pobj (Suc f) acc s" if le: "2 * length s + 2 \<le> Suc f" for acc s
  proof (cases "skip_ws s")
    case (Cons c cs)
    have le2: "2 * length ds + 5 \<le> f" if "pstr cs = Some (k, r)" "skip_ws r = d # ds" for k r d ds
      using le skip_ws_Cons_length [OF Cons] pstr_shorter [OF that(1)] skip_ws_Cons_length [OF that(2)] by simp
    have "pval (Suc f) ds = pval f ds" if "pstr cs = Some (k, r)" "skip_ws r = d # ds" for k r d ds
      using le2 [OF that] Suc by simp
    moreover have "pobj (Suc f) a es = pobj f a es"
      if "pstr cs = Some (k, r)" "skip_ws r = d # ds" "pval f ds = Some (v, q)" "skip_ws q = e # es"
      for k r d ds v q e es a
      using le2 [OF that(1,2)] parse_shorter(1) [OF that(3)] skip_ws_Cons_length [OF that(4)] Suc by simp
    ultimately show ?thesis using Cons
      by (auto simp: pobj.simps(2) [of "Suc f"] pobj.simps(2) [of f] split: list.splits option.splits prod.splits)
  qed (simp add: pobj.simps)
  show ?case using V A O by blast
qed

lemma pval_enough: "2 * length s + 2 \<le> f \<Longrightarrow> pval f s = pval (2 * length s + 2) s"
proof (induction f)
  case (Suc f)
  show ?case
  proof (cases "2 * length s + 2 \<le> f")
    case True
    with Suc fuel_step [of f] show ?thesis by simp
  next
    case False
    with Suc.prems have "Suc f = 2 * length s + 2" by simp
    then show ?thesis by (simp only:)
  qed
qed simp

section \<open>What reading back keeps\<close>

lemma durable_prim [simp]: "is_prim v \<Longrightarrow> durable v = v"
  by (cases v) (auto simp: durable_def)

lemma durable_simps [simp]:
  "durable Undef = Undef" "durable Null = Null" "durable (Str s) = Str s"
  "durable (Num n) = Num n" "durable (JBool b) = JBool b"
  by simp_all

lemma durable_Arr: "durable (Arr xs) = Arr (map (\<lambda>x. if x = Undef then Null else durable x) xs)"
  by (simp add: durable_def)

lemma is_prim_durable [simp]: "is_prim (durable v) \<longleftrightarrow> is_prim v"
  by (cases v) (auto simp: durable_def)

lemma is_obj_durable [simp]: "is_obj (durable v) \<longleftrightarrow> is_obj v"
  by (cases v) (auto simp: durable_def)

lemma durable_Undef_iff [simp]: "durable v = Undef \<longleftrightarrow> v = Undef"
  by (simp add: durable_def)

lemma durable_Str_iff [simp]: "durable v = Str s \<longleftrightarrow> v = Str s"
  by (cases v) (auto simp: durable_def)

lemma durable_Num_iff [simp]: "durable v = Num n \<longleftrightarrow> v = Num n"
  by (cases v) (auto simp: durable_def)

lemma nullish_durable [simp]: "nullish (durable v) \<longleftrightarrow> nullish v"
  by (cases v) (auto simp: durable_def)

lemma map_of_filter_Undef:
  "distinct (map fst kvs) \<Longrightarrow>
    map_of (filter (\<lambda>kv. snd kv \<noteq> Undef) kvs) k = (if map_of kvs k = Some Undef then None else map_of kvs k)"
  by (induction kvs) (auto simp: map_of_eq_None_iff image_iff)

lemma map_of_snd: "map_of (map (\<lambda>kv. (fst kv, f (snd kv))) kvs) k = map_option f (map_of kvs k)"
  by (induction kvs) auto

lemma jget_durable: "jwf v \<Longrightarrow> is_obj v \<Longrightarrow> jget k (durable v) = durable (jget k v)"
proof (cases v)
  case (Obj kvs)
  assume "jwf v"
  with Obj have d: "distinct (map fst kvs)" by simp
  then have "distinct (map fst (filter (\<lambda>kv. snd kv \<noteq> Undef) kvs))" by (auto simp: distinct_map_filter)
  then have m: "map_of (sort_key fst (map (\<lambda>kv. (fst kv, durable (snd kv))) (filter (\<lambda>kv. snd kv \<noteq> Undef) kvs))) k
      = map_option durable (if map_of kvs k = Some Undef then None else map_of kvs k)"
    by (simp only: map_of_sort_key_fst map_map comp_def fst_conv map_of_snd map_of_filter_Undef [OF d])
  have "durable v = Obj (sort_key fst (map (\<lambda>kv. (fst kv, durable (snd kv))) (filter (\<lambda>kv. snd kv \<noteq> Undef) kvs)))"
    by (simp add: Obj durable_def comp_def)
  with m Obj show ?thesis by (auto split: option.splits)
qed simp_all

lemma json_clean_pure: "jpure v \<Longrightarrow> json_clean v = v"
proof (induction v rule: jpure.induct)
  case (2 xs)
  then show ?case by (fastforce intro!: map_idI)
next
  case (3 kvs)
  have "filter (\<lambda>kv. snd kv \<noteq> Undef) kvs = kvs" using 3 by (auto simp: filter_id_conv)
  moreover have "map (\<lambda>kv. (fst kv, json_clean (snd kv))) kvs = kvs" using 3 by (auto intro: map_idI)
  ultimately show ?case by simp
qed auto

lemma canonicalize_idem: "canonicalize (canonicalize v) = canonicalize v"
proof (induction v rule: canonicalize.induct)
  case (2 kvs)
  let ?c = "\<lambda>kv :: string \<times> jv. (fst kv, canonicalize (snd kv))"
  have "map ?c (map ?c (sort_key fst kvs)) = map ?c (sort_key fst kvs)" using 2 by auto
  then have "map ?c (sort_key fst (map ?c (sort_key fst kvs))) = map ?c (sort_key fst kvs)"
    by (simp only: sort_key_map [where f = fst and g = ?c and h = fst] fst_conv sort_key_stable_idem)
  then show ?case by (simp only: canonicalize.simps sort_key_map [where f = fst and g = ?c and h = fst] fst_conv sort_key_stable_idem)
qed auto

lemma durable_idem: "jwf v \<Longrightarrow> durable (durable v) = durable v"
  by (cases "v = Undef")
    (auto simp: durable_def json_clean_pure jpure_canonicalize jpure_json_clean canonicalize_idem)

lemma canonicalJson_durable [simp]: "canonicalJson (durable v) = canonicalJson v"
  using ser_clean [of v] by (simp add: canonicalJson_def durable_def canonicalize_idem)

lemma jpure_jwf: "jpure v \<Longrightarrow> jwf v"
  by (induction v rule: jpure.induct) auto

lemma jwf_durable: "jwf v \<Longrightarrow> jwf (durable v)"
  by (cases "v = Undef") (auto intro: jpure_jwf jpure_durable)

text \<open>The text does not depend on the order the members were given in.\<close>

lemma canonicalJson_order:
  assumes "mset kvs = mset kvs'" "distinct (map fst kvs)"
  shows "canonicalJson (Obj kvs) = canonicalJson (Obj kvs')"
proof -
  let ?c = "\<lambda>kv :: string \<times> jv. (fst kv, canonicalize (snd kv))"
  have m: "mset (map ?c kvs) = mset (map ?c kvs')" using assms(1) by (simp only: mset_map)
  have d: "distinct (map fst (map ?c kvs))" using assms(2) by (simp add: comp_def)
  have "inj_on fst (set (map ?c kvs))" using d by (simp only: distinct_map)
  with m have "sort_key fst (map ?c kvs) = sort_key fst (map ?c kvs')"
    by (intro sort_key_inj_key_eq) simp_all
  then show ?thesis by (simp add: canonicalJson_def)
qed


text \<open>A parsed value has distinct keys and no \<open>undefined\<close>.\<close>

lemma jpure_update:
  "distinct (map fst acc) \<Longrightarrow> \<forall>kv\<in>set acc. jpure (snd kv) \<Longrightarrow> jpure v \<Longrightarrow>
    distinct (map fst (AList.update k v acc)) \<and> (\<forall>kv\<in>set (AList.update k v acc). jpure (snd kv))"
proof -
  assume a: "distinct (map fst acc)" "\<forall>kv\<in>set acc. jpure (snd kv)" "jpure v"
  have "set (AList.update k v acc) \<subseteq> insert (k, v) (set acc)" by (induction acc) auto
  with a show ?thesis by (auto simp: distinct_update)
qed

lemma parse_pure:
  "pval f s = Some (v, r) \<Longrightarrow> jpure v"
  "parr f s = Some (xs, r) \<Longrightarrow> \<forall>x\<in>set xs. jpure x"
  "pobj f acc s = Some (kvs, r) \<Longrightarrow> distinct (map fst acc) \<Longrightarrow> \<forall>kv\<in>set acc. jpure (snd kv)
     \<Longrightarrow> distinct (map fst kvs) \<and> (\<forall>kv\<in>set kvs. jpure (snd kv))"
proof (induction f s and f s and f acc s arbitrary: v r and xs r and kvs r
    rule: pval_parr_pobj.induct)
  case (2 f s)
  from 2(3) obtain c cs where s: "skip_ws s = c # cs" by (auto simp: pval.simps split: list.splits)
  with 2 show ?case
    by (auto simp: pval.simps plit_def pnum_def Let_def split: list.splits if_splits option.splits)
next
  case (4 f s)
  then show ?case
    by (auto simp: parr.simps split: option.splits list.splits if_splits prod.splits)
next
  case (6 f acc s)
  from 6(3) obtain c cs k r1 d ds v q e es where
      step: "skip_ws s = c # cs" "\<not> c \<noteq> CHR 0x22" "pstr cs = Some (k, r1)" "skip_ws r1 = d # ds"
        "\<not> d \<noteq> CHR '':''" "pval f ds = Some (v, q)" "skip_ws q = e # es"
      and fin: "(if e = CHR ''}'' then Some (AList.update k v acc, es)
          else if e = CHR '','' then pobj f (AList.update k v acc) es else None) = Some (kvs, r)"
    by (auto simp: pobj.simps split: option.splits list.splits if_splits prod.splits)
  have "jpure v" by (rule 6(1) [OF step(1,2,3) refl step(4,5,6)])
  note upd = jpure_update [OF 6(4,5) this, of k]
  show ?case
  proof (cases "e = CHR ''}''")
    case True
    with fin upd show ?thesis by auto
  next
    case False
    with fin have e: "e = CHR '',''" and rec: "pobj f (AList.update k v acc) es = Some (kvs, r)"
      by (auto split: if_splits)
    from upd show ?thesis
      by (intro 6(2) [OF step(1,2,3) refl step(4,5,6) refl step(7) False e rec]) auto
  qed
qed (simp_all add: pval.simps parr.simps pobj.simps)

lemma jparse_pure: "jparse s = Some v \<Longrightarrow> jpure v"
  by (auto simp: jparse_def split: option.splits if_splits intro: parse_pure(1))

end
