(* ===== verification/Store.thy ===== *)
theory Store imports JsonText begin

text \<open>
  Durable files (src/io.js). A world holds the bytes of every file, the lock
  directories that exist, and the environment the code reads: the clock, the stream
  of random UUIDs and the digest \<open>createHash('sha256')\<close>, which stays an unspecified
  function. Operations are atomic here; \<open>AtomicWrite\<close> and \<open>CasProtocol\<close> show that
  the sequences of system calls behind them justify that.
\<close>

record world =
  files :: "(string \<times> string) list"
  dirs :: "string list"
  clock :: "nat \<Rightarrow> string"
  ticks :: nat
  uuids :: "nat \<Rightarrow> string"
  drawn :: nat
  digest :: "string \<Rightarrow> string"

type_synonym 'a wio = "(world, 'a) io"

definition bytes_at :: "world \<Rightarrow> string \<Rightarrow> string option" where
  "bytes_at w p = map_of (files w) p"

definition put_file :: "string \<Rightarrow> string \<Rightarrow> world \<Rightarrow> world" where
  "put_file p b w = w\<lparr>files := AList.update p b (files w)\<rparr>"

definition existsSync :: "string \<Rightarrow> bool wio" where
  "existsSync p w = (Inr (bytes_at w p \<noteq> None), w)"

section \<open>Clock, identifiers, digests\<close>

definition now :: "string wio" where
  "now w = (Inr (clock w (ticks w)), w\<lparr>ticks := Suc (ticks w)\<rparr>)"

definition id_new :: "string \<Rightarrow> string wio" where
  "id_new prefix w = (Inr (prefix @ ''-'' @ uuids w (drawn w)), w\<lparr>drawn := Suc (drawn w)\<rparr>)"

definition sha256 :: "string \<Rightarrow> string wio" where
  "sha256 s w = (Inr (digest w s), w)"

definition fileSha256 :: "string \<Rightarrow> string wio" where
  "fileSha256 p w = (case bytes_at w p of
       None \<Rightarrow> (Inl (Coded ''ENOENT'' (''no such file: '' @ p)), w)
     | Some b \<Rightarrow> (Inr (digest w b), w))"

section \<open>Reading\<close>

definition opsle_marker :: string where
  "opsle_marker = ''/.opsle/''"

text \<open>\<open>operationalRootForPath\<close> (src/runtime-release.js): the path up to the first marker.\<close>

fun operationalRootForPath :: "string \<Rightarrow> string option" where
  "operationalRootForPath [] = None"
| "operationalRootForPath (c # cs) =
     (if starts_with opsle_marker (c # cs) then Some []
      else map_option (\<lambda>r. c # r) (operationalRootForPath cs))"

definition corrupt_at :: "string \<Rightarrow> string \<Rightarrow> err" where
  "corrupt_at p m = (if operationalRootForPath p = None then Err m else Coded ''CORRUPT'' m)"

definition parse_object :: "string \<Rightarrow> string option \<Rightarrow> err + jv" where
  "parse_object p b = (case b of
       None \<Rightarrow> Inl (corrupt_at p (''invalid durable JSON '' @ p))
     | Some s \<Rightarrow> (case jparse s of
         None \<Rightarrow> Inl (corrupt_at p (''invalid durable JSON '' @ p))
       | Some v \<Rightarrow> (if is_obj v then Inr v
           else Inl (corrupt_at p (''durable JSON must be an object: '' @ p)))))"

definition readJson :: "string \<Rightarrow> jv wio" where
  "readJson p w = (parse_object p (bytes_at w p), w)"

text \<open>\<open>readOptional\<close> (src/wakeup.js): \<open>null\<close> for a missing file.\<close>

definition readOptional :: "string \<Rightarrow> jv wio" where
  "readOptional p = bind_io (existsSync p) (\<lambda>e. if e then readJson p else ret Null)"

text \<open>\<open>readdirSync\<close>, restricted to the names that end in \<open>.json\<close>.\<close>

definition json_names :: "string \<Rightarrow> world \<Rightarrow> string list" where
  "json_names d w = filter (\<lambda>n. CHR ''/'' \<notin> set n \<and> ends_with ''.json'' n)
     (map (\<lambda>pb. drop (length d + 1) (fst pb)) (filter (\<lambda>pb. starts_with (d @ ''/'') (fst pb)) (files w)))"

text \<open>A directory exists when it was created or when it holds a file.\<close>

definition dir_exists :: "world \<Rightarrow> string \<Rightarrow> bool" where
  "dir_exists w d \<longleftrightarrow> d \<in> set (dirs w) \<or> list_ex (\<lambda>pb. starts_with (d @ ''/'') (fst pb)) (files w)"

definition existsDir :: "string \<Rightarrow> bool wio" where
  "existsDir d w = (Inr (dir_exists w d), w)"

definition mkdirp :: "string \<Rightarrow> unit wio" where
  "mkdirp d w = (Inr (), w\<lparr>dirs := List.insert d (dirs w)\<rparr>)"

definition readdirJson :: "string \<Rightarrow> (string list) wio" where
  "readdirJson d w = ((if dir_exists w d then Inr (json_names d w)
     else Inl (Coded ''ENOENT'' (''no such directory: '' @ d))), w)"

definition readFile :: "string \<Rightarrow> string wio" where
  "readFile p w = (case bytes_at w p of
       None \<Rightarrow> (Inl (Coded ''ENOENT'' (''no such file: '' @ p)), w)
     | Some b \<Rightarrow> (Inr b, w))"

section \<open>Writing\<close>

definition atomicWrite :: "string \<Rightarrow> string \<Rightarrow> unit wio" where
  "atomicWrite p b w = (Inr (), put_file p b w)"

definition writeJson :: "string \<Rightarrow> jv \<Rightarrow> unit wio" where
  "writeJson p v = atomicWrite p (canonicalJson v)"

text \<open>\<open>link(2)\<close> fails with \<open>EEXIST\<close> on an existing name: the first writer wins.\<close>

definition atomicCreateJson :: "string \<Rightarrow> jv \<Rightarrow> bool wio" where
  "atomicCreateJson p v w = (case bytes_at w p of
       Some b \<Rightarrow> (Inr False, w)
     | None \<Rightarrow> (Inr True, put_file p (canonicalJson v) w))"

datatype cas_result =
    Swapped "string option" string
  | LockBusy
  | ContentChanged "string option"

definition cas_lock :: "string \<Rightarrow> string" where
  "cas_lock p = p @ ''.cas-lock''"

definition atomicCompareAndSwapJson :: "string \<Rightarrow> string option \<Rightarrow> jv \<Rightarrow> cas_result wio" where
  "atomicCompareAndSwapJson p expected v w =
     (if cas_lock p \<in> set (dirs w) then (Inr LockBusy, w)
      else let current = map_option (digest w) (bytes_at w p) in
        if current \<noteq> expected then (Inr (ContentChanged current), w)
        else (Inr (Swapped current (digest w (canonicalJson v))), put_file p (canonicalJson v) w))"

definition appendEvent :: "string \<Rightarrow> jv \<Rightarrow> unit wio" where
  "appendEvent p ev w = (Inr (),
     put_file p ((case bytes_at w p of None \<Rightarrow> [] | Some b \<Rightarrow> b) @ canonicalJson ev) w)"

section \<open>Laws\<close>

lemma bytes_at_put [simp, store_simps]:
  "bytes_at (put_file p b w) q = (if q = p then Some b else bytes_at w q)"
  by (simp add: bytes_at_def put_file_def)

lemma bytes_at_ticks [simp, store_simps]: "bytes_at (w\<lparr>ticks := n\<rparr>) p = bytes_at w p"
  by (simp add: bytes_at_def)

lemma bytes_at_drawn [simp, store_simps]: "bytes_at (w\<lparr>drawn := n\<rparr>) p = bytes_at w p"
  by (simp add: bytes_at_def)

lemma put_file_fields [simp, store_simps]:
  "dirs (put_file p b w) = dirs w" "clock (put_file p b w) = clock w"
  "ticks (put_file p b w) = ticks w" "uuids (put_file p b w) = uuids w"
  "drawn (put_file p b w) = drawn w" "digest (put_file p b w) = digest w"
  by (simp_all add: put_file_def)

lemma existsSync_run [simp, store_simps]: "existsSync p w = (Inr (bytes_at w p \<noteq> None), w)"
  by (simp add: existsSync_def)

lemma now_run [simp, store_simps]: "now w = (Inr (clock w (ticks w)), w\<lparr>ticks := Suc (ticks w)\<rparr>)"
  by (simp add: now_def)

lemma id_new_run [simp, store_simps]:
  "id_new pre w = (Inr (pre @ ''-'' @ uuids w (drawn w)), w\<lparr>drawn := Suc (drawn w)\<rparr>)"
  by (simp add: id_new_def)

lemma sha256_run [simp, store_simps]: "sha256 s w = (Inr (digest w s), w)"
  by (simp add: sha256_def)

lemma readJson_run [simp, store_simps]: "readJson p w = (parse_object p (bytes_at w p), w)"
  by (simp add: readJson_def)

lemma bytes_at_dirs [simp, store_simps]: "bytes_at (w\<lparr>dirs := d\<rparr>) p = bytes_at w p"
  by (simp add: bytes_at_def)

lemma existsDir_run [simp, store_simps]: "existsDir d w = (Inr (dir_exists w d), w)"
  by (simp add: existsDir_def)

lemma mkdirp_run [simp, store_simps]: "mkdirp d w = (Inr (), w\<lparr>dirs := List.insert d (dirs w)\<rparr>)"
  by (simp add: mkdirp_def)

lemma writeJson_run [simp, store_simps]: "writeJson p v w = (Inr (), put_file p (canonicalJson v) w)"
  by (simp add: writeJson_def atomicWrite_def)

lemma readOptional_run [store_simps]:
  "readOptional p w = ((if bytes_at w p = None then Inr Null else parse_object p (bytes_at w p)), w)"
  by (simp add: readOptional_def bind_io_def)

lemma bind_now [simp, io_simps]:
  "bind_io now f w = f (clock w (ticks w)) (w\<lparr>ticks := Suc (ticks w)\<rparr>)"
  by (simp add: bind_io_def)

lemma bind_id_new [simp, io_simps]:
  "bind_io (id_new pre) f w = f (pre @ ''-'' @ uuids w (drawn w)) (w\<lparr>drawn := Suc (drawn w)\<rparr>)"
  by (simp add: bind_io_def)

lemma bind_sha256 [simp, io_simps]: "bind_io (sha256 s) f w = f (digest w s) w"
  by (simp add: bind_io_def)

lemma bind_exists [simp, io_simps]: "bind_io (existsSync p) f w = f (bytes_at w p \<noteq> None) w"
  by (simp add: bind_io_def)

lemma bind_existsDir [simp, io_simps]: "bind_io (existsDir d) f w = f (dir_exists w d) w"
  by (simp add: bind_io_def)

lemma bind_mkdirp [simp, io_simps]: "bind_io (mkdirp d) f w = f () (w\<lparr>dirs := List.insert d (dirs w)\<rparr>)"
  by (simp add: bind_io_def)

lemma bind_writeJson [simp, io_simps]:
  "bind_io (writeJson p v) f w = f () (put_file p (canonicalJson v) w)"
  by (simp add: bind_io_def)

lemma bind_readJson [io_simps]:
  "bind_io (readJson p) f w = (case parse_object p (bytes_at w p) of Inl e \<Rightarrow> (Inl e, w) | Inr v \<Rightarrow> f v w)"
  by (simp add: bind_io_def)

lemma bind_readOptional [io_simps]:
  "bind_io (readOptional p) f w = (if bytes_at w p = None then f Null w
     else (case parse_object p (bytes_at w p) of Inl e \<Rightarrow> (Inl e, w) | Inr v \<Rightarrow> f v w))"
  by (simp add: bind_io_def readOptional_run)

text \<open>What is written is read back, and only at the path it was written to.\<close>

lemma parse_object_canonicalJson [simp, store_simps]:
  "jwf v \<Longrightarrow> is_obj v \<Longrightarrow> parse_object p (Some (canonicalJson v)) = Inr (durable v)"
  by (cases v) (auto simp: parse_object_def jparse_canonicalJson)

lemma parse_object_obj: "parse_object p b = Inr v \<Longrightarrow> is_obj v"
  by (auto simp: parse_object_def split: option.splits if_splits)

lemma parse_object_None: "parse_object p None = Inl (corrupt_at p (''invalid durable JSON '' @ p))"
  by (simp add: parse_object_def)

lemma parse_object_present: "parse_object p b = Inr v \<Longrightarrow> b \<noteq> None"
  by (cases b) (auto simp: parse_object_def)

lemma parse_object_pure: "parse_object p b = Inr v \<Longrightarrow> jpure v"
  by (auto simp: parse_object_def split: option.splits if_splits dest: jparse_pure)

lemma parse_object_jwf: "parse_object p b = Inr v \<Longrightarrow> jwf v"
  by (rule jpure_jwf [OF parse_object_pure])

theorem readJson_writeJson:
  assumes "jwf v" "is_obj v"
  shows "bind_io (writeJson p v) (\<lambda>_. readJson p) w
    = (Inr (durable v), put_file p (canonicalJson v) w)"
  using assms by simp

lemma readJson_obj: "readJson p w = (Inr v, w') \<Longrightarrow> is_obj v \<and> w' = w"
  by (auto dest: parse_object_obj)

section \<open>Weakest preconditions of the store operations\<close>

lemma post_exists [wp]: "post (existsSync p) w Q \<longleftrightarrow> Q (Inr (bytes_at w p \<noteq> None)) w"
  by (simp add: post_def)

lemma post_readJson [wp]: "post (readJson p) w Q \<longleftrightarrow> Q (parse_object p (bytes_at w p)) w"
  by (simp add: post_def)

lemma post_readOptional [wp]: "post (readOptional p) w Q \<longleftrightarrow>
    Q (if bytes_at w p = None then Inr Null else parse_object p (bytes_at w p)) w"
  by (simp add: post_def readOptional_run)

lemma post_now [wp]: "post now w Q \<longleftrightarrow> Q (Inr (clock w (ticks w))) (w\<lparr>ticks := Suc (ticks w)\<rparr>)"
  by (simp add: post_def)

lemma post_id_new [wp]: "post (id_new pre) w Q \<longleftrightarrow>
    Q (Inr (pre @ ''-'' @ uuids w (drawn w))) (w\<lparr>drawn := Suc (drawn w)\<rparr>)"
  by (simp add: post_def)

lemma post_sha256 [wp]: "post (sha256 s) w Q \<longleftrightarrow> Q (Inr (digest w s)) w"
  by (simp add: post_def)

lemma post_readdirJson [wp]: "post (readdirJson d) w Q \<longleftrightarrow>
    Q (if dir_exists w d then Inr (json_names d w) else Inl (Coded ''ENOENT'' (''no such directory: '' @ d))) w"
  by (simp add: post_def readdirJson_def)

lemma post_existsDir [wp]: "post (existsDir d) w Q \<longleftrightarrow> Q (Inr (dir_exists w d)) w"
  by (simp add: post_def)

lemma post_mkdirp [wp]: "post (mkdirp d) w Q \<longleftrightarrow> Q (Inr ()) (w\<lparr>dirs := List.insert d (dirs w)\<rparr>)"
  by (simp add: post_def)

lemma post_readFile [wp]: "post (readFile p) w Q \<longleftrightarrow> Q (case bytes_at w p of
       None \<Rightarrow> Inl (Coded ''ENOENT'' (''no such file: '' @ p)) | Some b \<Rightarrow> Inr b) w"
  by (simp add: post_def readFile_def split: option.splits)

lemma post_writeJson [wp]: "post (writeJson p v) w Q \<longleftrightarrow> Q (Inr ()) (put_file p (canonicalJson v) w)"
  by (simp add: post_def)

lemma post_fileSha256 [wp]: "post (fileSha256 p) w Q \<longleftrightarrow> Q (case bytes_at w p of
       None \<Rightarrow> Inl (Coded ''ENOENT'' (''no such file: '' @ p)) | Some b \<Rightarrow> Inr (digest w b)) w"
  by (simp add: post_def fileSha256_def split: option.splits)

lemma post_create [wp]: "post (atomicCreateJson p v) w Q \<longleftrightarrow>
    (bytes_at w p \<noteq> None \<longrightarrow> Q (Inr False) w) \<and> (bytes_at w p = None \<longrightarrow> Q (Inr True) (put_file p (canonicalJson v) w))"
  by (auto simp: post_def atomicCreateJson_def split: option.splits)

lemma post_cas [wp]: "post (atomicCompareAndSwapJson p e v) w Q \<longleftrightarrow>
    (cas_lock p \<in> set (dirs w) \<longrightarrow> Q (Inr LockBusy) w)
    \<and> (cas_lock p \<notin> set (dirs w) \<and> map_option (digest w) (bytes_at w p) \<noteq> e
        \<longrightarrow> Q (Inr (ContentChanged (map_option (digest w) (bytes_at w p)))) w)
    \<and> (cas_lock p \<notin> set (dirs w) \<and> map_option (digest w) (bytes_at w p) = e
        \<longrightarrow> Q (Inr (Swapped e (digest w (canonicalJson v)))) (put_file p (canonicalJson v) w))"
  by (auto simp: post_def atomicCompareAndSwapJson_def Let_def)

section \<open>The interface of the store\<close>

text \<open>
  Components rely on files only through these two contracts: bytes are stored per
  path, and compare-and-swap replaces the content only when its digest is the one
  the caller saw.
\<close>

locale durable_store =
  fixes bytes :: "'s \<Rightarrow> 'p \<Rightarrow> string option"
    and put :: "'p \<Rightarrow> string \<Rightarrow> 's \<Rightarrow> 's"
  assumes bytes_put: "bytes (put p b s) q = (if q = p then Some b else bytes s q)"
begin

lemma bytes_put_same: "bytes (put p b s) p = Some b"
  by (simp add: bytes_put)

lemma bytes_put_other: "q \<noteq> p \<Longrightarrow> bytes (put p b s) q = bytes s q"
  by (simp add: bytes_put)

lemma bytes_put_twice: "bytes (put p b (put p a s)) = bytes (put p b s)"
  by (rule ext) (simp add: bytes_put)

lemma bytes_put_commute: "p \<noteq> q \<Longrightarrow> bytes (put p b (put q a s)) = bytes (put q a (put p b s))"
  by (rule ext) (auto simp: bytes_put)

end

locale cas_register = durable_store bytes put
  for bytes :: "'s \<Rightarrow> 'p \<Rightarrow> string option" and put :: "'p \<Rightarrow> string \<Rightarrow> 's \<Rightarrow> 's" +
  fixes hash :: "'s \<Rightarrow> string \<Rightarrow> string"
    and cas :: "'p \<Rightarrow> string option \<Rightarrow> string \<Rightarrow> 's \<Rightarrow> bool \<times> 's"
  assumes cas_swapped: "cas p e b s = (True, s') \<Longrightarrow> map_option (hash s) (bytes s p) = e \<and> s' = put p b s"
    and cas_refused: "cas p e b s = (False, s') \<Longrightarrow> s' = s"
begin

lemma cas_frame: "cas p e b s = (r, s') \<Longrightarrow> q \<noteq> p \<Longrightarrow> bytes s' q = bytes s q"
  by (cases r) (auto dest: cas_swapped cas_refused simp: bytes_put)

lemma cas_content: "cas p e b s = (True, s') \<Longrightarrow> bytes s' p = Some b"
  by (auto dest: cas_swapped simp: bytes_put)

text \<open>A swap succeeds only on the content the caller read, unless two contents share a digest.\<close>

lemma cas_exact:
  assumes "cas p (map_option (hash s) old) b s = (True, s')" and "inj (hash s)"
  shows "bytes s p = old"
  using cas_swapped [OF assms(1)] assms(2)
  by (cases old; cases "bytes s p") (auto dest: injD)

text \<open>Of two swaps that expect the same content, the second is refused.\<close>

lemma cas_second_refused:
  assumes "cas p e b s = (True, s1)" and "hash s1 = hash s"
    and "Some (hash s b) \<noteq> e" and "cas p e b2 s1 = (r, s2)"
  shows "r = False \<and> s2 = s1"
proof -
  have "\<not> r"
  proof
    assume r
    with assms(4) have "map_option (hash s1) (bytes s1 p) = e" by (auto dest: cas_swapped)
    with cas_content [OF assms(1)] assms(2,3) show False by simp
  qed
  with assms(4) show ?thesis by (auto dest: cas_refused)
qed

end

definition cas_bytes :: "string \<Rightarrow> string option \<Rightarrow> string \<Rightarrow> world \<Rightarrow> bool \<times> world" where
  "cas_bytes p e b w = (if cas_lock p \<in> set (dirs w) \<or> map_option (digest w) (bytes_at w p) \<noteq> e
     then (False, w) else (True, put_file p b w))"

fun is_swapped :: "cas_result \<Rightarrow> bool" where
  "is_swapped (Swapped a b) = True" | "is_swapped _ = False"

lemma cas_json_bytes:
  "atomicCompareAndSwapJson p e v w = (Inr r, w') \<Longrightarrow> cas_bytes p e (canonicalJson v) w = (is_swapped r, w')"
  by (auto simp: atomicCompareAndSwapJson_def cas_bytes_def Let_def split: if_splits)

interpretation store: cas_register bytes_at put_file digest cas_bytes
  by unfold_locales (auto simp: cas_bytes_def split: if_splits)

lemma cas_json_total: "\<exists>r w'. atomicCompareAndSwapJson p e v w = (Inr r, w')"
  by (auto simp: atomicCompareAndSwapJson_def Let_def)

lemma cas_json_cases:
  obtains (busy) "atomicCompareAndSwapJson p e v w = (Inr LockBusy, w)" "cas_lock p \<in> set (dirs w)"
  | (changed) "atomicCompareAndSwapJson p e v w = (Inr (ContentChanged (map_option (digest w) (bytes_at w p))), w)"
      "map_option (digest w) (bytes_at w p) \<noteq> e" "cas_lock p \<notin> set (dirs w)"
  | (swapped) "atomicCompareAndSwapJson p e v w
        = (Inr (Swapped e (digest w (canonicalJson v))), put_file p (canonicalJson v) w)"
      "map_option (digest w) (bytes_at w p) = e" "cas_lock p \<notin> set (dirs w)"
  by (cases "cas_lock p \<in> set (dirs w)"; cases "map_option (digest w) (bytes_at w p) = e")
    (auto simp: atomicCompareAndSwapJson_def Let_def)

text \<open>Two worlds that differ in the clock and the identifiers drawn only.\<close>

definition same_store :: "world \<Rightarrow> world \<Rightarrow> bool" where
  "same_store w w' \<longleftrightarrow> bytes_at w' = bytes_at w \<and> digest w' = digest w \<and> dirs w' = dirs w"

lemma same_store_refl [simp]: "same_store w w"
  by (simp add: same_store_def)

lemma same_store_trans: "same_store a b \<Longrightarrow> same_store b c \<Longrightarrow> same_store a c"
  by (simp add: same_store_def)

lemma same_store_env [simp]:
  "same_store w (w\<lparr>ticks := n\<rparr>)" "same_store w (w\<lparr>drawn := n\<rparr>)"
  "same_store w (w\<lparr>drawn := m, ticks := n\<rparr>)"
  by (auto simp: same_store_def fun_eq_iff bytes_at_def)

end
