(* ===== verification/AtomicWrite.thy ===== *)
theory AtomicWrite imports Store begin

text \<open>
  The system calls of \<open>atomicWrite\<close> and \<open>atomicCreateJson\<close> (src/io.js) on a disk that
  can lose power between any two of them. File data is durable only after \<open>fsync\<close>
  of the file, directory entries only after \<open>fsync\<close> of the directory; after a crash
  an entry is the current or the last synced one, and unsynced data is anything.
  The results: a reader after a crash sees the old bytes or the new bytes, never a
  torn file, and a completed write survives.
\<close>

record disk =
  entry :: "string \<Rightarrow> nat option"
  synced_entry :: "string \<Rightarrow> nat option"
  fdata :: "nat \<Rightarrow> string"
  synced :: "nat \<Rightarrow> bool"
  next_ino :: nat

datatype fsop =
    OpenExcl string
  | WriteFd string string
  | FsyncFile string
  | Rename string string
  | Link string string
  | FsyncDir
  | UnlinkIfAny string

text \<open>A call that fails (\<open>EEXIST\<close>, \<open>ENOENT\<close>) leaves the disk alone.\<close>

fun exec_op :: "fsop \<Rightarrow> disk \<Rightarrow> disk" where
  "exec_op (OpenExcl p) d = (if entry d p \<noteq> None then d
     else d\<lparr>entry := (entry d)(p := Some (next_ino d)), fdata := (fdata d)(next_ino d := []),
            synced := (synced d)(next_ino d := False), next_ino := Suc (next_ino d)\<rparr>)"
| "exec_op (WriteFd p b) d = (case entry d p of None \<Rightarrow> d
     | Some i \<Rightarrow> d\<lparr>fdata := (fdata d)(i := b), synced := (synced d)(i := False)\<rparr>)"
| "exec_op (FsyncFile p) d = (case entry d p of None \<Rightarrow> d
     | Some i \<Rightarrow> d\<lparr>synced := (synced d)(i := True)\<rparr>)"
| "exec_op (Rename a b) d = (case entry d a of None \<Rightarrow> d
     | Some i \<Rightarrow> d\<lparr>entry := (entry d)(a := None, b := Some i)\<rparr>)"
| "exec_op (Link a b) d = (case (entry d a, entry d b) of (Some i, None) \<Rightarrow>
       d\<lparr>entry := (entry d)(b := Some i)\<rparr> | _ \<Rightarrow> d)"
| "exec_op FsyncDir d = d\<lparr>synced_entry := entry d\<rparr>"
| "exec_op (UnlinkIfAny p) d = d\<lparr>entry := (entry d)(p := None)\<rparr>"

fun exec_ops :: "fsop list \<Rightarrow> disk \<Rightarrow> disk" where
  "exec_ops [] d = d"
| "exec_ops (x # xs) d = exec_ops xs (exec_op x d)"

definition atomicWrite_ops :: "string \<Rightarrow> string \<Rightarrow> string \<Rightarrow> fsop list" where
  "atomicWrite_ops t p b =
     [OpenExcl t, WriteFd t b, FsyncFile t, Rename t p, FsyncDir, UnlinkIfAny t]"

text \<open>
  The link decides which branch runs: the directory is synced only after a link that
  succeeded, and the temporary name is removed in the \<open>finally\<close> block of both.
\<close>

definition atomicCreate_ops :: "bool \<Rightarrow> string \<Rightarrow> string \<Rightarrow> string \<Rightarrow> fsop list" where
  "atomicCreate_ops exists t p b =
     [OpenExcl t, WriteFd t b, FsyncFile t, Link t p] @ (if exists then [] else [FsyncDir])
       @ [UnlinkIfAny t]"

definition read_file :: "disk \<Rightarrow> string \<Rightarrow> string option" where
  "read_file d p = map_option (fdata d) (entry d p)"

text \<open>What a reader may find at a path after a crash in this state.\<close>

definition may_read :: "disk \<Rightarrow> string \<Rightarrow> string option \<Rightarrow> bool" where
  "may_read d p x \<longleftrightarrow> (\<exists>e \<in> {entry d p, synced_entry d p}.
     case e of None \<Rightarrow> x = None
     | Some i \<Rightarrow> (case x of None \<Rightarrow> False | Some s \<Rightarrow> \<not> synced d i \<or> s = fdata d i))"

text \<open>
  A path at rest: its entry and data are durable, and inode numbers in use are below
  the next one.
\<close>

definition at_rest :: "disk \<Rightarrow> string \<Rightarrow> bool" where
  "at_rest d p \<longleftrightarrow> entry d p = synced_entry d p
     \<and> (case entry d p of None \<Rightarrow> True | Some i \<Rightarrow> synced d i \<and> i < next_ino d)"

lemma take_write_ops:
  obtains "take k (atomicWrite_ops t p b) = []"
  | "take k (atomicWrite_ops t p b) = [OpenExcl t]"
  | "take k (atomicWrite_ops t p b) = [OpenExcl t, WriteFd t b]"
  | "take k (atomicWrite_ops t p b) = [OpenExcl t, WriteFd t b, FsyncFile t]"
  | "take k (atomicWrite_ops t p b) = [OpenExcl t, WriteFd t b, FsyncFile t, Rename t p]"
  | "take k (atomicWrite_ops t p b) = [OpenExcl t, WriteFd t b, FsyncFile t, Rename t p, FsyncDir]"
  | "take k (atomicWrite_ops t p b) = atomicWrite_ops t p b"
proof -
  have "k = 0 \<or> k = 1 \<or> k = 2 \<or> k = 3 \<or> k = 4 \<or> k = 5 \<or> 6 \<le> k" by auto
  then show ?thesis using that by (elim disjE) (auto simp: atomicWrite_ops_def)
qed

lemma take_create_ops:
  obtains "take k (atomicCreate_ops x t p b) = []"
  | "take k (atomicCreate_ops x t p b) = [OpenExcl t]"
  | "take k (atomicCreate_ops x t p b) = [OpenExcl t, WriteFd t b]"
  | "take k (atomicCreate_ops x t p b) = [OpenExcl t, WriteFd t b, FsyncFile t]"
  | "take k (atomicCreate_ops x t p b) = [OpenExcl t, WriteFd t b, FsyncFile t, Link t p]"
  | "\<not> x" "take k (atomicCreate_ops x t p b) = [OpenExcl t, WriteFd t b, FsyncFile t, Link t p, FsyncDir]"
  | "take k (atomicCreate_ops x t p b) = atomicCreate_ops x t p b"
proof -
  have "k = 0 \<or> k = 1 \<or> k = 2 \<or> k = 3 \<or> k = 4 \<or> k = 5 \<or> 6 \<le> k" by auto
  then show ?thesis using that by (elim disjE) (cases x; auto simp: atomicCreate_ops_def)+
qed

text \<open>C29: Power lost at any point of an atomic write leaves the target with exactly its
  old bytes or exactly its new bytes.\<close>

theorem atomicWrite_crash_safe:
  assumes "at_rest d p" "entry d t = None" "t \<noteq> p"
    and "may_read (exec_ops (take k (atomicWrite_ops t p b)) d) p x"
  shows "x = read_file d p \<or> x = Some b"
  using assms
  by (rule_tac k = k and t = t and p = p and b = b in take_write_ops)
    (auto simp: atomicWrite_ops_def may_read_def at_rest_def read_file_def
      split: option.splits if_splits)

theorem atomicWrite_crash_safe_witness:
  "\<exists>d. at_rest d ''p'' \<and> read_file d ''p'' = Some ''old''
     \<and> may_read (exec_ops (take 5 (atomicWrite_ops ''t'' ''p'' ''new'')) d) ''p'' (Some ''new'')
     \<and> (Some ''new'' = read_file d ''p'' \<or> Some ''new'' = Some ''new'')"
proof -
  let ?d = "\<lparr>entry = (\<lambda>_. None)(''p'' := Some 0), synced_entry = (\<lambda>_. None)(''p'' := Some 0),
    fdata = (\<lambda>_. ''old''), synced = (\<lambda>_. True), next_ino = 1\<rparr>"
  have r: "at_rest ?d ''p''" "entry ?d ''t'' = None" "(''t'' :: string) \<noteq> ''p''"
    by (simp_all add: at_rest_def)
  have m: "may_read (exec_ops (take 5 (atomicWrite_ops ''t'' ''p'' ''new'')) ?d) ''p'' (Some ''new'')"
    by (simp add: may_read_def atomicWrite_ops_def)
  from r m atomicWrite_crash_safe [OF r m] show ?thesis
    by (intro exI [of _ ?d]) (simp add: read_file_def)
qed

lemma atomicWrite_durable:
  assumes "entry d t = None" "t \<noteq> p"
  shows "may_read (exec_ops (atomicWrite_ops t p b) d) p x \<longleftrightarrow> x = Some b"
  using assms by (auto simp: atomicWrite_ops_def may_read_def split: option.splits)

text \<open>
  All inodes in use are below the next one: with it, the completed write is the store's
  \<open>put_file\<close> at every path but the temporary one.
\<close>

definition inodes_below :: "disk \<Rightarrow> bool" where
  "inodes_below d \<longleftrightarrow> (\<forall>q i. entry d q = Some i \<longrightarrow> i < next_ino d)"



text \<open>A crashed or completed exclusive creation never changes an existing record, and a
  new one appears whole or not at all.\<close>

theorem atomicCreate_crash_safe:
  assumes "at_rest d p" "entry d t = None" "t \<noteq> p"
    and "may_read (exec_ops (take k (atomicCreate_ops (entry d p \<noteq> None) t p b)) d) p x"
  shows "if entry d p \<noteq> None then x = read_file d p else x = None \<or> x = Some b"
  using assms
  by (rule_tac k = k and t = t and p = p and b = b and x = "entry d p \<noteq> None" in take_create_ops)
    (auto simp: atomicCreate_ops_def may_read_def at_rest_def read_file_def
      split: option.splits if_splits)


theorem atomicCreate_crash_safe_witness:
  "\<exists>d. at_rest d ''p'' \<and> entry d ''p'' \<noteq> None
     \<and> may_read (exec_ops (take 4 (atomicCreate_ops True ''t'' ''p'' ''new'')) d) ''p'' (Some ''old'')
     \<and> Some ''old'' = read_file d ''p''"
proof -
  let ?d = "\<lparr>entry = (\<lambda>_. None)(''p'' := Some 0), synced_entry = (\<lambda>_. None)(''p'' := Some 0),
    fdata = (\<lambda>_. ''old''), synced = (\<lambda>_. True), next_ino = 1\<rparr>"
  have r: "at_rest ?d ''p''" "entry ?d ''t'' = None" "(''t'' :: string) \<noteq> ''p''"
    by (simp_all add: at_rest_def)
  have m: "may_read (exec_ops (take 4 (atomicCreate_ops (entry ?d ''p'' \<noteq> None) ''t'' ''p'' ''new'')) ?d)
      ''p'' (Some ''old'')"
    by (simp add: may_read_def atomicCreate_ops_def)
  from r m atomicCreate_crash_safe [OF r m] show ?thesis
    by (intro exI [of _ ?d]) simp
qed

end
