(* ===== verification/CasProtocol.thy ===== *)
theory CasProtocol imports Store begin

text \<open>
  \<open>atomicCompareAndSwapJson\<close> (src/io.js) as processes run it: \<open>mkdir\<close> of the lock
  directory, read and compare, write, \<open>rmdir\<close>, interleaved in any order between any
  number of processes on one path. The lock makes the four steps one: every reachable
  history is a chain of exact swaps, and of the processes that expect the same content
  one at most succeeds.
\<close>

datatype pc =
    Start
  | Locked
  | Compared
  | Unlocking cas_result
  | Done cas_result

record cas_sys =
  content :: "string option"
  lock_dir :: bool
  pcs :: "nat \<Rightarrow> pc"
  swaps :: "(nat \<times> string option \<times> string) list"

text \<open>\<open>e i\<close> is the digest process \<open>i\<close> expects, \<open>n i\<close> the bytes it wants to write.\<close>

inductive cas_step :: "(string \<Rightarrow> string) \<Rightarrow> (nat \<Rightarrow> string option) \<Rightarrow> (nat \<Rightarrow> string) \<Rightarrow> cas_sys \<Rightarrow> cas_sys \<Rightarrow> bool"
  for h e n where
  busy: "pcs s i = Start \<Longrightarrow> lock_dir s \<Longrightarrow>
     cas_step h e n s (s\<lparr>pcs := (pcs s)(i := Done LockBusy)\<rparr>)"
| mkdir: "pcs s i = Start \<Longrightarrow> \<not> lock_dir s \<Longrightarrow>
     cas_step h e n s (s\<lparr>pcs := (pcs s)(i := Locked), lock_dir := True\<rparr>)"
| differs: "pcs s i = Locked \<Longrightarrow> map_option h (content s) \<noteq> e i \<Longrightarrow>
     cas_step h e n s (s\<lparr>pcs := (pcs s)(i := Unlocking (ContentChanged (map_option h (content s))))\<rparr>)"
| same: "pcs s i = Locked \<Longrightarrow> map_option h (content s) = e i \<Longrightarrow>
     cas_step h e n s (s\<lparr>pcs := (pcs s)(i := Compared)\<rparr>)"
| replace: "pcs s i = Compared \<Longrightarrow>
     cas_step h e n s (s\<lparr>pcs := (pcs s)(i := Unlocking (Swapped (e i) (h (n i)))),
       content := Some (n i), swaps := swaps s @ [(i, content s, n i)]\<rparr>)"
| rmdir: "pcs s i = Unlocking r \<Longrightarrow>
     cas_step h e n s (s\<lparr>pcs := (pcs s)(i := Done r), lock_dir := False\<rparr>)"

inductive_cases cas_stepE: "cas_step h e n s t"

definition cas_start :: "string option \<Rightarrow> cas_sys" where
  "cas_start c = \<lparr>content = c, lock_dir = False, pcs = (\<lambda>_. Start), swaps = []\<rparr>"

inductive cas_reach :: "(string \<Rightarrow> string) \<Rightarrow> (nat \<Rightarrow> string option) \<Rightarrow> (nat \<Rightarrow> string) \<Rightarrow> string option \<Rightarrow> cas_sys \<Rightarrow> bool"
  for h e n c where
  start: "cas_reach h e n c (cas_start c)"
| step: "cas_reach h e n c s \<Longrightarrow> cas_step h e n s t \<Longrightarrow> cas_reach h e n c t"

text \<open>A chain of swaps from one content to another, each replacing what the one before left.\<close>

fun swap_chain :: "(string \<Rightarrow> string) \<Rightarrow> (nat \<Rightarrow> string option) \<Rightarrow> (nat \<Rightarrow> string) \<Rightarrow> string option
    \<Rightarrow> (nat \<times> string option \<times> string) list \<Rightarrow> string option \<Rightarrow> bool" where
  "swap_chain h e n c [] c' = (c = c')"
| "swap_chain h e n c ((i, old, new) # xs) c' =
     (old = c \<and> new = n i \<and> map_option h old = e i \<and> swap_chain h e n (Some new) xs c')"

lemma swap_chain_append:
  "swap_chain h e n c (xs @ ys) c' \<longleftrightarrow> (\<exists>m. swap_chain h e n c xs m \<and> swap_chain h e n m ys c')"
  by (induction xs arbitrary: c) auto

fun holds_lock :: "pc \<Rightarrow> bool" where
  "holds_lock Locked = True" | "holds_lock Compared = True"
| "holds_lock (Unlocking r) = True" | "holds_lock _ = False"

fun outcome :: "pc \<Rightarrow> cas_result option" where
  "outcome (Unlocking r) = Some r" | "outcome (Done r) = Some r" | "outcome _ = None"

definition has_swapped :: "cas_sys \<Rightarrow> nat \<Rightarrow> bool" where
  "has_swapped s i \<longleftrightarrow> (\<exists>r. outcome (pcs s i) = Some r \<and> is_swapped r)"

definition cas_inv :: "(string \<Rightarrow> string) \<Rightarrow> (nat \<Rightarrow> string option) \<Rightarrow> (nat \<Rightarrow> string) \<Rightarrow> string option \<Rightarrow> cas_sys \<Rightarrow> bool" where
  "cas_inv h e n c s \<longleftrightarrow>
     (\<forall>i j. holds_lock (pcs s i) \<and> holds_lock (pcs s j) \<longrightarrow> i = j)
   \<and> (\<forall>i. holds_lock (pcs s i) \<longrightarrow> lock_dir s)
   \<and> (\<forall>i. pcs s i = Compared \<longrightarrow> map_option h (content s) = e i)
   \<and> swap_chain h e n c (swaps s) (content s)
   \<and> (\<forall>i. has_swapped s i \<longleftrightarrow> i \<in> fst ` set (swaps s))
   \<and> distinct (map fst (swaps s))"

lemma cas_inv_start: "cas_inv h e n c (cas_start c)"
  by (simp add: cas_inv_def cas_start_def has_swapped_def)

lemma has_swapped_move:
  assumes "pcs t = (pcs s)(i := q)"
    and "(\<exists>r. outcome q = Some r \<and> is_swapped r) = (\<exists>r. outcome (pcs s i) = Some r \<and> is_swapped r)"
  shows "has_swapped t = has_swapped s"
  using assms by (auto simp: has_swapped_def fun_eq_iff)

text \<open>Every move but the write keeps who has swapped; the lock bookkeeping is the rest.\<close>

lemma cas_inv_move:
  assumes "cas_inv h e n c s" "has_swapped t = has_swapped s"
    and "content t = content s" "swaps t = swaps s"
    and "\<forall>i j. holds_lock (pcs t i) \<and> holds_lock (pcs t j) \<longrightarrow> i = j"
    and "\<forall>i. holds_lock (pcs t i) \<longrightarrow> lock_dir t"
    and "\<forall>i. pcs t i = Compared \<longrightarrow> map_option h (content s) = e i"
  shows "cas_inv h e n c t"
  using assms unfolding cas_inv_def by simp

lemma cas_step_inv: "cas_step h e n s t \<Longrightarrow> cas_inv h e n c s \<Longrightarrow> cas_inv h e n c t"
proof (induction rule: cas_step.induct)
  case (busy s i)
  then show ?case
    by (intro cas_inv_move [OF busy(3)] has_swapped_move [of _ _ i "Done LockBusy"])
      (auto simp: cas_inv_def)
next
  case (mkdir s i)
  then show ?case
    by (intro cas_inv_move [OF mkdir(3)] has_swapped_move [of _ _ i Locked]) (auto simp: cas_inv_def)
next
  case (differs s i)
  then have "lock_dir s" "\<forall>j. holds_lock (pcs s j) \<longrightarrow> j = i"
    by (metis cas_inv_def holds_lock.simps(1))+
  with differs show ?case
    by (intro cas_inv_move [OF differs(3)]
        has_swapped_move [of _ _ i "Unlocking (ContentChanged (map_option h (content s)))"])
      (auto simp: cas_inv_def)
next
  case (same s i)
  then have "lock_dir s" "\<forall>j. holds_lock (pcs s j) \<longrightarrow> j = i"
    by (metis cas_inv_def holds_lock.simps(1))+
  with same show ?case
    by (intro cas_inv_move [OF same(3)] has_swapped_move [of _ _ i Compared]) (auto simp: cas_inv_def)
next
  case (replace s i)
  let ?t = "s\<lparr>pcs := (pcs s)(i := Unlocking (Swapped (e i) (h (n i)))),
       content := Some (n i), swaps := swaps s @ [(i, content s, n i)]\<rparr>"
  have "\<not> has_swapped s i" using replace(1) by (simp add: has_swapped_def)
  with replace(2) have "i \<notin> fst ` set (swaps s)" by (auto simp: cas_inv_def)
  moreover have "has_swapped ?t j \<longleftrightarrow> j = i \<or> has_swapped s j" for j
    by (simp add: has_swapped_def)
  moreover have hold: "holds_lock (pcs s i)" using replace(1) by simp
  moreover have "lock_dir s" using hold replace(2) by (auto simp: cas_inv_def)
  moreover have "\<not> holds_lock (pcs s j)" if "j \<noteq> i" for j
    using hold replace(2) that by (auto simp: cas_inv_def)
  moreover from this have "pcs s j \<noteq> Compared" if "j \<noteq> i" for j using that by fastforce
  ultimately show ?case using replace
    unfolding cas_inv_def by (auto simp: swap_chain_append)
next
  case (rmdir s i r)
  then have "\<forall>j. holds_lock (pcs s j) \<longrightarrow> j = i"
    by (metis cas_inv_def holds_lock.simps(3))
  with rmdir show ?case
    by (intro cas_inv_move [OF rmdir(2)] has_swapped_move [of _ _ i "Done r"]) (auto simp: cas_inv_def)
qed

lemma cas_reach_inv: "cas_reach h e n c s \<Longrightarrow> cas_inv h e n c s"
  by (induction rule: cas_reach.induct) (auto intro: cas_inv_start cas_step_inv)


text \<open>C2: However any number of processes interleave their compare-and-swaps on one path,
  no two are between taking and releasing the lock, and the content is the end of a chain
  of swaps from the initial content, each of which replaced exactly content with the
  digest its process expected: no update is lost.\<close>

theorem cas_linearizable:
  assumes "cas_reach h e n c s"
  shows "swap_chain h e n c (swaps s) (content s)
    \<and> (\<forall>i. has_swapped s i \<longleftrightarrow> i \<in> fst ` set (swaps s))
    \<and> \<not> (\<exists>i j. i \<noteq> j \<and> holds_lock (pcs s i) \<and> holds_lock (pcs s j))"
  using cas_reach_inv [OF assms] by (auto simp: cas_inv_def)

lemma run_one_swap:
  fixes h e n c
  defines "s3 \<equiv> \<lparr>content = Some (n 0), lock_dir = True, pcs = (\<lambda>_. Start)(0 := Unlocking (Swapped (e 0) (h (n 0)))), swaps = [(0, c, n 0)]\<rparr>"
  assumes "map_option h c = e 0"
  shows "cas_reach h e n c s3"
proof -
  let ?s0 = "cas_start c"
  let ?s1 = "?s0\<lparr>pcs := (pcs ?s0)(0 := Locked), lock_dir := True\<rparr>"
  let ?s2 = "?s1\<lparr>pcs := (pcs ?s1)(0 := Compared)\<rparr>"
  have "cas_reach h e n c ?s1"
    by (rule cas_reach.step [OF cas_reach.start cas_step.mkdir]) (simp_all add: cas_start_def)
  then have "cas_reach h e n c ?s2"
    by (rule cas_reach.step [OF _ cas_step.same]) (simp_all add: cas_start_def assms)
  then have "cas_reach h e n c (?s2\<lparr>pcs := (pcs ?s2)(0 := Unlocking (Swapped (e 0) (h (n 0)))),
       content := Some (n 0), swaps := swaps ?s2 @ [(0, content ?s2, n 0)]\<rparr>)"
    by (rule cas_reach.step [OF _ cas_step.replace]) (simp add: cas_start_def)
  then show ?thesis by (simp add: s3_def cas_start_def)
qed

theorem cas_linearizable_witness:
  "\<exists>s. cas_reach id (\<lambda>_. None) (\<lambda>i. ''new'') None s \<and> swaps s = [(0, None, ''new'')]
     \<and> swap_chain id (\<lambda>_. None) (\<lambda>i. ''new'') None (swaps s) (content s)"
proof -
  have r: "cas_reach id (\<lambda>_. None) (\<lambda>i. ''new'') None
     \<lparr>content = Some ''new'', lock_dir = True, pcs = (\<lambda>_. Start)(0 := Unlocking (Swapped None (id ''new''))),
      swaps = [(0, None, ''new'')]\<rparr>"
    using run_one_swap [of id None "\<lambda>_. None" "\<lambda>i. ''new''"] by simp
  from r cas_linearizable [OF r] show ?thesis by (intro exI conjI) (assumption, simp_all)
qed

lemma swap_chain_from:
  "swap_chain h e n c xs c' \<Longrightarrow> (\<forall>i. map_option h (Some (n i)) \<noteq> x) \<Longrightarrow> (\<forall>i. e i = x) \<Longrightarrow> length xs \<le> 1"
  by (cases xs; cases "tl xs") auto

text \<open>Of any number of processes that read the same content and want to replace it by
  something with another digest, at most one compare-and-swap succeeds: the basis of every
  exactly-once decision.\<close>

theorem cas_at_most_one_winner:
  assumes "cas_reach h e n c s"
    and "\<forall>i. e i = seen" "\<forall>i. Some (h (n i)) \<noteq> seen"
    and "has_swapped s i" "has_swapped s j"
  shows "i = j"
proof -
  have inv: "cas_inv h e n c s" by (rule cas_reach_inv [OF assms(1)])
  then have "length (swaps s) \<le> 1"
    using assms(2,3) by (intro swap_chain_from [of h e n c "swaps s" "content s" seen]) (auto simp: cas_inv_def)
  moreover have "i \<in> fst ` set (swaps s)" "j \<in> fst ` set (swaps s)"
    using inv assms(4,5) by (auto simp: cas_inv_def)
  ultimately show ?thesis by (cases "swaps s") auto
qed

theorem cas_at_most_one_winner_witness:
  "\<exists>s. cas_reach id (\<lambda>_. None) (\<lambda>i. ''new'') None s \<and> has_swapped s 0 \<and> \<not> has_swapped s 1"
proof -
  let ?s = "\<lparr>content = Some ''new'', lock_dir = True, pcs = (\<lambda>_. Start)(0 := Unlocking (Swapped None (id ''new''))),
      swaps = [(0, None, ''new'')]\<rparr>"
  have r: "cas_reach id (\<lambda>_. None) (\<lambda>i. ''new'') None ?s"
    using run_one_swap [of id None "\<lambda>_. None" "\<lambda>i. ''new''"] by simp
  have w: "has_swapped ?s 0" by (simp add: has_swapped_def)
  have "\<not> has_swapped ?s 1"
    using cas_at_most_one_winner [OF r, of None 1 0] w by auto
  with r w show ?thesis by blast
qed

end
