(* ===== verification/Events.thy ===== *)
theory Events imports Store begin

text \<open>
  The layout of a repository's durable state (\<open>paths\<close>) and the event journal
  (\<open>emit\<close>), both of src/state.js.
\<close>

record opsle_paths =
  p_opsle :: string
  p_specification :: string
  p_bootstrap :: string
  p_compatibility :: string
  p_hostOwnership :: string
  p_requirements :: string
  p_objective :: string
  p_policy :: string
  p_supervisor :: string
  p_state :: string
  p_eventsLog :: string
  p_decisionsLog :: string
  p_tasks :: string
  p_attempts :: string
  p_claims :: string
  p_events :: string
  p_raw :: string
  p_compact :: string
  p_audit :: string
  p_resumePacket :: string
  p_reconstructionTelemetry :: string
  p_supervisorRouting :: string
  p_runnerRequests :: string

definition paths :: "string \<Rightarrow> opsle_paths" where
  "paths root = \<lparr>
     p_opsle = root @ ''/.opsle'',
     p_specification = root @ ''/.opsle/specification.md'',
     p_bootstrap = root @ ''/.opsle/bootstrap.json'',
     p_compatibility = root @ ''/.opsle/compatibility.json'',
     p_hostOwnership = root @ ''/.opsle/host-ownership.json'',
     p_requirements = root @ ''/.opsle/requirements.json'',
     p_objective = root @ ''/.opsle/objective.json'',
     p_policy = root @ ''/.opsle/policy.json'',
     p_supervisor = root @ ''/.opsle/supervisor.json'',
     p_state = root @ ''/.opsle/state.json'',
     p_eventsLog = root @ ''/.opsle/events.jsonl'',
     p_decisionsLog = root @ ''/.opsle/decisions.jsonl'',
     p_tasks = root @ ''/.opsle/tasks'',
     p_attempts = root @ ''/.opsle/children'',
     p_claims = root @ ''/.opsle/claims'',
     p_events = root @ ''/.opsle/events'',
     p_raw = root @ ''/.opsle/evidence/raw'',
     p_compact = root @ ''/.opsle/evidence/compact'',
     p_audit = root @ ''/.opsle/evidence/repository-audit.json'',
     p_resumePacket = root @ ''/.opsle/resume-packet.json'',
     p_reconstructionTelemetry = root @ ''/.opsle/evidence/reconstruction/telemetry.json'',
     p_supervisorRouting = root @ ''/.opsle/supervisor-routing'',
     p_runnerRequests = root @ ''/.opsle/runner/requests''\<rparr>"

lemma paths_select [simp, path_simps]:
  "p_opsle (paths root) = root @ ''/.opsle''"
  "p_specification (paths root) = root @ ''/.opsle/specification.md''"
  "p_bootstrap (paths root) = root @ ''/.opsle/bootstrap.json''"
  "p_requirements (paths root) = root @ ''/.opsle/requirements.json''"
  "p_objective (paths root) = root @ ''/.opsle/objective.json''"
  "p_policy (paths root) = root @ ''/.opsle/policy.json''"
  "p_supervisor (paths root) = root @ ''/.opsle/supervisor.json''"
  "p_state (paths root) = root @ ''/.opsle/state.json''"
  "p_eventsLog (paths root) = root @ ''/.opsle/events.jsonl''"
  "p_tasks (paths root) = root @ ''/.opsle/tasks''"
  "p_attempts (paths root) = root @ ''/.opsle/children''"
  "p_claims (paths root) = root @ ''/.opsle/claims''"
  "p_events (paths root) = root @ ''/.opsle/events''"
  "p_audit (paths root) = root @ ''/.opsle/evidence/repository-audit.json''"
  "p_supervisorRouting (paths root) = root @ ''/.opsle/supervisor-routing''"
  "p_runnerRequests (paths root) = root @ ''/.opsle/runner/requests''"
  "p_compatibility (paths root) = root @ ''/.opsle/compatibility.json''"
  by (simp_all add: paths_def)

text \<open>\<open>join(directory, `${name}.json`)\<close>\<close>

definition json_in :: "string \<Rightarrow> string \<Rightarrow> string" where
  "json_in d n = d @ ''/'' @ n @ ''.json''"

definition opsle_schema :: string where
  "opsle_schema = ''opsle.durable-supervisor''"

section \<open>The event journal\<close>

definition event_record :: "string \<Rightarrow> string \<Rightarrow> string \<Rightarrow> jv \<Rightarrow> jv \<Rightarrow> jv" where
  "event_record eid ty t supervisor details = jspread (Obj [
     (''schema'', Str (opsle_schema @ ''.event/v1'')),
     (''event_id'', Str eid),
     (''type'', Str ty),
     (''time'', Str t),
     (''actor'', coalesce (jget ''actor'' details) (Str ''durable-supervisor'')),
     (''supervisor_id'', coalesce (jget ''supervisor_id'' supervisor) Null),
     (''supervisor_generation'', coalesce (jget ''generation'' supervisor) Null)]) details"

definition emit :: "string \<Rightarrow> string \<Rightarrow> jv \<Rightarrow> jv wio" where
  "emit root ty details =
     bind_io (readOptional (p_supervisor (paths root))) (\<lambda>supervisor.
     bind_io (id_new ''event'') (\<lambda>eid.
     bind_io now (\<lambda>t.
     (let event = event_record eid ty t supervisor details in
     bind_io (appendEvent (p_eventsLog (paths root)) event) (\<lambda>_.
     bind_io (writeJson (json_in (p_events (paths root)) (js_string (jget ''event_id'' event))) event) (\<lambda>_.
     ret event))))))"

text \<open>The journal log and the event's own file are all that \<open>emit\<close> touches.\<close>

definition journal_path :: "string \<Rightarrow> string \<Rightarrow> bool" where
  "journal_path root p \<longleftrightarrow> p = root @ ''/.opsle/events.jsonl'' \<or> starts_with (root @ ''/.opsle/events/'') p"

lemma starts_with_prefix_append: "starts_with (r @ p) (r @ s) \<longleftrightarrow> starts_with p s"
  by (simp add: starts_with_def)

lemma journal_path_append [simp]:
  "journal_path root (root @ s) \<longleftrightarrow> s = ''/.opsle/events.jsonl'' \<or> starts_with ''/.opsle/events/'' s"
  by (simp add: journal_path_def starts_with_prefix_append)

lemma appendEvent_run [simp]:
  "appendEvent p ev w = (Inr (), put_file p ((case bytes_at w p of None \<Rightarrow> [] | Some b \<Rightarrow> b) @ canonicalJson ev) w)"
  by (simp add: appendEvent_def)

lemma bind_appendEvent [simp, io_simps]:
  "bind_io (appendEvent p ev) f w
    = f () (put_file p ((case bytes_at w p of None \<Rightarrow> [] | Some b \<Rightarrow> b) @ canonicalJson ev) w)"
  by (simp add: bind_io_def)

lemma emit_effect:
  assumes "emit root ty details w = (r, w')"
  shows "\<not> journal_path root p \<Longrightarrow> bytes_at w' p = bytes_at w p"
    and "digest w' = digest w" and "dirs w' = dirs w" and "clock w' = clock w" and "uuids w' = uuids w"
  using assms
  by (auto simp: emit_def bind_readOptional Let_def journal_path_def json_in_def starts_with_def
      split: if_splits sum.splits)

lemma emit_ok:
  assumes "bytes_at w (p_supervisor (paths root)) = None
      \<or> (\<exists>v. parse_object (p_supervisor (paths root)) (bytes_at w (p_supervisor (paths root))) = Inr v)"
  shows "\<exists>ev w'. emit root ty details w = (Inr ev, w')"
  using assms by (auto simp: emit_def bind_readOptional Let_def split: sum.splits)

lemma post_emit [wp]: "post (emit root ty d) w Q \<longleftrightarrow> Q (fst (emit root ty d w)) (snd (emit root ty d w))"
  by (simp add: post_def)

lemma emit_frame [simp]:
  "\<not> journal_path root p \<Longrightarrow> bytes_at (snd (emit root ty d w)) p = bytes_at w p"
  "digest (snd (emit root ty d w)) = digest w" "dirs (snd (emit root ty d w)) = dirs w"
  "clock (snd (emit root ty d w)) = clock w" "uuids (snd (emit root ty d w)) = uuids w"
  using emit_effect [of root ty d w "fst (emit root ty d w)" "snd (emit root ty d w)"] by simp_all

lemma journal_path_json_in [simp]:
  "journal_path root (json_in (root @ s) n) \<longleftrightarrow> s @ ''/'' @ n @ ''.json'' = ''/.opsle/events.jsonl''
     \<or> starts_with ''/.opsle/events/'' (s @ ''/'' @ n @ ''.json'')"
  using journal_path_append [of root "s @ ''/'' @ n @ ''.json''"] by (simp add: json_in_def)

end
