(* ===== verification/Claims.thy ===== *)
theory Claims imports Events begin

text \<open>
  Task claims and their fences (src/pipeline.js): \<open>claimIndexSnapshot\<close>,
  \<open>acquireClaim\<close>, \<open>releaseClaim\<close>. The claim index is one JSON file replaced by
  compare-and-swap; every claim takes the next fence generation from it.
\<close>

definition claim_schema :: string where
  "claim_schema = ''opsle.durable-supervisor.claim/v1''"

definition claim_index_schema :: string where
  "claim_index_schema = ''opsle.durable-supervisor.claim-index/v1''"

definition CLAIM_INDEX_CAS_ATTEMPTS :: nat where
  "CLAIM_INDEX_CAS_ATTEMPTS = 256"

definition empty_index :: jv where
  "empty_index = Obj [(''schema'', Str claim_index_schema), (''next_fence'', Num 1)]"

definition claim_index_path :: "string \<Rightarrow> string" where
  "claim_index_path root = p_claims (paths root) @ ''/index.json''"

text \<open>What the index file holds, and the digest it was read with.\<close>

definition parse_index :: "string \<Rightarrow> string option \<Rightarrow> err + jv" where
  "parse_index p b = (case b of
       None \<Rightarrow> Inr empty_index
     | Some raw \<Rightarrow> (case jparse raw of
         None \<Rightarrow> Inl (Err (''invalid durable JSON '' @ p))
       | Some index \<Rightarrow>
           (if \<not> is_obj index then Inl (Err (''durable JSON must be an object: '' @ p))
            else if jget ''schema'' index \<noteq> Str claim_index_schema \<or> \<not> pos_safe (jget ''next_fence'' index)
              then Inl (Err ''invalid claim index'')
            else Inr index)))"

definition claimIndexSnapshot :: "string \<Rightarrow> (jv \<times> string option) wio" where
  "claimIndexSnapshot p w = (case parse_index p (bytes_at w p) of
       Inl e \<Rightarrow> (Inl e, w)
     | Inr index \<Rightarrow> (Inr (index, map_option (digest w) (bytes_at w p)), w))"

definition exactIndexedClaim :: "jv \<Rightarrow> jv \<Rightarrow> bool" where
  "exactIndexedClaim indexed claim \<longleftrightarrow> list_all (\<lambda>k. strict_eq (jget k indexed) (jget k claim))
     [''schema'', ''task_id'', ''attempt_id'', ''claim_id'', ''fence_generation'',
      ''owner_supervisor_id'', ''owner_generation'', ''status'']"

definition exactClaimIdentity :: "jv \<Rightarrow> jv \<Rightarrow> bool" where
  "exactClaimIdentity left right \<longleftrightarrow> jget ''schema'' left = Str claim_schema
     \<and> list_all (\<lambda>k. strict_eq (jget k right) (jget k left))
     [''schema'', ''claim_id'', ''task_id'', ''attempt_id'', ''owner_supervisor_id'',
      ''owner_generation'', ''fence_generation'']"

section \<open>acquireClaim\<close>

text \<open>The scan of the index for an active claim of the task.\<close>

fun claim_conflict :: "jv \<Rightarrow> jv \<Rightarrow> string list \<Rightarrow> err + unit" where
  "claim_conflict index task_id [] = Inr ()"
| "claim_conflict index task_id (name # names) =
     (let existing = jget name index in
      if nullish existing then Inl TypeErr
      else if strict_eq (jget ''task_id'' existing) task_id \<and> jget ''status'' existing = Str ''ACTIVE''
        then Inl (Err (''claim conflict: '' @ js_string (jget ''claim_id'' existing)))
      else claim_conflict index task_id names)"

definition task_names :: "jv \<Rightarrow> string list" where
  "task_names index = filter (starts_with ''task-'') (keys_of index)"

definition task_key :: "jv \<Rightarrow> string" where
  "task_key task_id = ''task-'' @ js_string task_id"

definition new_claim :: "jv \<Rightarrow> jv \<Rightarrow> jv \<Rightarrow> jv \<Rightarrow> string \<Rightarrow> string \<Rightarrow> string \<Rightarrow> jv" where
  "new_claim supervisor task attemptId fence cid t1 t2 = Obj [
     (''schema'', Str claim_schema),
     (''claim_id'', Str cid),
     (''task_id'', jget ''task_id'' task),
     (''attempt_id'', attemptId),
     (''owner_supervisor_id'', jget ''supervisor_id'' supervisor),
     (''owner_generation'', jget ''generation'' supervisor),
     (''fence_generation'', fence),
     (''status'', Str ''ACTIVE''),
     (''acquired_at'', Str t1),
     (''heartbeat_at'', Str t2),
     (''completed_at'', Null)]"

definition claimed_index :: "jv \<Rightarrow> jv \<Rightarrow> jv \<Rightarrow> jv" where
  "claimed_index index task claim =
     jset (task_key (jget ''task_id'' task)) claim
       (jset ''next_fence'' (Num (int_of (jget ''next_fence'' index) + 1)) index)"

fun acquire_loop :: "nat \<Rightarrow> string \<Rightarrow> jv \<Rightarrow> jv \<Rightarrow> jv \<Rightarrow> jv wio" where
  "acquire_loop 0 root supervisor task attemptId = throw (Err ''claim index contention did not resolve'')"
| "acquire_loop (Suc n) root supervisor task attemptId =
     bind_io (claimIndexSnapshot (claim_index_path root)) (\<lambda>(index, sha).
     bind_io (lift_io (claim_conflict index (jget ''task_id'' task) (task_names index))) (\<lambda>_.
     bind_io (id_new ''claim'') (\<lambda>cid.
     bind_io now (\<lambda>t1.
     bind_io now (\<lambda>t2.
     (let claim = new_claim supervisor task attemptId (jget ''next_fence'' index) cid t1 t2 in
     bind_io (atomicCompareAndSwapJson (claim_index_path root) sha (claimed_index index task claim)) (\<lambda>r.
     (if \<not> is_swapped r then acquire_loop n root supervisor task attemptId
      else
        bind_io (writeJson (json_in (p_claims (paths root)) cid) claim) (\<lambda>_.
        bind_io (emit root ''CLAIM_ACQUIRED'' (Obj [
            (''task_id'', jget ''task_id'' task), (''attempt_id'', attemptId),
            (''claim_id'', Str cid), (''fence_generation'', jget ''fence_generation'' claim)])) (\<lambda>_.
        ret claim))))))))))"

definition acquireClaim :: "string \<Rightarrow> jv \<Rightarrow> jv \<Rightarrow> jv wio" where
  "acquireClaim root task attemptId =
     (let taskPath = json_in (p_tasks (paths root)) (js_string (jget ''task_id'' task));
          stale = Err ''claim acquisition task authority is ambiguous or stale'' in
     bind_io (readJson (p_supervisor (paths root))) (\<lambda>supervisor.
     bind_io (existsSync taskPath) (\<lambda>present.
     guard_io (\<not> is_str attemptId \<or> \<not> truthy attemptId \<or> \<not> present) stale (
     bind_io (readJson taskPath) (\<lambda>durableTask.
     guard_io (canonicalJson durableTask \<noteq> canonicalJson task
         \<or> \<not> strict_eq (jget ''supervisor_id'' task) (jget ''supervisor_id'' supervisor)) stale (
     acquire_loop CLAIM_INDEX_CAS_ATTEMPTS root supervisor task attemptId))))))"

section \<open>releaseClaim\<close>

definition released_claim :: "jv \<Rightarrow> jv \<Rightarrow> string \<Rightarrow> jv" where
  "released_claim current status t = jset ''completed_at'' (Str t) (jset ''status'' status current)"

fun release_loop :: "nat \<Rightarrow> string \<Rightarrow> jv \<Rightarrow> jv \<Rightarrow> jv wio" where
  "release_loop 0 root current status = throw (Err ''claim index contention did not resolve'')"
| "release_loop (Suc n) root current status =
     bind_io (claimIndexSnapshot (claim_index_path root)) (\<lambda>(index, sha).
     (let taskKey = task_key (jget ''task_id'' current); indexed = jget taskKey index in
     guard_io (\<not> exactIndexedClaim indexed current) (Err ''claim index ownership is ambiguous or stale'') (
     guard_io (jget ''status'' indexed \<noteq> Str ''ACTIVE'')
        (Err (''claim index is already terminal: '' @ js_string (jget ''status'' indexed))) (
     bind_io now (\<lambda>t.
     (let released = released_claim current status t in
     bind_io (atomicCompareAndSwapJson (claim_index_path root) sha (jset taskKey released index)) (\<lambda>r.
     (if \<not> is_swapped r then release_loop n root current status
      else bind_io (writeJson (json_in (p_claims (paths root)) (js_string (jget ''claim_id'' current))) released)
        (\<lambda>_. ret released)))))))))"

definition releaseClaim :: "string \<Rightarrow> jv \<Rightarrow> jv \<Rightarrow> jv wio" where
  "releaseClaim root claim status =
     bind_io (lift_io (jdot ''claim_id'' claim)) (\<lambda>cid.
     bind_io (readJson (json_in (p_claims (paths root)) (js_string cid))) (\<lambda>current.
     guard_io (\<not> exactClaimIdentity current (jset ''fence_generation'' (jget ''fence_generation'' current) claim))
       (Err ''claim identity is ambiguous'') (
     guard_io (\<not> strict_eq (jget ''fence_generation'' current) (jget ''fence_generation'' claim))
       (Err ''stale claim fence'') (
     (if jget ''status'' current \<noteq> Str ''ACTIVE'' then
        guard_io (\<not> strict_eq (jget ''status'' current) status)
          (Err (''claim is already terminal: '' @ js_string (jget ''status'' current))) (ret current)
      else release_loop CLAIM_INDEX_CAS_ATTEMPTS root current status)))))"


section \<open>The index after a swap\<close>

lemma parse_index_Inr:
  assumes "parse_index p b = Inr index"
  shows "is_obj index" "jwf index" "jget ''schema'' index = Str claim_index_schema"
    "pos_safe (jget ''next_fence'' index)"
  using assms
  by (auto simp: parse_index_def empty_index_def pos_safe_Num max_safe_def
      split: option.splits if_splits dest: jparse_pure jpure_jwf)

lemma is_obj_claimed_index [simp]: "is_obj (claimed_index index task claim)"
  by (simp add: claimed_index_def)

lemma jwf_new_claim:
  "jwf supervisor \<Longrightarrow> jwf task \<Longrightarrow> jwf attemptId \<Longrightarrow> jwf fence \<Longrightarrow>
    jwf (new_claim supervisor task attemptId fence cid t1 t2)"
  by (simp add: new_claim_def jwf_jget claim_schema_def)

lemma jwf_claimed_index: "jwf index \<Longrightarrow> jwf claim \<Longrightarrow> jwf (claimed_index index task claim)"
  by (simp add: claimed_index_def jwf_jset)

lemma task_key_simps [simp]:
  "task_key v \<noteq> ''schema''" "task_key v \<noteq> ''next_fence''"
  "''schema'' \<noteq> task_key v" "''next_fence'' \<noteq> task_key v"
  "starts_with ''task-'' (task_key v)"
  by (simp_all add: task_key_def starts_with_def)

lemma task_key_Str_inj [simp]: "task_key (Str a) = task_key (Str b) \<longleftrightarrow> a = b"
  by (simp add: task_key_def)

lemma jget_claimed_index:
  assumes "is_obj index"
  shows "jget k (claimed_index index task claim) =
    (if k = task_key (jget ''task_id'' task) then claim
     else if k = ''next_fence'' then Num (int_of (jget ''next_fence'' index) + 1)
     else jget k index)"
  using assms by (auto simp: claimed_index_def)

lemma keys_claimed_index:
  assumes "is_obj index"
  shows "set (keys_of (claimed_index index task claim))
    = insert (task_key (jget ''task_id'' task)) (insert ''next_fence'' (set (keys_of index)))"
  using assms by (simp add: claimed_index_def keys_of_jset)

lemma jget_new_claim [simp]:
  "jget ''schema'' (new_claim sv task att fence cid t1 t2) = Str claim_schema"
  "jget ''claim_id'' (new_claim sv task att fence cid t1 t2) = Str cid"
  "jget ''task_id'' (new_claim sv task att fence cid t1 t2) = jget ''task_id'' task"
  "jget ''attempt_id'' (new_claim sv task att fence cid t1 t2) = att"
  "jget ''owner_supervisor_id'' (new_claim sv task att fence cid t1 t2) = jget ''supervisor_id'' sv"
  "jget ''owner_generation'' (new_claim sv task att fence cid t1 t2) = jget ''generation'' sv"
  "jget ''fence_generation'' (new_claim sv task att fence cid t1 t2) = fence"
  "jget ''status'' (new_claim sv task att fence cid t1 t2) = Str ''ACTIVE''"
  "is_obj (new_claim sv task att fence cid t1 t2)"
  by (simp_all add: new_claim_def)

lemma claim_conflict_Inr:
  "claim_conflict index tid names = Inr () \<longleftrightarrow> (\<forall>name\<in>set names. \<not> nullish (jget name index)
      \<and> \<not> (strict_eq (jget ''task_id'' (jget name index)) tid \<and> jget ''status'' (jget name index) = Str ''ACTIVE''))"
  by (induction names) (auto simp: Let_def)

lemma claim_conflict_Inl:
  assumes "name \<in> set names" "strict_eq (jget ''task_id'' (jget name index)) tid"
    "jget ''status'' (jget name index) = Str ''ACTIVE''"
  shows "\<exists>e. claim_conflict index tid names = Inl e"
  using assms claim_conflict_Inr [of index tid names]
  by (cases "claim_conflict index tid names") auto

text \<open>Reading the index back after a claim was put in it.\<close>

lemma parse_index_claimed:
  assumes "parse_index p b = Inr index" "jwf claim" "int_of (jget ''next_fence'' index) < max_safe"
  shows "parse_index p (Some (canonicalJson (claimed_index index task claim)))
    = Inr (durable (claimed_index index task claim))"
proof -
  note i = parse_index_Inr [OF assms(1)]
  have w: "jwf (claimed_index index task claim)" using i assms(2) by (simp add: jwf_claimed_index)
  have g: "jget k (durable (claimed_index index task claim)) = durable (jget k (claimed_index index task claim))" for k
    using w by (simp add: jget_durable)
  have n: "claimed_index index task claim \<noteq> Undef" by (simp add: claimed_index_def)
  show ?thesis
    using i assms(3) n w by (simp add: parse_index_def jparse_canonicalJson g jget_claimed_index pos_safe_def
        max_safe_def)
qed

lemma parse_index_claimed_exhausted:
  assumes "parse_index p b = Inr index" "jwf claim" "\<not> int_of (jget ''next_fence'' index) < max_safe"
  shows "parse_index p (Some (canonicalJson (claimed_index index task claim))) = Inl (Err ''invalid claim index'')"
proof -
  note i = parse_index_Inr [OF assms(1)]
  have w: "jwf (claimed_index index task claim)" using i assms(2) by (simp add: jwf_claimed_index)
  have g: "jget k (durable (claimed_index index task claim)) = durable (jget k (claimed_index index task claim))" for k
    using w by (simp add: jget_durable)
  have n: "claimed_index index task claim \<noteq> Undef" by (simp add: claimed_index_def)
  show ?thesis
    using i assms(3) n w by (simp add: parse_index_def jparse_canonicalJson g jget_claimed_index pos_safe_def)
qed


section \<open>What acquireClaim does\<close>

lemma snapshot_same_store:
  "same_store w w1 \<Longrightarrow> fst (claimIndexSnapshot p w1) = fst (claimIndexSnapshot p w)"
  by (auto simp: claimIndexSnapshot_def same_store_def split: sum.splits)

lemma snapshot_cases:
  obtains e where "claimIndexSnapshot p w = (Inl e, w)" "parse_index p (bytes_at w p) = Inl e"
  | index where "claimIndexSnapshot p w = (Inr (index, map_option (digest w) (bytes_at w p)), w)"
      "parse_index p (bytes_at w p) = Inr index"
  by (cases "parse_index p (bytes_at w p)") (auto simp: claimIndexSnapshot_def)

definition claim_file :: "string \<Rightarrow> jv \<Rightarrow> string" where
  "claim_file root claim = json_in (p_claims (paths root)) (js_string (jget ''claim_id'' claim))"

text \<open>The state a successful acquisition leaves.\<close>

definition acquired :: "string \<Rightarrow> jv \<Rightarrow> jv \<Rightarrow> jv \<Rightarrow> world \<Rightarrow> jv \<Rightarrow> world \<Rightarrow> bool" where
  "acquired root supervisor task attemptId w claim w' \<longleftrightarrow>
     (\<exists>index cid t1 t2. parse_index (claim_index_path root) (bytes_at w (claim_index_path root)) = Inr index
        \<and> claim_conflict index (jget ''task_id'' task) (task_names index) = Inr ()
        \<and> claim = new_claim supervisor task attemptId (jget ''next_fence'' index) (''claim-'' @ cid) t1 t2
        \<and> bytes_at w' (claim_index_path root) = Some (canonicalJson (claimed_index index task claim))
        \<and> bytes_at w' (claim_file root claim) = Some (canonicalJson claim)
        \<and> digest w' = digest w
        \<and> (\<forall>p. p \<noteq> claim_index_path root \<and> p \<noteq> claim_file root claim \<and> \<not> journal_path root p
             \<longrightarrow> bytes_at w' p = bytes_at w p))"

lemma acquired_same_store: "same_store w w1 \<Longrightarrow> acquired root sv task att w1 claim w' = acquired root sv task att w claim w'"
  by (auto simp: acquired_def same_store_def)

lemma acquire_finish:
  assumes "bind_io (writeJson (json_in (p_claims (paths root)) cid) claim) (\<lambda>_.
        bind_io (emit root ty d) (\<lambda>_. ret claim)) w = (r, w')"
    and "bytes_at w (p_supervisor (paths root)) \<noteq> None"
    and "parse_object (p_supervisor (paths root)) (bytes_at w (p_supervisor (paths root))) = Inr sv"
  shows "r = Inr claim" "digest w' = digest w"
    "bytes_at w' (json_in (p_claims (paths root)) cid) = Some (canonicalJson claim)"
    "p \<noteq> json_in (p_claims (paths root)) cid \<Longrightarrow> \<not> journal_path root p \<Longrightarrow> bytes_at w' p = bytes_at w p"
proof -
  let ?w1 = "put_file (json_in (p_claims (paths root)) cid) (canonicalJson claim) w"
  have "bytes_at ?w1 (p_supervisor (paths root)) = bytes_at w (p_supervisor (paths root))"
    by (simp add: json_in_def)
  then obtain ev w2 where e: "emit root ty d ?w1 = (Inr ev, w2)"
    using emit_ok [of ?w1 root ty d] assms(3) by auto
  with assms(1) have r: "r = Inr claim" "w' = w2" by (auto simp: bind_io_def)
  note eff = emit_effect [OF e]
  from r show "r = Inr claim" by simp
  from r eff(2) show "digest w' = digest w" by simp
  have "\<not> journal_path root (json_in (p_claims (paths root)) cid)" by (simp add: json_in_def starts_with_def)
  from eff(1) [OF this] r show "bytes_at w' (json_in (p_claims (paths root)) cid) = Some (canonicalJson claim)"
    by simp
  show "bytes_at w' p = bytes_at w p"
    if "p \<noteq> json_in (p_claims (paths root)) cid" "\<not> journal_path root p"
    using eff(1) [OF that(2)] r that(1) by simp
qed

lemma acquire_loop_result:
  assumes "acquire_loop n root sv task att w = (r, w')"
    and "parse_object (p_supervisor (paths root)) (bytes_at w (p_supervisor (paths root))) = Inr sv"
  shows "case r of Inl e \<Rightarrow> same_store w w' | Inr claim \<Rightarrow> acquired root sv task att w claim w'"
  using assms
proof (induction n arbitrary: w)
  case 0
  then show ?case by auto
next
  case (Suc n)
  let ?ip = "claim_index_path root" and ?tid = "jget ''task_id'' task"
  show ?case
  proof (cases rule: snapshot_cases [of ?ip w])
    case (1 e)
    from 1(1) Suc.prems(1) have "r = Inl e" "w' = w" by (simp_all add: bind_io_def)
    then show ?thesis by simp
  next
    case (2 index)
    show ?thesis
    proof (cases "claim_conflict index ?tid (task_names index)")
      case (Inl e)
      with 2 Suc.prems show ?thesis by (auto simp: bind_io_def)
    next
      case (Inr u)
      define cid where "cid = ''claim-'' @ uuids w (drawn w)"
      define w1 where "w1 = w\<lparr>drawn := Suc (drawn w), ticks := Suc (Suc (ticks w))\<rparr>"
      define claim where "claim = new_claim sv task att (jget ''next_fence'' index) cid
          (clock w (ticks w)) (clock w (Suc (ticks w)))"
      have s: "same_store w w1" by (simp add: w1_def)
      let ?v = "claimed_index index task claim" and ?e = "map_option (digest w) (bytes_at w ?ip)"
      have run: "acquire_loop (Suc n) root sv task att w =
         bind_io (atomicCompareAndSwapJson ?ip ?e ?v) (\<lambda>r.
           if \<not> is_swapped r then acquire_loop n root sv task att
           else bind_io (writeJson (json_in (p_claims (paths root)) cid) claim) (\<lambda>_.
             bind_io (emit root ''CLAIM_ACQUIRED'' (Obj [(''task_id'', ?tid), (''attempt_id'', att),
               (''claim_id'', Str cid), (''fence_generation'', jget ''fence_generation'' claim)])) (\<lambda>_. ret claim))) w1"
        using 2(1) Inr by (simp add: bind_io_def [of "claimIndexSnapshot _"] bind_io_def [of "lift_io _"]
            Let_def w1_def claim_def cid_def cong: if_cong)
      show ?thesis
      proof (cases rule: cas_json_cases [of ?ip ?e ?v w1])
        case swapped
        let ?w2 = "put_file ?ip (canonicalJson ?v) w1"
        have sup: "parse_object (p_supervisor (paths root)) (bytes_at ?w2 (p_supervisor (paths root))) = Inr sv"
          using Suc.prems(2) s by (simp add: claim_index_path_def same_store_def)
        have ne: "bytes_at ?w2 (p_supervisor (paths root)) \<noteq> None"
          by (rule parse_object_present [OF sup])
        have fin: "bind_io (writeJson (json_in (p_claims (paths root)) cid) claim) (\<lambda>_.
             bind_io (emit root ''CLAIM_ACQUIRED'' (Obj [(''task_id'', ?tid), (''attempt_id'', att),
               (''claim_id'', Str cid), (''fence_generation'', jget ''fence_generation'' claim)])) (\<lambda>_. ret claim)) ?w2 = (r, w')"
          using Suc.prems(1) unfolding run by (simp add: bind_io_def [of "atomicCompareAndSwapJson _ _ _"] swapped(1))
        note f = acquire_finish [OF fin ne sup]
        have cf: "claim_file root claim = json_in (p_claims (paths root)) cid"
          by (simp add: claim_file_def claim_def)
        have "bytes_at w' ?ip = Some (canonicalJson ?v)"
          by (subst f(4)) (simp_all add: claim_index_path_def json_in_def starts_with_def cid_def)
        moreover have "bytes_at w' p = bytes_at w p"
          if "p \<noteq> ?ip" "p \<noteq> json_in (p_claims (paths root)) cid" "\<not> journal_path root p" for p
          using f(4) [of p] that s by (simp add: same_store_def)
        moreover have "digest w' = digest w" using f(2) s by (simp add: same_store_def)
        moreover have "claim = new_claim sv task att (jget ''next_fence'' index)
            (''claim-'' @ uuids w (drawn w)) (clock w (ticks w)) (clock w (Suc (ticks w)))"
          unfolding claim_def cid_def by (rule refl)
        moreover have "bytes_at w' (json_in (p_claims (paths root)) cid) = Some (canonicalJson claim)"
          by (rule f(3))
        ultimately have "acquired root sv task att w claim w'"
          unfolding acquired_def cf using 2(2) Inr by (intro exI conjI) auto
        with f(1) show ?thesis by simp
      next
        case busy
        then have "acquire_loop n root sv task att w1 = (r, w')"
          using Suc.prems(1) unfolding run by (simp add: bind_io_def)
        with Suc.IH [OF this] Suc.prems(2) s show ?thesis
          by (auto simp: same_store_def acquired_def split: sum.splits)
      next
        case changed
        then have "acquire_loop n root sv task att w1 = (r, w')"
          using Suc.prems(1) unfolding run by (simp add: bind_io_def)
        with Suc.IH [OF this] Suc.prems(2) s show ?thesis
          by (auto simp: same_store_def acquired_def split: sum.splits)
      qed
    qed
  qed
qed


lemma acquireClaim_result:
  assumes "acquireClaim root task att w = (r, w')"
  shows "case r of Inl e \<Rightarrow> same_store w w'
    | Inr claim \<Rightarrow> \<exists>sv. parse_object (p_supervisor (paths root)) (bytes_at w (p_supervisor (paths root))) = Inr sv
        \<and> is_str att \<and> strict_eq (jget ''supervisor_id'' task) (jget ''supervisor_id'' sv)
        \<and> acquired root sv task att w claim w'"
proof (cases "parse_object (p_supervisor (paths root)) (bytes_at w (p_supervisor (paths root)))")
  case (Inl e)
  with assms have "r = Inl e" "w' = w" by (simp_all add: acquireClaim_def Let_def bind_io_def)
  then show ?thesis by simp
next
  case (Inr sv)
  let ?tp = "json_in (p_tasks (paths root)) (js_string (jget ''task_id'' task))"
  show ?thesis
  proof (cases "\<exists>dt. is_str att \<and> truthy att \<and> bytes_at w ?tp \<noteq> None \<and> parse_object ?tp (bytes_at w ?tp) = Inr dt
      \<and> canonicalJson dt = canonicalJson task \<and> strict_eq (jget ''supervisor_id'' task) (jget ''supervisor_id'' sv)")
    case True
    with Inr assms have "acquire_loop CLAIM_INDEX_CAS_ATTEMPTS root sv task att w = (r, w')"
      by (auto simp: acquireClaim_def Let_def bind_readJson)
    from acquire_loop_result [OF this Inr] True Inr show ?thesis by (auto split: sum.splits)
  next
    case False
    with Inr assms have "(\<exists>e. r = Inl e) \<and> w' = w"
      by (auto simp: acquireClaim_def Let_def bind_readJson guard_io_def split: if_splits sum.splits) metis
    then show ?thesis by auto
  qed
qed

end
