(* ===== verification/ClaimLaws.thy ===== *)
theory ClaimLaws imports Claims begin

text \<open>
  What a caller of \<open>acquireClaim\<close> and \<open>releaseClaim\<close> (src/pipeline.js) may rely on: the
  fence a claim carries, the index it leaves, exclusion of a second claim of the task,
  and release as the only way to free it.
\<close>

text \<open>The index as the next snapshot will read it.\<close>

definition index_of :: "string \<Rightarrow> world \<Rightarrow> err + jv" where
  "index_of root w = parse_index (claim_index_path root) (bytes_at w (claim_index_path root))"

lemma index_after_acquired:
  assumes "acquired root sv task att w claim w'" "index_of root w = Inr index"
    and "jwf sv" "jwf task" "jwf att" "int_of (jget ''next_fence'' index) < max_safe"
  shows "index_of root w' = Inr (durable (claimed_index index task claim))"
    "jget ''fence_generation'' claim = jget ''next_fence'' index"
    "jwf claim" "is_obj index" "jwf index"
proof -
  from assms(1,2) obtain cid t1 t2 where
    c: "claim = new_claim sv task att (jget ''next_fence'' index) cid t1 t2"
    and b: "bytes_at w' (claim_index_path root) = Some (canonicalJson (claimed_index index task claim))"
    by (auto simp: acquired_def index_of_def)
  note i = parse_index_Inr [OF assms(2) [unfolded index_of_def]]
  show wf: "jwf claim" unfolding c by (intro jwf_new_claim assms jwf_jget i)
  from i show "is_obj index" "jwf index" by simp_all
  from c show "jget ''fence_generation'' claim = jget ''next_fence'' index" by simp
  show "index_of root w' = Inr (durable (claimed_index index task claim))"
    using parse_index_claimed [OF assms(2) [unfolded index_of_def] wf assms(6)] b
    by (simp add: index_of_def)
qed

lemma acquired_fields:
  assumes "acquired root sv task att w claim w'"
  shows "jget ''status'' claim = Str ''ACTIVE''" "jget ''task_id'' claim = jget ''task_id'' task"
    "jget ''attempt_id'' claim = att" "jget ''owner_generation'' claim = jget ''generation'' sv"
    "is_obj claim" "bytes_at w' (claim_file root claim) = Some (canonicalJson claim)"
    "\<forall>p. p \<noteq> claim_index_path root \<and> p \<noteq> claim_file root claim \<and> \<not> journal_path root p
          \<longrightarrow> bytes_at w' p = bytes_at w p"
  using assms by (auto simp: acquired_def)

text \<open>C3: A claim acquireClaim returns is ACTIVE, belongs to the task and attempt it was
  asked for and to the supervisor generation on disk, and carries the fence the index held;
  the index then holds the claim under its task and the next fence, and the claim's own
  file reads back as the claim. Every other file but the event journal is unchanged.\<close>

theorem acquireClaim_grants:
  assumes "acquireClaim root task att w = (Inr claim, w')" "index_of root w = Inr index"
    and "jget ''next_fence'' index = Num n" "n < max_safe" "jwf task" "jwf att"
  shows "\<exists>sv index'. parse_object (p_supervisor (paths root)) (bytes_at w (p_supervisor (paths root))) = Inr sv
    \<and> jget ''status'' claim = Str ''ACTIVE'' \<and> jget ''task_id'' claim = jget ''task_id'' task
    \<and> jget ''attempt_id'' claim = att \<and> jget ''fence_generation'' claim = Num n
    \<and> jget ''owner_generation'' claim = jget ''generation'' sv
    \<and> index_of root w' = Inr index' \<and> jget ''next_fence'' index' = Num (n + 1)
    \<and> jget (task_key (jget ''task_id'' task)) index' = durable claim
    \<and> parse_object (claim_file root claim) (bytes_at w' (claim_file root claim)) = Inr (durable claim)
    \<and> (\<forall>p. p \<noteq> claim_index_path root \<and> p \<noteq> claim_file root claim \<and> \<not> journal_path root p
          \<longrightarrow> bytes_at w' p = bytes_at w p)"
proof -
  from acquireClaim_result [OF assms(1)] obtain sv where
    sv: "parse_object (p_supervisor (paths root)) (bytes_at w (p_supervisor (paths root))) = Inr sv"
    and acq: "acquired root sv task att w claim w'" by auto
  have fresh: "int_of (jget ''next_fence'' index) < max_safe" using assms(3,4) by simp
  note ix = index_after_acquired [OF acq assms(2) parse_object_jwf [OF sv] assms(5,6) fresh]
  note f = acquired_fields [OF acq]
  have w: "jwf (claimed_index index task claim)" by (rule jwf_claimed_index [OF ix(5,3)])
  have g: "jget k (durable (claimed_index index task claim)) = durable (jget k (claimed_index index task claim))" for k
    using w by (simp add: jget_durable)
  have readback: "parse_object (claim_file root claim) (bytes_at w' (claim_file root claim)) = Inr (durable claim)"
    using f(5,6) ix(3) by simp
  show ?thesis
    using sv ix(1,2,4) readback f assms(3)
    by (intro exI [of _ sv] exI [of _ "durable (claimed_index index task claim)"])
      (simp add: g jget_claimed_index)
qed


text \<open>C4: While the index holds an ACTIVE claim of a task, no process acquires another one:
  the attempt throws and writes no file, whatever the attempt id.\<close>

theorem acquireClaim_exclusive:
  assumes "index_of root w = Inr index" "key \<in> set (task_names index)"
    and "strict_eq (jget ''task_id'' (jget key index)) (jget ''task_id'' task)"
    and "jget ''status'' (jget key index) = Str ''ACTIVE''"
  shows "\<exists>e. fst (acquireClaim root task att w) = Inl e
    \<and> bytes_at (snd (acquireClaim root task att w)) = bytes_at w"
proof -
  obtain r w' where run: "acquireClaim root task att w = (r, w')" by fastforce
  have "\<exists>e. claim_conflict index (jget ''task_id'' task) (task_names index) = Inl e"
    by (rule claim_conflict_Inl [OF assms(2-4)])
  then have "\<not> acquired root sv task att w claim w'" for sv claim
    using assms(1) by (auto simp: acquired_def index_of_def)
  with acquireClaim_result [OF run] show ?thesis
    by (cases r) (auto simp: run same_store_def)
qed


section \<open>releaseClaim\<close>

text \<open>The state a release that went through the index leaves.\<close>

definition released :: "string \<Rightarrow> jv \<Rightarrow> jv \<Rightarrow> world \<Rightarrow> jv \<Rightarrow> world \<Rightarrow> bool" where
  "released root current status w rel w' \<longleftrightarrow>
     (\<exists>index t. index_of root w = Inr index
        \<and> exactIndexedClaim (jget (task_key (jget ''task_id'' current)) index) current
        \<and> jget ''status'' (jget (task_key (jget ''task_id'' current)) index) = Str ''ACTIVE''
        \<and> rel = released_claim current status t
        \<and> bytes_at w' (claim_index_path root)
            = Some (canonicalJson (jset (task_key (jget ''task_id'' current)) rel index))
        \<and> bytes_at w' (claim_file root current) = Some (canonicalJson rel)
        \<and> (\<forall>p. p \<noteq> claim_index_path root \<and> p \<noteq> claim_file root current \<longrightarrow> bytes_at w' p = bytes_at w p))"

lemma released_same_store: "same_store w w1 \<Longrightarrow> released root c st w1 rel w' = released root c st w rel w'"
  by (auto simp: released_def same_store_def index_of_def)

lemma release_loop_result:
  assumes "release_loop n root current status w = (r, w')"
    and "claim_file root current \<noteq> claim_index_path root"
  shows "case r of Inl e \<Rightarrow> same_store w w' | Inr rel \<Rightarrow> released root current status w rel w'"
  using assms(1)
proof (induction n arbitrary: w)
  case 0
  then show ?case by auto
next
  case (Suc n)
  let ?ip = "claim_index_path root" and ?k = "task_key (jget ''task_id'' current)"
  show ?case
  proof (cases rule: snapshot_cases [of ?ip w])
    case (1 e)
    from 1(1) Suc.prems have "r = Inl e" "w' = w" by (simp_all add: bind_io_def)
    then show ?thesis by simp
  next
    case (2 index)
    show ?thesis
    proof (cases "exactIndexedClaim (jget ?k index) current \<and> jget ''status'' (jget ?k index) = Str ''ACTIVE''")
      case False
      with 2 Suc.prems have "(\<exists>e. r = Inl e) \<and> w' = w"
        by (auto simp: bind_io_def Let_def guard_io_def split: if_splits)
      then show ?thesis by auto
    next
      case True
      define w1 where "w1 = w\<lparr>ticks := Suc (ticks w)\<rparr>"
      define rel where "rel = released_claim current status (clock w (ticks w))"
      have s: "same_store w w1" by (simp add: w1_def)
      let ?v = "jset ?k rel index" and ?e = "map_option (digest w) (bytes_at w ?ip)"
      have run: "release_loop (Suc n) root current status w =
         bind_io (atomicCompareAndSwapJson ?ip ?e ?v) (\<lambda>r.
           if \<not> is_swapped r then release_loop n root current status
           else bind_io (writeJson (claim_file root current) rel) (\<lambda>_. ret rel)) w1"
        using 2(1) True by (simp add: bind_io_def [of "claimIndexSnapshot _"]
            Let_def w1_def rel_def claim_file_def cong: if_cong)
      show ?thesis
      proof (cases rule: cas_json_cases [of ?ip ?e ?v w1])
        case swapped
        with Suc.prems have "r = Inr rel"
          "w' = put_file (claim_file root current) (canonicalJson rel) (put_file ?ip (canonicalJson ?v) w1)"
          unfolding run by (simp_all add: bind_io_def [of "atomicCompareAndSwapJson _ _ _"])
        moreover from this have "released root current status w rel w'"
          unfolding released_def using 2(2) True assms(2) s
          by (intro exI [of _ index] exI [of _ "clock w (ticks w)"])
            (simp add: index_of_def rel_def same_store_def)
        ultimately show ?thesis by simp
      next
        case busy
        then have "release_loop n root current status w1 = (r, w')"
          using Suc.prems unfolding run by (simp add: bind_io_def)
        with Suc.IH [OF this] s show ?thesis
          by (auto simp: released_same_store intro: same_store_trans split: sum.splits)
      next
        case changed
        then have "release_loop n root current status w1 = (r, w')"
          using Suc.prems unfolding run by (simp add: bind_io_def)
        with Suc.IH [OF this] s show ?thesis
          by (auto simp: released_same_store intro: same_store_trans split: sum.splits)
      qed
    qed
  qed
qed

text \<open>The claim file a caller names, and the four ways releaseClaim ends.\<close>

definition claim_on_disk :: "string \<Rightarrow> jv \<Rightarrow> world \<Rightarrow> err + jv" where
  "claim_on_disk root claim w = parse_object (claim_file root claim) (bytes_at w (claim_file root claim))"

definition identity_but_fence :: "jv \<Rightarrow> jv \<Rightarrow> bool" where
  "identity_but_fence current claim
     = exactClaimIdentity current (jset ''fence_generation'' (jget ''fence_generation'' current) claim)"

lemma releaseClaim_cases:
  assumes "is_obj claim" "claim_on_disk root claim w = Inr current"
  shows "releaseClaim root claim status w =
    (if \<not> identity_but_fence current claim then (Inl (Err ''claim identity is ambiguous''), w)
     else if \<not> strict_eq (jget ''fence_generation'' current) (jget ''fence_generation'' claim)
       then (Inl (Err ''stale claim fence''), w)
     else if jget ''status'' current = Str ''ACTIVE''
       then release_loop CLAIM_INDEX_CAS_ATTEMPTS root current status w
     else if strict_eq (jget ''status'' current) status then (Inr current, w)
     else (Inl (Err (''claim is already terminal: '' @ js_string (jget ''status'' current))), w))"
proof -
  have "\<not> nullish claim" using assms(1) by (cases claim) auto
  then have "jdot ''claim_id'' claim = Inr (jget ''claim_id'' claim)" by (simp add: jdot_def)
  with assms(2) show ?thesis
    by (simp add: releaseClaim_def bind_io_def [of "lift_io _"] bind_readJson claim_on_disk_def claim_file_def
        identity_but_fence_def del: release_loop.simps)
qed


lemma released_claim_fields [simp]:
  "is_obj c \<Longrightarrow> jget k (released_claim c st t) =
     (if k = ''completed_at'' then Str t else if k = ''status'' then st else jget k c)"
  "is_obj (released_claim c st t)"
  by (auto simp: released_claim_def)

lemma jwf_released_claim: "jwf c \<Longrightarrow> jwf st \<Longrightarrow> jwf (released_claim c st t)"
  by (simp add: released_claim_def jwf_jset)

lemma parse_index_released:
  assumes "parse_index p b = Inr index" "jwf rel"
  shows "parse_index p (Some (canonicalJson (jset (task_key tid) rel index)))
    = Inr (durable (jset (task_key tid) rel index))"
proof -
  note i = parse_index_Inr [OF assms(1)]
  have w: "jwf (jset (task_key tid) rel index)" by (intro jwf_jset assms(2) i)
  have g: "jget k (durable (jset (task_key tid) rel index)) = durable (jget k (jset (task_key tid) rel index))" for k
    using w by (simp add: jget_durable)
  from i(4) obtain n where n: "jget ''next_fence'' index = Num n" "pos_safe (Num n)"
    by (metis pos_safeE)
  show ?thesis
    using i w n by (simp add: parse_index_def jparse_canonicalJson g)
qed

text \<open>A caller that presents a claim whose fence is no longer the one on disk is refused
  with the stale-fence error and nothing is written.\<close>

theorem releaseClaim_stale_fence:
  assumes "is_obj claim" "claim_on_disk root claim w = Inr current" "identity_but_fence current claim"
    and "\<not> strict_eq (jget ''fence_generation'' current) (jget ''fence_generation'' claim)"
  shows "releaseClaim root claim status w = (Inl (Err ''stale claim fence''), w)"
  using releaseClaim_cases [OF assms(1,2)] assms(3,4) by simp

lemma releaseClaim_result:
  assumes "releaseClaim root claim status w = (r, w')" "is_obj claim"
    and "claim_on_disk root claim w = Inr current"
    and "jget ''claim_id'' claim = Str cid" "cid \<noteq> ''index''"
  shows "case r of Inl e \<Rightarrow> same_store w w'
    | Inr rel \<Rightarrow> identity_but_fence current claim \<and> strict_eq (jget ''fence_generation'' current) (jget ''fence_generation'' claim)
       \<and> (if jget ''status'' current = Str ''ACTIVE'' then released root current status w rel w'
          else strict_eq (jget ''status'' current) status \<and> rel = current \<and> w' = w)"
proof (cases "identity_but_fence current claim \<and> strict_eq (jget ''fence_generation'' current) (jget ''fence_generation'' claim)
    \<and> jget ''status'' current = Str ''ACTIVE''")
  case True
  then have "release_loop CLAIM_INDEX_CAS_ATTEMPTS root current status w = (r, w')"
    using assms(1) releaseClaim_cases [OF assms(2,3)] by simp
  moreover from True assms(2,4) have "jget ''claim_id'' current = Str cid"
    by (auto simp: identity_but_fence_def exactClaimIdentity_def)
  then have "claim_file root current \<noteq> claim_index_path root"
    using assms(5) by (simp add: claim_file_def claim_index_path_def json_in_def)
  ultimately show ?thesis using release_loop_result True by (fastforce split: sum.splits)
next
  case False
  with assms(1) releaseClaim_cases [OF assms(2,3)] show ?thesis
    by (auto split: if_splits)
qed

text \<open>C5: When releaseClaim returns on a claim that was ACTIVE, the indexed claim was exactly
  the claim on disk, the task's index entry and the claim file both become the same terminal
  record, the next fence is kept, and no other file changes.\<close>

theorem releaseClaim_frees:
  assumes "releaseClaim root claim status w = (Inr rel, w')" "is_obj claim"
    and "claim_on_disk root claim w = Inr current" "jget ''status'' current = Str ''ACTIVE''"
    and "jget ''claim_id'' claim = Str cid" "cid \<noteq> ''index''" "jwf status"
  shows "\<exists>index index'. index_of root w = Inr index \<and> index_of root w' = Inr index'
    \<and> exactIndexedClaim (jget (task_key (jget ''task_id'' current)) index) current
    \<and> jget ''status'' rel = status
    \<and> jget (task_key (jget ''task_id'' current)) index' = durable rel
    \<and> claim_on_disk root current w' = Inr (durable rel)
    \<and> jget ''next_fence'' index' = jget ''next_fence'' index
    \<and> (\<forall>p. p \<noteq> claim_index_path root \<and> p \<noteq> claim_file root current \<longrightarrow> bytes_at w' p = bytes_at w p)"
proof -
  from releaseClaim_result [OF assms(1,2,3,5,6)] assms(4) have rel: "released root current status w rel w'"
    by simp
  then obtain index t where ix: "index_of root w = Inr index" and r: "rel = released_claim current status t"
    by (auto simp: released_def)
  have cur: "is_obj current" "jwf current"
    using assms(3) by (auto simp: claim_on_disk_def dest: parse_object_obj parse_object_jwf)
  have wf: "jwf rel" unfolding r by (intro jwf_released_claim cur assms(7))
  note i = parse_index_Inr [OF ix [unfolded index_of_def]]
  obtain n where n: "jget ''next_fence'' index = Num n" using i(4) by (metis pos_safeE)
  let ?v = "jset (task_key (jget ''task_id'' current)) rel index"
  have g: "jget k (durable ?v) = durable (jget k ?v)" for k
    using wf i(2) by (simp add: jget_durable jwf_jset)
  have "index_of root w' = Inr (durable ?v)"
    using parse_index_released [OF ix [unfolded index_of_def] wf] rel ix by (auto simp: index_of_def released_def)
  moreover have "claim_on_disk root current w' = Inr (durable rel)"
    using rel wf cur by (auto simp: claim_on_disk_def released_def)
  moreover have "jget ''status'' rel = status" unfolding r using cur by simp
  moreover have "jget (task_key (jget ''task_id'' current)) (durable ?v) = durable rel"
    "jget ''next_fence'' (durable ?v) = Num n"
    using i(1) n by (simp_all add: g)
  moreover have "exactIndexedClaim (jget (task_key (jget ''task_id'' current)) index) current"
    "\<forall>p. p \<noteq> claim_index_path root \<and> p \<noteq> claim_file root current \<longrightarrow> bytes_at w' p = bytes_at w p"
    using rel ix by (auto simp: released_def)
  ultimately show ?thesis using ix n by metis
qed

text \<open>Releasing an already terminal claim again with the same status returns the record
  on disk and changes nothing; with another status it throws and changes nothing.\<close>

theorem releaseClaim_terminal:
  assumes "is_obj claim" "claim_on_disk root claim w = Inr current" "identity_but_fence current claim"
    and "strict_eq (jget ''fence_generation'' current) (jget ''fence_generation'' claim)"
    and "jget ''status'' current \<noteq> Str ''ACTIVE''"
  shows "snd (releaseClaim root claim status w) = w
    \<and> (fst (releaseClaim root claim status w) = Inr current \<longleftrightarrow> strict_eq (jget ''status'' current) status)"
  using releaseClaim_cases [OF assms(1,2)] assms(3-5) by simp


section \<open>Progress\<close>

text \<open>Without contention the first iteration of either loop is the last.\<close>

lemma acquire_loop_uncontended:
  assumes "index_of root w = Inr index"
    and "claim_conflict index (jget ''task_id'' task) (task_names index) = Inr ()"
    and "cas_lock (claim_index_path root) \<notin> set (dirs w)"
    and "parse_object (p_supervisor (paths root)) (bytes_at w (p_supervisor (paths root))) = Inr sv"
    and "0 < n"
  shows "\<exists>w'. acquire_loop n root sv task att w = (Inr (new_claim sv task att (jget ''next_fence'' index)
     (''claim-'' @ uuids w (drawn w)) (clock w (ticks w)) (clock w (Suc (ticks w)))), w')
     \<and> dirs w' = dirs w \<and> clock w' = clock w"
proof -
  obtain m where m: "n = Suc m" using assms(5) by (cases n) auto
  define cid where "cid = ''claim-'' @ uuids w (drawn w)"
  define claim where "claim = new_claim sv task att (jget ''next_fence'' index) cid
      (clock w (ticks w)) (clock w (Suc (ticks w)))"
  let ?w1 = "w\<lparr>drawn := Suc (drawn w), ticks := Suc (Suc (ticks w))\<rparr>"
  let ?ip = "claim_index_path root"
  let ?w2 = "put_file ?ip (canonicalJson (claimed_index index task claim)) ?w1"
  let ?w3 = "put_file (json_in (p_claims (paths root)) cid) (canonicalJson claim) ?w2"
  have snap: "claimIndexSnapshot ?ip w = (Inr (index, map_option (digest w) (bytes_at w ?ip)), w)"
    using assms(1) by (simp add: claimIndexSnapshot_def index_of_def)
  have "parse_object (p_supervisor (paths root)) (bytes_at ?w3 (p_supervisor (paths root))) = Inr sv"
    using assms(4) by (simp add: claim_index_path_def json_in_def)
  then obtain ev w' where e: "emit root ''CLAIM_ACQUIRED'' (Obj [(''task_id'', jget ''task_id'' task), (''attempt_id'', att),
         (''claim_id'', Str cid), (''fence_generation'', jget ''fence_generation'' claim)]) ?w3 = (Inr ev, w')"
    using emit_ok parse_object_present by blast
  have "acquire_loop n root sv task att w = (Inr claim, w')"
    using snap assms(2,3) e unfolding m claim_def cid_def
    by (simp add: bind_io_def [of "claimIndexSnapshot _"] bind_io_def [of "lift_io _"]
        bind_io_def [of "atomicCompareAndSwapJson _ _ _"] bind_io_def [of "emit _ _ _"]
        atomicCompareAndSwapJson_def Let_def cong: if_cong)
  moreover have "dirs w' = dirs w" "clock w' = clock w"
    using emit_effect(3,4) [OF e] by simp_all
  ultimately show ?thesis unfolding claim_def cid_def by blast
qed

lemma release_loop_uncontended:
  assumes "index_of root w = Inr index"
    and "exactIndexedClaim (jget (task_key (jget ''task_id'' current)) index) current"
    and "jget ''status'' (jget (task_key (jget ''task_id'' current)) index) = Str ''ACTIVE''"
    and "cas_lock (claim_index_path root) \<notin> set (dirs w)" "0 < n"
  shows "\<exists>w'. release_loop n root current status w = (Inr (released_claim current status (clock w (ticks w))), w')"
proof -
  obtain m where m: "n = Suc m" using assms(5) by (cases n) auto
  have "claimIndexSnapshot (claim_index_path root) w
      = (Inr (index, map_option (digest w) (bytes_at w (claim_index_path root))), w)"
    using assms(1) by (simp add: claimIndexSnapshot_def index_of_def)
  with assms(2-4) show ?thesis unfolding m
    by (simp add: bind_io_def [of "claimIndexSnapshot _"] bind_io_def [of "atomicCompareAndSwapJson _ _ _"]
        atomicCompareAndSwapJson_def Let_def cong: if_cong)
qed

text \<open>C6: When the task file is the task the caller holds, the supervisor on disk owns it, the
  index is readable, no claim of the task is ACTIVE and nobody holds the index's lock,
  acquireClaim returns a claim with the fence of the index.\<close>

theorem acquireClaim_progress:
  assumes "parse_object (p_supervisor (paths root)) (bytes_at w (p_supervisor (paths root))) = Inr sv"
    and "parse_object (json_in (p_tasks (paths root)) tid) (bytes_at w (json_in (p_tasks (paths root)) tid)) = Inr dt"
    and "jget ''task_id'' task = Str tid" "canonicalJson dt = canonicalJson task"
    and "strict_eq (jget ''supervisor_id'' task) (jget ''supervisor_id'' sv)"
    and "att = Str (a # as)" "index_of root w = Inr index"
    and "claim_conflict index (Str tid) (task_names index) = Inr ()"
    and "cas_lock (claim_index_path root) \<notin> set (dirs w)"
  shows "\<exists>claim w'. acquireClaim root task att w = (Inr claim, w')
    \<and> jget ''fence_generation'' claim = jget ''next_fence'' index"
proof -
  have "claim_conflict index (jget ''task_id'' task) (task_names index) = Inr ()" using assms(3,8) by simp
  from acquire_loop_uncontended [OF assms(7) this assms(9,1), of CLAIM_INDEX_CAS_ATTEMPTS att]
  obtain w' cid t1 t2 where "acquire_loop CLAIM_INDEX_CAS_ATTEMPTS root sv task att w
      = (Inr (new_claim sv task att (jget ''next_fence'' index) cid t1 t2), w')"
    by (auto simp: CLAIM_INDEX_CAS_ATTEMPTS_def)
  moreover have "bytes_at w (json_in (p_tasks (paths root)) tid) \<noteq> None"
    by (rule parse_object_present [OF assms(2)])
  ultimately show ?thesis
    using assms(1-6) by (simp add: acquireClaim_def Let_def bind_readJson)
qed

section \<open>Witnesses\<close>

definition demo_supervisor :: jv where
  "demo_supervisor = Obj [(''supervisor_id'', Str ''sup-1''), (''generation'', Num 1)]"

definition demo_task :: jv where
  "demo_task = Obj [(''task_id'', Str ''t1''), (''supervisor_id'', Str ''sup-1'')]"

definition demo_world :: world where
  "demo_world = \<lparr>files = [(''/.opsle/supervisor.json'', canonicalJson demo_supervisor),
       (''/.opsle/tasks/t1.json'', canonicalJson demo_task)],
     dirs = [], clock = (\<lambda>n. ''T''), ticks = 0, uuids = nat_str, drawn = 0, digest = id\<rparr>"

definition demo_claimed :: world where
  "demo_claimed = snd (acquireClaim [] demo_task (Str ''a1'') demo_world)"

definition demo_claim :: jv where
  "demo_claim = new_claim demo_supervisor demo_task (Str ''a1'') (Num 1) ''claim-0'' ''T'' ''T''"

lemma demo_jwf: "jwf demo_task" "jwf (Str ''a1'')" "is_obj demo_claim" "jwf demo_claim" "jwf demo_supervisor"
  by code_simp+

lemma demo_files:
  "parse_object (p_supervisor (paths [])) (bytes_at demo_world (p_supervisor (paths []))) = Inr (durable demo_supervisor)"
  "parse_object (json_in (p_tasks (paths [])) ''t1'') (bytes_at demo_world (json_in (p_tasks (paths [])) ''t1'')) = Inr (durable demo_task)"
  "index_of [] demo_world = Inr empty_index" "jget ''task_id'' demo_task = Str ''t1''"
  "claim_conflict empty_index (Str ''t1'') (task_names empty_index) = Inr ()"
  "cas_lock (claim_index_path []) \<notin> set (dirs demo_world)"
  "strict_eq (jget ''supervisor_id'' demo_task) (jget ''supervisor_id'' (durable demo_supervisor))"
  "canonicalJson (durable demo_task) = canonicalJson demo_task"
  by (simp add: demo_world_def bytes_at_def json_in_def demo_jwf demo_supervisor_def demo_task_def,
      simp add: demo_world_def bytes_at_def json_in_def demo_jwf demo_task_def,
      simp add: demo_world_def bytes_at_def index_of_def claim_index_path_def parse_index_def,
      code_simp+)

lemma demo_new_claim:
  "new_claim (durable demo_supervisor) demo_task (Str ''a1'') (jget ''next_fence'' empty_index)
     (''claim-'' @ uuids demo_world (drawn demo_world)) (clock demo_world (ticks demo_world))
     (clock demo_world (Suc (ticks demo_world))) = demo_claim"
  by code_simp

lemma demo_acquire:
  "acquireClaim [] demo_task (Str ''a1'') demo_world = (Inr demo_claim, demo_claimed)"
  "dirs demo_claimed = []" "clock demo_claimed = (\<lambda>n. ''T'')"
proof -
  have c: "claim_conflict empty_index (jget ''task_id'' demo_task) (task_names empty_index) = Inr ()"
    using demo_files(4,5) by simp
  have n: "0 < CLAIM_INDEX_CAS_ATTEMPTS" by (simp add: CLAIM_INDEX_CAS_ATTEMPTS_def)
  from acquire_loop_uncontended [OF demo_files(3) c demo_files(6,1) n, of "Str ''a1''", unfolded demo_new_claim]
  obtain w' where l: "acquire_loop CLAIM_INDEX_CAS_ATTEMPTS [] (durable demo_supervisor) demo_task (Str ''a1'') demo_world
      = (Inr demo_claim, w')" "dirs w' = dirs demo_world" "clock w' = clock demo_world"
    by blast
  have a: "acquireClaim [] demo_task (Str ''a1'') demo_world = (Inr demo_claim, w')"
    using demo_files l(1) parse_object_present [OF demo_files(2)]
    by (simp add: acquireClaim_def Let_def bind_readJson)
  then show "acquireClaim [] demo_task (Str ''a1'') demo_world = (Inr demo_claim, demo_claimed)"
    by (simp add: demo_claimed_def)
  from a l(2,3) show "dirs demo_claimed = []" "clock demo_claimed = (\<lambda>n. ''T'')"
    by (simp_all add: demo_claimed_def demo_world_def)
qed

lemma demo_acquired: "acquired [] (durable demo_supervisor) demo_task (Str ''a1'') demo_world demo_claim demo_claimed"
  using acquireClaim_result [OF demo_acquire(1)] demo_files(1) by simp

definition demo_index :: jv where
  "demo_index = durable (claimed_index empty_index demo_task demo_claim)"

lemma demo_index: "index_of [] demo_claimed = Inr demo_index"
  unfolding demo_index_def
  by (rule index_after_acquired(1) [OF demo_acquired demo_files(3) jwf_durable [OF demo_jwf(5)] demo_jwf(1,2)]) code_simp

lemma demo_fields:
  "jget ''schema'' demo_claim = Str claim_schema" "jget ''task_id'' demo_claim = Str ''t1''"
  "jget ''attempt_id'' demo_claim = Str ''a1''" "jget ''claim_id'' demo_claim = Str ''claim-0''"
  "jget ''fence_generation'' demo_claim = Num 1" "jget ''owner_supervisor_id'' demo_claim = Str ''sup-1''"
  "jget ''owner_generation'' demo_claim = Num 1" "jget ''status'' demo_claim = Str ''ACTIVE''"
  "jget k (durable demo_claim) = durable (jget k demo_claim)"
  by (simp_all add: jget_durable demo_jwf) (simp_all add: demo_claim_def demo_task_def demo_supervisor_def)

lemma demo_index_entry: "jget ''task-t1'' demo_index = durable demo_claim" "is_obj demo_index"
proof -
  have "jget ''task-t1'' (claimed_index empty_index demo_task demo_claim) = demo_claim" by code_simp
  moreover have "jwf (claimed_index empty_index demo_task demo_claim)"
    by (intro jwf_claimed_index demo_jwf parse_index_Inr(2) [OF demo_files(3) [unfolded index_of_def]])
  ultimately show "jget ''task-t1'' demo_index = durable demo_claim" "is_obj demo_index"
    unfolding demo_index_def by (simp_all add: jget_durable)
qed

lemma demo_task_names: "''task-t1'' \<in> set (task_names demo_index)"
proof -
  have "durable demo_claim \<noteq> Undef" by (simp add: demo_claim_def new_claim_def)
  then have "''task-t1'' \<in> set (keys_of demo_index)" using demo_index_entry jget_notin by metis
  then show ?thesis by (simp add: task_names_def starts_with_def)
qed

lemma demo_on_disk: "claim_on_disk [] demo_claim demo_claimed = Inr (durable demo_claim)"
  using acquired_fields(5,6) [OF demo_acquired] demo_jwf by (simp add: claim_on_disk_def)

theorem acquireClaim_grants_witness:
  "\<exists>index'. index_of [] demo_claimed = Inr index' \<and> jget ''next_fence'' index' = Num 2"
proof -
  have i: "jget ''next_fence'' empty_index = Num 1" "1 < max_safe" by code_simp+
  from acquireClaim_grants [OF demo_acquire(1) demo_files(3) i demo_jwf(1,2)]
  obtain index' where "index_of [] demo_claimed = Inr index'" "jget ''next_fence'' index' = Num (1 + 1)" by blast
  then show ?thesis by simp
qed


theorem acquireClaim_exclusive_witness:
  "\<exists>e. fst (acquireClaim [] demo_task (Str ''a2'') demo_claimed) = Inl e"
proof -
  have k: "strict_eq (jget ''task_id'' (jget ''task-t1'' demo_index)) (jget ''task_id'' demo_task)"
    "jget ''status'' (jget ''task-t1'' demo_index) = Str ''ACTIVE''"
    by (simp_all add: demo_index_entry demo_fields demo_files(4))
  from acquireClaim_exclusive [OF demo_index demo_task_names k, where att = "Str ''a2''"] show ?thesis by (elim exE) simp
qed

theorem acquireClaim_progress_witness:
  "\<exists>claim w'. acquireClaim [] demo_task (Str ''a1'') demo_world = (Inr claim, w')"
  using acquireClaim_progress [OF demo_files(1,2,4,8,7) refl demo_files(3,5,6)] by blast

theorem releaseClaim_stale_fence_witness:
  "releaseClaim [] (jset ''fence_generation'' (Num 7) demo_claim) (Str ''COMPLETED'') demo_claimed
    = (Inl (Err ''stale claim fence''), demo_claimed)"
proof -
  let ?c = "jset ''fence_generation'' (Num 7) demo_claim"
  have p: "is_obj ?c" "claim_file [] ?c = claim_file [] demo_claim"
    "identity_but_fence (durable demo_claim) ?c"
    "\<not> strict_eq (jget ''fence_generation'' (durable demo_claim)) (jget ''fence_generation'' ?c)"
    by (simp_all add: claim_file_def demo_fields demo_jwf identity_but_fence_def exactClaimIdentity_def)
  have "claim_on_disk [] ?c demo_claimed = Inr (durable demo_claim)"
    using demo_on_disk p(2) by (simp add: claim_on_disk_def)
  from releaseClaim_stale_fence [OF p(1) this p(3,4)] show ?thesis .
qed

definition demo_done :: jv where
  "demo_done = released_claim (durable demo_claim) (Str ''COMPLETED'') ''T''"

definition demo_released :: world where
  "demo_released = snd (releaseClaim [] demo_claim (Str ''COMPLETED'') demo_claimed)"

lemma demo_release: "releaseClaim [] demo_claim (Str ''COMPLETED'') demo_claimed = (Inr demo_done, demo_released)"
proof -
  have x: "exactIndexedClaim (jget (task_key (jget ''task_id'' (durable demo_claim))) demo_index) (durable demo_claim)"
    "jget ''status'' (jget (task_key (jget ''task_id'' (durable demo_claim))) demo_index) = Str ''ACTIVE''"
    by (simp_all add: task_key_def demo_index_entry demo_fields exactIndexedClaim_def)
  have y: "identity_but_fence (durable demo_claim) demo_claim"
    "strict_eq (jget ''fence_generation'' (durable demo_claim)) (jget ''fence_generation'' demo_claim)"
    "jget ''status'' (durable demo_claim) = Str ''ACTIVE''"
    by (simp_all add: identity_but_fence_def exactClaimIdentity_def demo_fields demo_jwf)
  have l: "cas_lock (claim_index_path []) \<notin> set (dirs demo_claimed)" by (simp add: demo_acquire(2,3))
  from release_loop_uncontended [OF demo_index x(1,2) l, of CLAIM_INDEX_CAS_ATTEMPTS "Str ''COMPLETED''"]
  obtain w' where "release_loop CLAIM_INDEX_CAS_ATTEMPTS [] (durable demo_claim) (Str ''COMPLETED'') demo_claimed
      = (Inr demo_done, w')"
    by (auto simp: CLAIM_INDEX_CAS_ATTEMPTS_def demo_acquire(2,3) demo_done_def)
  with releaseClaim_cases [OF demo_jwf(3) demo_on_disk] x y show ?thesis by (simp add: demo_released_def)
qed

lemma demo_cid: "jget ''claim_id'' demo_claim = Str ''claim-0''" "''claim-0'' \<noteq> ''index''"
    "jget ''status'' (durable demo_claim) = Str ''ACTIVE''"
  by (simp_all add: demo_fields)

lemma demo_done_fields: "jget k (durable demo_done) = durable (jget k demo_done)"
  "is_obj demo_done" "jwf demo_done"
  "jget k demo_done = (if k = ''completed_at'' then Str ''T'' else if k = ''status'' then Str ''COMPLETED''
     else durable (jget k demo_claim))"
proof -
  show w: "is_obj demo_done" "jwf demo_done"
    by (simp_all add: demo_done_def demo_jwf jwf_released_claim jwf_durable)
  then show "jget k (durable demo_done) = durable (jget k demo_done)" by (simp add: jget_durable)
  show "jget k demo_done = (if k = ''completed_at'' then Str ''T'' else if k = ''status'' then Str ''COMPLETED''
     else durable (jget k demo_claim))"
    by (simp add: demo_done_def demo_fields demo_jwf)
qed

theorem releaseClaim_frees_witness:
  "\<exists>index'. index_of [] demo_released = Inr index' \<and> jget ''status'' (jget ''task-t1'' index') = Str ''COMPLETED''"
proof -
  have p: "jwf (Str ''COMPLETED'')" "task_key (jget ''task_id'' (durable demo_claim)) = ''task-t1''"
    "jget ''status'' (durable demo_done) = Str ''COMPLETED''"
    by (simp_all add: task_key_def demo_fields demo_done_fields)
  from releaseClaim_frees [OF demo_release demo_jwf(3) demo_on_disk demo_cid(3,1,2) p(1)] p(2,3)
  show ?thesis by auto
qed

theorem releaseClaim_terminal_witness:
  "snd (releaseClaim [] demo_claim (Str ''COMPLETED'') demo_released) = demo_released"
proof -
  from releaseClaim_result [OF demo_release demo_jwf(3) demo_on_disk demo_cid(1,2)] demo_cid(3)
  have "released [] (durable demo_claim) (Str ''COMPLETED'') demo_claimed demo_done demo_released" by simp
  moreover have "claim_file [] (durable demo_claim) = claim_file [] demo_claim" "jwf demo_done" "is_obj demo_done"
    by (simp_all add: claim_file_def demo_fields demo_done_fields)
  ultimately have d: "claim_on_disk [] demo_claim demo_released = Inr (durable demo_done)"
    by (auto simp: claim_on_disk_def released_def)
  have p: "identity_but_fence (durable demo_done) demo_claim"
    "strict_eq (jget ''fence_generation'' (durable demo_done)) (jget ''fence_generation'' demo_claim)"
    "jget ''status'' (durable demo_done) \<noteq> Str ''ACTIVE''"
    by (simp_all add: identity_but_fence_def exactClaimIdentity_def demo_fields demo_done_fields demo_jwf)
  from releaseClaim_terminal [OF demo_jwf(3) d p] show ?thesis by blast
qed

end
