(* ===== verification/Register.thy ===== *)
theory Register imports Store begin

text \<open>
  The contract behind fencing: one file, replaced by compare-and-swap, whose content
  carries a number that every grant raises and no other write lowers. Clients that
  follow it (the claim index of src/pipeline.js, the activation lease of src/wakeup.js)
  hand out strictly increasing tokens however their reads and swaps interleave. \<open>seen\<close>
  is the content a client expects after it read the file: the bytes themselves, or the
  canonical text of the value it parsed.
\<close>

record register =
  cell :: "string option"
  views :: "nat \<Rightarrow> string option"
  tokens :: "int list"

locale fenced_register =
  fixes seen :: "string option \<Rightarrow> string option"
    and version :: "string option \<Rightarrow> int"
    and grants :: "string option \<Rightarrow> string \<Rightarrow> bool"
    and keeps :: "string option \<Rightarrow> string \<Rightarrow> bool"
  assumes grant_raises: "grants old new \<Longrightarrow> version (seen old) < version (Some new)"
    and keep_keeps: "keeps old new \<Longrightarrow> version (seen old) \<le> version (Some new)"
begin

inductive run :: "(string \<Rightarrow> string) \<Rightarrow> string option \<Rightarrow> register \<Rightarrow> bool" for h c0 where
  init: "run h c0 \<lparr>cell = c0, views = (\<lambda>_. None), tokens = []\<rparr>"
| view: "run h c0 s \<Longrightarrow> run h c0 (s\<lparr>views := (views s)(i := cell s)\<rparr>)"
| grant: "run h c0 s \<Longrightarrow> map_option h (cell s) = map_option h (seen (views s i)) \<Longrightarrow> grants (views s i) new \<Longrightarrow>
    run h c0 (s\<lparr>cell := Some new, tokens := tokens s @ [version (Some new)]\<rparr>)"
| keep: "run h c0 s \<Longrightarrow> map_option h (cell s) = map_option h (seen (views s i)) \<Longrightarrow> keeps (views s i) new \<Longrightarrow>
    run h c0 (s\<lparr>cell := Some new\<rparr>)"

lemma run_inv:
  assumes "run h c0 s" "inj h"
  shows "sorted_wrt (<) (tokens s) \<and> (\<forall>t\<in>set (tokens s). version c0 < t \<and> t \<le> version (cell s))
    \<and> version c0 \<le> version (cell s)"
  using assms(1)
proof (induction rule: run.induct)
  case (grant s i new)
  have "cell s = seen (views s i)" using grant.hyps(2) assms(2) by (simp add: option.inj_map inj_eq)
  with grant_raises [OF grant.hyps(3)] have "version (cell s) < version (Some new)" by simp
  with grant.IH show ?case by (auto simp: sorted_wrt_append order_le_less_trans dest: order_trans)
next
  case (keep s i new)
  have "cell s = seen (views s i)" using keep.hyps(2) assms(2) by (simp add: option.inj_map inj_eq)
  with keep_keeps [OF keep.hyps(3)] have "version (cell s) \<le> version (Some new)" by simp
  with keep.IH show ?case by (auto dest: order_trans)
qed auto

text \<open>Tokens are never repeated, and a holder of the latest is the only one the file agrees with.\<close>

lemma tokens_distinct: "run h c0 s \<Longrightarrow> inj h \<Longrightarrow> distinct (tokens s)"
  using run_inv [of h c0 s] by (simp add: strict_sorted_iff)

lemma stale_token:
  assumes "run h c0 s" "inj h" "t \<in> set (tokens s)" "t \<noteq> last (tokens s)"
  shows "t < version (cell s)"
proof -
  have "t \<le> last (tokens s)"
    using assms(3) run_inv [OF assms(1,2)] by (cases "tokens s" rule: rev_cases) (auto simp: sorted_wrt_append)
  moreover have "last (tokens s) \<le> version (cell s)"
    using assms(3) run_inv [OF assms(1,2)] by (metis empty_iff last_in_set list.set(1))
  ultimately show ?thesis using assms(4) by simp
qed

end

end
