(* ===== verification/ClaimProtocol.thy ===== *)
theory ClaimProtocol imports ClaimLaws Register begin

text \<open>
  Many processes acquiring and releasing claims at once (src/pipeline.js). A process
  takes a snapshot of the index and, any number of steps of the others later, tries its
  compare-and-swap. The swaps are one step here, which \<open>CasProtocol\<close> justifies. Every
  step writes what \<open>acquireClaim\<close> and \<open>releaseClaim\<close> write.
\<close>

record claim_sys =
  index_bytes :: "string option"
  snapshot :: "nat \<Rightarrow> string option"
  granted :: "(string \<times> int) list"
  freed :: "(string \<times> int) list"

inductive claim_step :: "(string \<Rightarrow> string) \<Rightarrow> claim_sys \<Rightarrow> claim_sys \<Rightarrow> bool" for h where
  look: "claim_step h s (s\<lparr>snapshot := (snapshot s)(i := index_bytes s)\<rparr>)"
| acquire: "parse_index p (snapshot s i) = Inr index \<Longrightarrow>
     jget ''task_id'' task = Str tid \<Longrightarrow>
     claim_conflict index (Str tid) (task_names index) = Inr () \<Longrightarrow>
     jget ''next_fence'' index = Num n \<Longrightarrow> n < max_safe \<Longrightarrow>
     jwf sv \<Longrightarrow> jwf task \<Longrightarrow> jwf att \<Longrightarrow>
     claim = new_claim sv task att (Num n) cid t1 t2 \<Longrightarrow>
     map_option h (index_bytes s) = map_option h (snapshot s i) \<Longrightarrow>
     claim_step h s (s\<lparr>index_bytes := Some (canonicalJson (claimed_index index task claim)),
       granted := granted s @ [(tid, n)]\<rparr>)"
| release: "parse_index p (snapshot s i) = Inr index \<Longrightarrow>
     is_obj current \<Longrightarrow> jwf current \<Longrightarrow> jwf status \<Longrightarrow>
     jget ''task_id'' current = Str tid \<Longrightarrow> jget ''fence_generation'' current = Num n \<Longrightarrow>
     status \<noteq> Str ''ACTIVE'' \<Longrightarrow>
     exactIndexedClaim (jget (task_key (Str tid)) index) current \<Longrightarrow>
     jget ''status'' (jget (task_key (Str tid)) index) = Str ''ACTIVE'' \<Longrightarrow>
     map_option h (index_bytes s) = map_option h (snapshot s i) \<Longrightarrow>
     claim_step h s (s\<lparr>index_bytes := Some (canonicalJson
         (jset (task_key (Str tid)) (released_claim current status t) index)),
       freed := freed s @ [(tid, n)]\<rparr>)"

inductive_cases claim_stepE: "claim_step h s t"

inductive claim_reach :: "(string \<Rightarrow> string) \<Rightarrow> claim_sys \<Rightarrow> bool" for h where
  begin_run: "claim_reach h \<lparr>index_bytes = None, snapshot = (\<lambda>_. None), granted = [], freed = []\<rparr>"
| continue_run: "claim_reach h s \<Longrightarrow> claim_step h s t \<Longrightarrow> claim_reach h t"

text \<open>A claim is held from the swap that granted it to the swap that freed it.\<close>

definition held :: "claim_sys \<Rightarrow> string \<Rightarrow> int \<Rightarrow> bool" where
  "held s tid n \<longleftrightarrow> (tid, n) \<in> set (granted s) \<and> (tid, n) \<notin> set (freed s)"

text \<open>What an index says of a task: the entry, when there is one, is a claim of that task.\<close>

definition entry_ok :: "jv \<Rightarrow> (string \<times> int) list \<Rightarrow> (string \<times> int) list \<Rightarrow> string \<Rightarrow> bool" where
  "entry_ok index gs fs tid \<longleftrightarrow> (let e = jget (task_key (Str tid)) index in
     (e = Undef \<longrightarrow> (\<forall>n. (tid, n) \<notin> set gs))
     \<and> (e \<noteq> Undef \<longrightarrow> jget ''task_id'' e = Str tid)
     \<and> (jget ''status'' e = Str ''ACTIVE'' \<longrightarrow> (\<exists>n. jget ''fence_generation'' e = Num n \<and> (tid, n) \<in> set gs
          \<and> (\<forall>m. (tid, m) \<in> set gs \<and> (tid, m) \<notin> set fs \<longleftrightarrow> m = n)))
     \<and> (jget ''status'' e \<noteq> Str ''ACTIVE'' \<longrightarrow> (\<forall>m. (tid, m) \<in> set gs \<longrightarrow> (tid, m) \<in> set fs)))"

definition index_inv :: "jv \<Rightarrow> (string \<times> int) list \<Rightarrow> (string \<times> int) list \<Rightarrow> bool" where
  "index_inv index gs fs \<longleftrightarrow>
     sorted_wrt (<) (map snd gs) \<and> (\<forall>(tid, n)\<in>set gs. n < int_of (jget ''next_fence'' index))
     \<and> set fs \<subseteq> set gs \<and> distinct fs \<and> (\<forall>tid. entry_ok index gs fs tid)"

definition claim_inv :: "claim_sys \<Rightarrow> bool" where
  "claim_inv s \<longleftrightarrow> (\<forall>p. \<exists>index. parse_index p (index_bytes s) = Inr index \<and> index_inv index (granted s) (freed s))"

lemma index_inv_durable:
  assumes "jwf index" "is_obj index" "index_inv index gs fs"
  shows "index_inv (durable index) gs fs"
proof -
  have g: "jget k (durable index) = durable (jget k index)" for k using assms by (simp add: jget_durable)
  have d: "jget k (durable (jget q index)) = durable (jget k (jget q index))" for k q
  proof (cases "is_obj (jget q index)")
    case True
    then show ?thesis using assms by (simp add: jget_durable jwf_jget)
  next
    case False
    then show ?thesis by (cases "jget q index") (auto simp: durable_Arr)
  qed
  have "int_of v = 0" if "is_obj v" for v using that by (cases v) auto
  then have n: "int_of (durable v) = int_of v" for v
    by (cases "is_obj v") (simp, cases v, auto simp: durable_Arr)
  show ?thesis using assms(3) by (simp add: index_inv_def entry_ok_def g d n Let_def)
qed

text \<open>The two swaps keep the invariant.\<close>

lemma index_inv_claim:
  assumes "index_inv index gs fs" "is_obj index" "jget ''next_fence'' index = Num n"
    and "jget ''task_id'' task = Str tid" "claim_conflict index (Str tid) (task_names index) = Inr ()"
    and "claim = new_claim sv task att (Num n) cid t1 t2"
  shows "index_inv (claimed_index index task claim) (gs @ [(tid, n)]) fs"
proof -
  let ?e = "jget (task_key (Str tid)) index"
  have idle: "jget ''status'' ?e \<noteq> Str ''ACTIVE''"
  proof
    assume a: "jget ''status'' ?e = Str ''ACTIVE''"
    then have ne: "?e \<noteq> Undef" by auto
    then have "task_key (Str tid) \<in> set (task_names index)"
      using jget_notin [OF assms(2)] by (auto simp: task_names_def)
    moreover have "jget ''task_id'' ?e = Str tid"
      using assms(1) ne by (simp add: index_inv_def entry_ok_def Let_def)
    ultimately show False using a assms(5) by (auto simp: claim_conflict_Inr)
  qed
  have lt: "\<forall>(t, m)\<in>set gs. m < n" using assms(1,3) by (simp add: index_inv_def)
  have fresh: "(t, n) \<notin> set gs" for t using lt by auto
  have "entry_ok (claimed_index index task claim) (gs @ [(tid, n)]) fs t" for t
  proof (cases "t = tid")
    case True
    have fr: "\<forall>m. (tid, m) \<in> set gs \<longrightarrow> (tid, m) \<in> set fs" "set fs \<subseteq> set gs"
      using assms(1) idle by (simp_all add: index_inv_def entry_ok_def Let_def)
    from fr(2) fresh have "(tid, n) \<notin> set fs" by blast
    moreover have "claim \<noteq> Undef" using assms(6) by (simp add: new_claim_def)
    ultimately show ?thesis using fr(1) True
      using assms(2,4,6) by (auto simp: entry_ok_def jget_claimed_index)
  next
    case False
    with assms(1,2,4) show ?thesis
      by (simp add: index_inv_def entry_ok_def jget_claimed_index Let_def)
  qed
  then show ?thesis using assms(1,2,3,4) lt
    by (auto simp: index_inv_def jget_claimed_index sorted_wrt_append)
qed

lemma index_inv_release:
  assumes "index_inv index gs fs" "is_obj index" "is_obj current"
    and "jget ''task_id'' current = Str tid" "jget ''fence_generation'' current = Num n"
    and "status \<noteq> Str ''ACTIVE''" "exactIndexedClaim (jget (task_key (Str tid)) index) current"
    and "jget ''status'' (jget (task_key (Str tid)) index) = Str ''ACTIVE''"
  shows "index_inv (jset (task_key (Str tid)) (released_claim current status t) index) gs (fs @ [(tid, n)])"
proof -
  let ?e = "jget (task_key (Str tid)) index"
  have "jget ''fence_generation'' ?e = Num n" using assms(5,7) by (simp add: exactIndexedClaim_def)
  moreover have "entry_ok index gs fs tid" using assms(1) by (simp add: index_inv_def)
  ultimately have h: "(tid, n) \<in> set gs" "\<forall>m. (tid, m) \<in> set gs \<and> (tid, m) \<notin> set fs \<longleftrightarrow> m = n"
    using assms(8) by (simp_all add: entry_ok_def Let_def)
  have "entry_ok (jset (task_key (Str tid)) (released_claim current status t) index) gs (fs @ [(tid, n)]) u" for u
  proof (cases "u = tid")
    case True
    with h assms(3,4,6) show ?thesis by (auto simp: entry_ok_def released_claim_def)
  next
    case False
    with assms(1,2) show ?thesis by (simp add: index_inv_def entry_ok_def Let_def)
  qed
  moreover have "(tid, n) \<notin> set fs" using h by blast
  ultimately show ?thesis using h(1) assms(1,2) by (simp add: index_inv_def)
qed

lemma parse_index_path: "parse_index p b = Inr index \<Longrightarrow> parse_index q b = Inr index"
  by (auto simp: parse_index_def split: option.splits if_splits)

lemma claim_inv_step:
  assumes "claim_step h s t" "inj h" "claim_inv s"
  shows "claim_inv t"
  using assms(1)
proof (cases rule: claim_step.cases)
  case (look i)
  with assms(3) show ?thesis by (simp add: claim_inv_def)
next
  case (acquire p i index task tid n sv att claim cid t1 t2)
  have b: "index_bytes s = snapshot s i"
    using assms(2) acquire(11) by (simp add: option.inj_map inj_eq)
  then have ix: "parse_index q (index_bytes s) = Inr index" for q
    using parse_index_path [OF acquire(2), of q] by simp
  from assms(3) obtain j where "parse_index p (index_bytes s) = Inr j" "index_inv j (granted s) (freed s)"
    unfolding claim_inv_def by blast
  with ix [of p] have inv: "index_inv index (granted s) (freed s)" by simp
  have wf: "jwf claim" unfolding acquire(10) by (intro jwf_new_claim acquire(7,8,9)) simp
  note o1 = parse_index_Inr [OF ix]
  have "index_inv (durable (claimed_index index task claim)) (granted s @ [(tid, n)]) (freed s)"
    by (intro index_inv_durable index_inv_claim [OF inv _ acquire(5,3,4,10)] o1 jwf_claimed_index wf) simp
  moreover have "parse_index q (Some (canonicalJson (claimed_index index task claim)))
      = Inr (durable (claimed_index index task claim))" for q
    by (rule parse_index_claimed [OF ix wf]) (simp add: acquire)
  ultimately show ?thesis by (simp add: claim_inv_def acquire(1))
next
  case (release p i index current status tid n t1)
  have b: "index_bytes s = snapshot s i"
    using assms(2) release(11) by (simp add: option.inj_map inj_eq)
  then have ix: "parse_index q (index_bytes s) = Inr index" for q
    using parse_index_path [OF release(2), of q] by simp
  from assms(3) obtain j where "parse_index p (index_bytes s) = Inr j" "index_inv j (granted s) (freed s)"
    unfolding claim_inv_def by blast
  with ix [of p] have inv: "index_inv index (granted s) (freed s)" by simp
  note o1 = parse_index_Inr [OF ix]
  let ?r = "released_claim current status t1"
  have wf: "jwf ?r" by (intro jwf_released_claim release(4,5))
  have "index_inv (durable (jset (task_key (Str tid)) ?r index)) (granted s) (freed s @ [(tid, n)])"
    by (intro index_inv_durable index_inv_release [OF inv _ release(3,6,7,8,9,10)] o1 jwf_jset wf) simp
  with parse_index_released [OF ix wf] show ?thesis by (simp add: claim_inv_def release(1))
qed

lemma claim_reach_inv: "claim_reach h s \<Longrightarrow> inj h \<Longrightarrow> claim_inv s"
proof (induction rule: claim_reach.induct)
  case begin_run
  have "index_inv empty_index [] []"
    by (simp add: index_inv_def entry_ok_def empty_index_def task_key_simps [unfolded task_key_def] task_key_def)
  then show ?case by (simp add: claim_inv_def parse_index_def)
qed (rule claim_inv_step)

text \<open>C1: However processes interleave their snapshots and swaps of the claim index, the fences
  handed out are strictly increasing in the order of the grants, a claim is freed at most once
  and only after it was granted, and no task has two claims held at once. The digest is assumed
  to tell contents apart.\<close>

theorem claims_fenced_and_exclusive:
  assumes "claim_reach h s" "inj h"
  shows "sorted_wrt (<) (map snd (granted s)) \<and> set (freed s) \<subseteq> set (granted s) \<and> distinct (freed s)
    \<and> (\<forall>tid m n. held s tid m \<and> held s tid n \<longrightarrow> m = n)"
proof -
  from claim_reach_inv [OF assms] obtain index where i: "index_inv index (granted s) (freed s)"
    unfolding claim_inv_def by blast
  then have "entry_ok index (granted s) (freed s) tid" for tid by (simp add: index_inv_def)
  then have "held s tid m \<Longrightarrow> held s tid n \<Longrightarrow> m = n" for tid m n
    unfolding entry_ok_def held_def Let_def by metis
  with i show ?thesis by (auto simp: index_inv_def)
qed

text \<open>A process holds a claim of a task exactly while the index says so: the index that any
  interleaving leaves is readable, and its entry for the task is ACTIVE with the fence of the
  claim that is held.\<close>

theorem index_tells_who_holds:
  assumes "claim_reach h s" "inj h"
  shows "\<exists>index. parse_index p (index_bytes s) = Inr index
    \<and> (\<forall>tid n. held s tid n \<longleftrightarrow> jget ''status'' (jget (task_key (Str tid)) index) = Str ''ACTIVE''
         \<and> jget ''fence_generation'' (jget (task_key (Str tid)) index) = Num n)"
proof -
  from claim_reach_inv [OF assms] obtain index where p: "parse_index p (index_bytes s) = Inr index"
    and i: "index_inv index (granted s) (freed s)"
    unfolding claim_inv_def by blast
  then have "entry_ok index (granted s) (freed s) tid" for tid by (simp add: index_inv_def)
  then have "held s tid n \<longleftrightarrow> jget ''status'' (jget (task_key (Str tid)) index) = Str ''ACTIVE''
         \<and> jget ''fence_generation'' (jget (task_key (Str tid)) index) = Num n" for tid n
    unfolding entry_ok_def held_def Let_def by (metis jv.inject(2))
  with p show ?thesis by blast
qed

section \<open>The index as a fenced register\<close>

definition index_version :: "string option \<Rightarrow> int" where
  "index_version b = (case parse_index [] b of Inl e \<Rightarrow> 0 | Inr index \<Rightarrow> int_of (jget ''next_fence'' index))"

definition index_grants :: "string option \<Rightarrow> string \<Rightarrow> bool" where
  "index_grants old new \<longleftrightarrow> (\<exists>index task claim. parse_index [] old = Inr index \<and> jwf claim
     \<and> int_of (jget ''next_fence'' index) < max_safe \<and> new = canonicalJson (claimed_index index task claim))"

definition index_keeps :: "string option \<Rightarrow> string \<Rightarrow> bool" where
  "index_keeps old new \<longleftrightarrow> (\<exists>index tid rel. parse_index [] old = Inr index \<and> jwf rel
     \<and> new = canonicalJson (jset (task_key tid) rel index))"

lemma index_grant_raises:
  assumes "index_grants old new"
  shows "index_version old < index_version (Some new)"
proof -
  from assms obtain index task claim where i: "parse_index [] old = Inr index" and c: "jwf claim"
    and n: "int_of (jget ''next_fence'' index) < max_safe" and new: "new = canonicalJson (claimed_index index task claim)"
    by (auto simp: index_grants_def)
  note o1 = parse_index_Inr [OF i]
  have "jget ''next_fence'' (durable (claimed_index index task claim)) = Num (int_of (jget ''next_fence'' index) + 1)"
    using o1 c by (simp add: jget_durable jwf_claimed_index jget_claimed_index)
  with i new parse_index_claimed [OF i c n] show ?thesis by (simp add: index_version_def)
qed

lemma index_keep_keeps:
  assumes "index_keeps old new"
  shows "index_version old \<le> index_version (Some new)"
proof -
  from assms obtain index tid rel where i: "parse_index [] old = Inr index" and c: "jwf rel"
    and new: "new = canonicalJson (jset (task_key tid) rel index)"
    by (auto simp: index_keeps_def)
  note o1 = parse_index_Inr [OF i]
  obtain n where n: "jget ''next_fence'' index = Num n" using o1(4) by (metis pos_safeE)
  have "jget ''next_fence'' (durable (jset (task_key tid) rel index)) = Num n"
    using o1 c n by (simp add: jget_durable jwf_jset)
  with i n new parse_index_released [OF i c] show ?thesis by (simp add: index_version_def)
qed

interpretation claim_fences: fenced_register "\<lambda>b. b" index_version index_grants index_keeps
  by unfold_locales (auto intro: index_grant_raises index_keep_keeps)

section \<open>Witnesses\<close>

definition one_grant :: claim_sys where
  "one_grant = \<lparr>index_bytes = Some (canonicalJson (claimed_index empty_index demo_task demo_claim)),
     snapshot = (\<lambda>_. None), granted = [(''t1'', 1)], freed = []\<rparr>"

lemma one_grant_reached: "claim_reach h one_grant"
proof -
  let ?s = "\<lparr>index_bytes = None, snapshot = (\<lambda>_. None), granted = [], freed = []\<rparr>"
  have "claim_step h ?s (?s\<lparr>index_bytes := Some (canonicalJson (claimed_index empty_index demo_task demo_claim)),
       granted := granted ?s @ [(''t1'', 1)]\<rparr>)"
    by (rule claim_step.acquire [where i = 0 and p = "[]" and sv = demo_supervisor and att = "Str ''a1''"
          and cid = "''claim-0''" and ?t1.0 = "''T''" and ?t2.0 = "''T''"])
      (simp_all add: parse_index_def demo_files demo_jwf demo_claim_def, simp_all add: empty_index_def max_safe_def)
  from claim_reach.continue_run [OF claim_reach.begin_run this] show ?thesis by (simp add: one_grant_def)
qed

theorem claims_fenced_and_exclusive_witness:
  "claim_reach id one_grant \<and> held one_grant ''t1'' 1 \<and> \<not> held one_grant ''t1'' 2"
proof -
  have h: "held one_grant ''t1'' 1" by (simp add: held_def one_grant_def)
  from claims_fenced_and_exclusive [OF one_grant_reached inj_on_id] h
  show ?thesis using one_grant_reached [of id] by fastforce
qed

theorem index_tells_who_holds_witness:
  "\<exists>index. parse_index [] (index_bytes one_grant) = Inr index
    \<and> jget ''status'' (jget (task_key (Str ''t1'')) index) = Str ''ACTIVE''"
proof -
  have h: "held one_grant ''t1'' 1" by (simp add: held_def one_grant_def)
  with index_tells_who_holds [OF one_grant_reached inj_on_id, of "[]"] show ?thesis by blast
qed

end
