(* ===== verification/Dates.thy ===== *)
theory Dates imports JsonText begin

text \<open>
  \<open>new Date(ms).toISOString()\<close> and \<open>Date.parse\<close> as the code uses them: every durable
  timestamp is written by the first and read by the second. \<open>parse_date\<close> reads the
  format \<open>toISOString\<close> writes; other formats, which no component writes, count as
  invalid. The calendar repeats every 400 years, 146097 days.
\<close>

definition leap :: "nat \<Rightarrow> bool" where
  "leap y \<longleftrightarrow> y mod 4 = 0 \<and> (y mod 100 \<noteq> 0 \<or> y mod 400 = 0)"

definition year_days :: "nat \<Rightarrow> nat" where
  "year_days y = (if leap y then 366 else 365)"

definition month_lengths :: "nat \<Rightarrow> nat list" where
  "month_lengths y = [31, if leap y then 29 else 28, 31, 30, 31, 30, 31, 31, 30, 31, 30, 31]"

lemma year_days_pos [simp]: "0 < year_days y"
  by (simp add: year_days_def)

function year_from :: "nat \<Rightarrow> nat \<Rightarrow> nat \<times> nat" where
  "year_from y d = (if d < year_days y then (y, d) else year_from (Suc y) (d - year_days y))"
  by pat_completeness auto
termination
proof (relation "measure snd", simp)
  fix y d assume "\<not> d < year_days y"
  with year_days_pos [of y] have "d - year_days y < d" by (metis diff_less gr0I less_nat_zero_code not_less)
  then show "((Suc y, d - year_days y), y, d) \<in> measure snd" by simp
qed

declare year_from.simps [simp del]

primrec days_to :: "nat \<Rightarrow> nat" where
  "days_to 0 = 0"
| "days_to (Suc k) = days_to k + year_days (1970 + k)"

fun month_from :: "nat list \<Rightarrow> nat \<Rightarrow> nat \<Rightarrow> nat \<times> nat" where
  "month_from [] i d = (i, d)"
| "month_from (m # ms) i d = (if d < m then (i, d) else month_from ms (Suc i) (d - m))"

fun digits :: "nat \<Rightarrow> nat \<Rightarrow> string" where
  "digits 0 n = []"
| "digits (Suc k) n = digits k (n div 10) @ [digit_char (n mod 10)]"

definition day_ms :: int where
  "day_ms = 86400000"

definition cycle_days :: int where
  "cycle_days = 146097"

definition year_text :: "int \<Rightarrow> string" where
  "year_text y = (if 0 \<le> y \<and> y \<le> 9999 then digits 4 (nat y)
     else (if y < 0 then CHR ''-'' else CHR ''+'') # digits 6 (nat \<bar>y\<bar>))"

text \<open>Month, day and time of day; 20 characters.\<close>

definition rest_text :: "nat \<Rightarrow> nat \<Rightarrow> nat \<Rightarrow> string" where
  "rest_text mon day ms = ''-'' @ digits 2 (Suc mon) @ ''-'' @ digits 2 (Suc day) @ ''T''
     @ digits 2 (ms div 3600000) @ '':'' @ digits 2 (ms div 60000 mod 60) @ '':''
     @ digits 2 (ms div 1000 mod 60) @ ''.'' @ digits 3 (ms mod 1000) @ ''Z''"

definition toISOString :: "int \<Rightarrow> string" where
  "toISOString ms =
     (let d = ms div day_ms; (y, doy) = year_from 1970 (nat (d mod cycle_days));
          (mon, day) = month_from (month_lengths y) 0 doy
      in year_text (int y + 400 * (d div cycle_days)) @ rest_text mon day (nat (ms mod day_ms)))"

section \<open>Date.parse\<close>

definition num_at :: "nat \<Rightarrow> nat \<Rightarrow> string \<Rightarrow> nat option" where
  "num_at i k s = (let f = take k (drop i s) in
     if length f = k \<and> list_all is_digit f then Some (dec_val f) else None)"

definition parse_rest :: "string \<Rightarrow> (nat \<times> nat \<times> nat) option" where
  "parse_rest r =
     (if length r = 20 \<and> map ((!) r) [0, 3, 6, 9, 12, 15, 19] = ''--T::.Z'' then
        (case (num_at 1 2 r, num_at 4 2 r, num_at 7 2 r, num_at 10 2 r, num_at 13 2 r, num_at 16 3 r) of
           (Some mon, Some day, Some h, Some m, Some sec, Some ms) \<Rightarrow>
             if 1 \<le> mon \<and> mon \<le> 12 \<and> 1 \<le> day \<and> day \<le> 31 \<and> m < 60 \<and> sec < 60
                \<and> (h < 24 \<or> h = 24 \<and> m = 0 \<and> sec = 0 \<and> ms = 0)
             then Some (mon - 1, day - 1, ((h * 60 + m) * 60 + sec) * 1000 + ms) else None
         | _ \<Rightarrow> None)
      else None)"

definition parse_year :: "string \<Rightarrow> (int \<times> string) option" where
  "parse_year s = (case s of [] \<Rightarrow> None
     | c # cs \<Rightarrow>
       if c = CHR ''+'' \<or> c = CHR ''-'' then
         (case num_at 0 6 cs of None \<Rightarrow> None
          | Some y \<Rightarrow> if c = CHR ''-'' \<and> y = 0 then None
              else Some (if c = CHR ''-'' then - int y else int y, drop 6 cs))
       else (case num_at 0 4 s of None \<Rightarrow> None | Some y \<Rightarrow> Some (int y, drop 4 s)))"

definition parse_date :: "string \<Rightarrow> int option" where
  "parse_date s = (case parse_year s of None \<Rightarrow> None
     | Some (y, r) \<Rightarrow> (case parse_rest r of None \<Rightarrow> None
       | Some (mon, day, ms) \<Rightarrow>
         (let k = nat ((y - 1970) mod 400); e = (y - 1970) div 400;
              d = e * cycle_days + int (days_to k + sum_list (take mon (month_lengths (1970 + k))) + day)
          in Some (d * day_ms + int ms))))"

section \<open>Round trip\<close>

lemma year_from_spec:
  "year_from (1970 + k) d = (y, r) \<Longrightarrow> \<exists>j. y = 1970 + j \<and> k \<le> j \<and> days_to k + d = days_to j + r \<and> r < year_days y"
proof (induction "1970 + k" d arbitrary: k rule: year_from.induct)
  case (1 d)
  show ?case
  proof (cases "d < year_days (1970 + k)")
    case True
    with 1(2) show ?thesis by (auto simp: year_from.simps [of "1970 + k"])
  next
    case False
    then have "year_from (1970 + Suc k) (d - year_days (1970 + k)) = (y, r)"
      using 1(2) by (simp add: year_from.simps [of "1970 + k"])
    from 1(1) [OF False _ this] False show ?thesis by (force simp: Suc_le_eq)
  qed
qed

lemma days_to_mono: "j \<le> k \<Longrightarrow> days_to j \<le> days_to k"
  by (induction k) (auto simp: le_Suc_eq)

definition leaps :: "nat \<Rightarrow> int" where
  "leaps n = int (n div 4) - int (n div 100) + int (n div 400)"

lemma leaps_Suc: "leaps (Suc n) = leaps n + (if leap (Suc n) then 1 else 0)"
proof -
  have "Suc n mod 400 = 0 \<longrightarrow> Suc n mod 100 = 0" "Suc n mod 100 = 0 \<longrightarrow> Suc n mod 4 = 0" by presburger+
  then show ?thesis by (auto simp: leaps_def leap_def div_Suc)
qed

lemma days_to_leaps: "int (days_to k) = 365 * int k + leaps (1969 + k) - leaps 1969"
proof (induction k)
  case (Suc k)
  have "leaps (1969 + Suc k) = leaps (1969 + k) + (if leap (1970 + k) then 1 else 0)"
    using leaps_Suc [of "1969 + k"] by (simp only: add_Suc_right) simp
  with Suc show ?case by (simp add: year_days_def)
qed simp

lemma days_to_cycle: "days_to 400 = 146097"
  using days_to_leaps [of 400] by (simp add: leaps_def)

lemma month_from_spec:
  "month_from ms i d = (m, r) \<Longrightarrow> d < sum_list ms \<Longrightarrow>
    \<exists>j < length ms. m = i + j \<and> d = sum_list (take j ms) + r \<and> r < ms ! j"
proof (induction ms i d rule: month_from.induct)
  case (2 m0 ms i d)
  show ?case
  proof (cases "d < m0")
    case True
    with 2 show ?thesis by (auto intro!: exI [of _ 0])
  next
    case False
    then have "month_from ms (Suc i) (d - m0) = (m, r)" "d - m0 < sum_list ms" using 2 by auto
    from 2(1) [OF False this] obtain j where "j < length ms" "m = Suc i + j" "d - m0 = sum_list (take j ms) + r" "r < ms ! j"
      by blast
    with False show ?thesis by (intro exI [of _ "Suc j"]) auto
  qed
qed simp

lemma month_lengths_sum: "sum_list (month_lengths y) = year_days y"
  by (simp add: month_lengths_def year_days_def)

lemma month_lengths_le: "j < 12 \<Longrightarrow> month_lengths y ! j \<le> 31"
  by (auto simp: month_lengths_def nth_Cons numeral_eq_Suc less_Suc_eq split: nat.splits)

lemma digits_simps [simp]: "length (digits k n) = k" "list_all is_digit (digits k n)"
  by (induction k arbitrary: n) auto

lemma dec_val_digits: "n < 10 ^ k \<Longrightarrow> dec_val (digits k n) = n"
proof (induction k arbitrary: n)
  case 0
  then show ?case by (simp add: dec_val_def)
next
  case (Suc k)
  then have "dec_val (digits k (n div 10)) = n div 10" by (intro Suc.IH) auto
  then show ?case by (simp add: dec_val_snoc)
qed

lemma num_at_digits:
  "length p = i \<Longrightarrow> n < 10 ^ k \<Longrightarrow> num_at i k (p @ digits k n @ q) = Some n"
  by (simp add: num_at_def dec_val_digits)


lemma parse_rest_chars:
  assumes "list_all is_digit [a, b, c, d, e, f, g, h, i, j, k, l, m]"
  shows "parse_rest [CHR ''-'', a, b, CHR ''-'', c, d, CHR ''T'', e, f, CHR '':'', g, h, CHR '':'', i, j, CHR ''.'', k, l, m, CHR ''Z'']
    = (let mon = dec_val [a, b]; day = dec_val [c, d]; hh = dec_val [e, f]; mm = dec_val [g, h];
           sec = dec_val [i, j]; ms = dec_val [k, l, m] in
       if 1 \<le> mon \<and> mon \<le> 12 \<and> 1 \<le> day \<and> day \<le> 31 \<and> mm < 60 \<and> sec < 60
                \<and> (hh < 24 \<or> hh = 24 \<and> mm = 0 \<and> sec = 0 \<and> ms = 0)
       then Some (mon - 1, day - 1, ((hh * 60 + mm) * 60 + sec) * 1000 + ms) else None)"
  using assms by (simp add: parse_rest_def num_at_def Let_def)

lemma parse_rest_text:
  assumes "mon < 12" "day < 31" "ms < 86400000"
  shows "parse_rest (rest_text mon day ms) = Some (mon, day, ms)"
proof -
  define h m c where "h = ms div 3600000" and "m = ms div 60000 mod 60" and "c = ms div 1000 mod 60"
  have b: "h < 24" "m < 60" "c < 60" using assms(3) by (simp_all add: h_def m_def c_def)
  have t: "((h * 60 + m) * 60 + c) * 1000 + ms mod 1000 = ms"
  proof -
    have a: "ms div 60000 = ms div 1000 div 60" "ms div 3600000 = ms div 1000 div 60 div 60"
      by (simp_all add: div_mult2_eq [symmetric])
    have "h * 60 + m = ms div 1000 div 60" unfolding h_def m_def a by (rule div_mult_mod_eq)
    then have "(h * 60 + m) * 60 + c = ms div 1000" unfolding c_def by simp
    then show ?thesis by simp
  qed
  have two: "digits 2 n = [digit_char (n div 10 mod 10), digit_char (n mod 10)]" for n
    by (simp add: numeral_2_eq_2)
  have three: "digits 3 n = [digit_char (n div 10 div 10 mod 10), digit_char (n div 10 mod 10), digit_char (n mod 10)]" for n
    by (simp add: numeral_3_eq_3)
  have v2: "dec_val [digit_char (n div 10 mod 10), digit_char (n mod 10)] = n" if "n < 100" for n
    using dec_val_digits [of n 2] that by (simp add: two)
  have v3: "dec_val [digit_char (n div 10 div 10 mod 10), digit_char (n div 10 mod 10), digit_char (n mod 10)] = n"
    if "n < 1000" for n
    using dec_val_digits [of n 3] that by (simp add: three)
  have v2': "dec_val [digit_char (n div 10), digit_char (n mod 10)] = n" if "n < 100" for n
    using v2 [OF that] that by simp
  have v3': "dec_val [digit_char (n div 10 div 10), digit_char (n div 10 mod 10), digit_char (n mod 10)] = n"
    if "n < 1000" for n
    using v3 [OF that] that by simp
  show ?thesis
    unfolding rest_text_def h_def [symmetric] m_def [symmetric] c_def [symmetric] two three
    append.simps
    by (subst parse_rest_chars, simp) (use assms b t in \<open>simp add: v2' v3' Let_def\<close>)
qed

lemma parse_year_text:
  assumes "\<bar>y\<bar> < 1000000"
  shows "parse_year (year_text y @ r) = Some (y, r)"
proof -
  have n: "num_at 0 k (digits k n @ r) = Some n" if "n < 10 ^ k" for k n r
    using num_at_digits [of "[]" 0 n k r] that by simp
  have d: "\<exists>c cs. digits (Suc k) n = c # cs \<and> is_digit c" for k n
    using digits_simps [of "Suc k" n] by (cases "digits (Suc k) n") (auto simp del: digits.simps)
  show ?thesis
  proof (cases "0 \<le> y \<and> y \<le> 9999")
    case True
    obtain c cs where c: "digits 4 (nat y) = c # cs" "is_digit c" 
      using d [of 3 "nat y"] by (simp only: Suc_numeral semiring_norm) blast
    then have "c \<noteq> CHR ''+''" "c \<noteq> CHR ''-''" by (auto simp: is_digit_def)
    moreover have "num_at 0 4 (digits 4 (nat y) @ r) = Some (nat y)" by (rule n) (use True in auto)
    moreover have "drop 4 (digits 4 (nat y) @ r) = r" by simp
    ultimately show ?thesis using True c by (simp add: parse_year_def year_text_def)
  next
    case False
    have "num_at 0 6 (digits 6 (nat \<bar>y\<bar>) @ r) = Some (nat \<bar>y\<bar>)" by (rule n) (use assms in auto)
    with False show ?thesis by (auto simp: parse_year_def year_text_def)
  qed
qed

theorem parse_date_toISOString:
  assumes "\<bar>ms\<bar> \<le> 8640000000000000"
  shows "parse_date (toISOString ms) = Some ms"
proof -
  define d where "d = ms div day_ms"
  obtain y doy where y: "year_from 1970 (nat (d mod cycle_days)) = (y, doy)" by fastforce
  obtain mon day where m: "month_from (month_lengths y) 0 doy = (mon, day)" by fastforce
  from year_from_spec [of 0 "nat (d mod cycle_days)" y doy] y obtain k where k: "y = 1970 + k" "nat (d mod cycle_days) = days_to k + doy" "doy < year_days y"
    by auto
  have "days_to k < days_to 400"
  proof -
    have "nat (d mod cycle_days) < 146097" by (simp add: cycle_days_def nat_less_iff)
    with k(2) show ?thesis by (simp add: days_to_cycle)
  qed
  then have k4: "k < 400" using days_to_mono [of 400 k] by (meson not_less)
  have "length (month_lengths y) = 12" by (simp add: month_lengths_def)
  with month_from_spec [OF m] k(3) have mm: "mon < 12" "doy = sum_list (take mon (month_lengths y)) + day"
      "day < month_lengths y ! mon"
    by (auto simp: month_lengths_sum)
  then have d31: "day < 31" using month_lengths_le [of mon y] by simp
  let ?Y = "int y + 400 * (d div cycle_days)" and ?t = "nat (ms mod day_ms)"
  have iso: "toISOString ms = year_text ?Y @ rest_text mon day ?t"
    by (simp add: toISOString_def Let_def d_def [symmetric] y m)
  have t: "?t < 86400000" by (simp add: day_ms_def nat_less_iff)
  have "\<bar>d div cycle_days\<bar> \<le> 700" using assms by (simp add: d_def day_ms_def cycle_days_def)
  then have Y: "\<bar>?Y\<bar> < 1000000" using k4 k(1) by linarith
  have e: "(?Y - 1970) div 400 = d div cycle_days" "nat ((?Y - 1970) mod 400) = k"
    using k4 k(1) by simp_all
  have "(d div cycle_days) * cycle_days + int (days_to k + sum_list (take mon (month_lengths y)) + day) = d"
  proof -
    have "int (days_to k + sum_list (take mon (month_lengths y)) + day) = d mod cycle_days"
      using k(2) mm(2) by (simp add: cycle_days_def)
    then show ?thesis by simp
  qed
  moreover have "d * day_ms + int ?t = ms" by (simp add: d_def day_ms_def)
  ultimately show ?thesis
    unfolding iso parse_date_def
    by (simp add: parse_year_text [OF Y] parse_rest_text [OF mm(1) d31 t] e Let_def k(1) [symmetric])
qed

end
