(* ===== verification/ReleaseFence.thy ===== *)
theory ReleaseFence imports JsonText begin

text \<open>
  Release identities and fences (src/runtime-release.js): \<open>releaseIdentity\<close>,
  \<open>sameReleaseIdentity\<close>, \<open>createReleaseFence\<close>, \<open>assertReleaseFence\<close>. A host gives the
  verified manifest of the running package, the real path of its root, and what
  /proc says of a process.
\<close>

record host =
  manifest :: jv
  package_root :: string
  process_of :: "jv \<Rightarrow> jv"

definition RELEASE_FENCE_SCHEMA :: string where
  "RELEASE_FENCE_SCHEMA = ''opsle.durable-supervisor.runtime-release-fence/v1''"

definition RUNTIME_HELPER_ROLES :: "(string \<times> string) list" where
  "RUNTIME_HELPER_ROLES = [
     (''bin/opsle.js'', ''cli''),
     (''bin/opsle-codex-resume.js'', ''codex-resume''),
     (''bin/opsle-runner-worker.js'', ''runner-worker''),
     (''bin/opsled.js'', ''opsled''),
     (''bin/opsled-worker.js'', ''opsled-worker''),
     (''bin/opsled-wake-worker.js'', ''opsled-wake-worker'')]"

definition releaseIdentity :: "host \<Rightarrow> jv \<Rightarrow> err + jv" where
  "releaseIdentity h role =
     (if \<not> in_strs (map snd RUNTIME_HELPER_ROLES) role then Inl (Err (''unknown runtime helper role: '' @ js_string role))
      else Inr (Obj [
        (''runtime_release_id'', jget ''runtime_release_id'' (manifest h)),
        (''release_root'', Str (package_root h)),
        (''packaged_artifact_sha256'', jget ''packaged_artifact_sha256'' (manifest h)),
        (''runtime_epoch'', jget ''runtime_epoch'' (manifest h)),
        (''helper_role'', role)]))"

definition identity_fields :: "string list" where
  "identity_fields = [''runtime_release_id'', ''release_root'', ''packaged_artifact_sha256'', ''runtime_epoch'', ''helper_role'']"

definition sameReleaseIdentity :: "jv \<Rightarrow> jv \<Rightarrow> bool" where
  "sameReleaseIdentity left right \<longleftrightarrow> \<not> nullish left \<and> \<not> nullish right
     \<and> list_all (\<lambda>k. strict_eq (jget k left) (jget k right)) identity_fields"

definition release_summary :: "string \<Rightarrow> jv \<Rightarrow> string" where
  "release_summary label release = label @ '' root='' @ js_string (coalesce (jget ''release_root'' release) (Str ''unknown''))
     @ '' artifact='' @ js_string (coalesce (jget ''packaged_artifact_sha256'' release) (Str ''unknown''))"

definition releaseConflictMessage :: "jv \<Rightarrow> jv \<Rightarrow> string" where
  "releaseConflictMessage managed invoking =
     release_summary ''managed/current'' managed @ ''; '' @ release_summary ''invoking'' invoking"

definition helper_process :: "jv \<Rightarrow> jv" where
  "helper_process pr = Obj [(''pid'', jget ''pid'' pr), (''start_time_ticks'', jget ''start_time_ticks'' pr),
     (''executable'', jget ''executable'' pr)]"

definition createReleaseFence :: "host \<Rightarrow> jv \<Rightarrow> jv \<Rightarrow> err + jv" where
  "createReleaseFence h role pr =
     guard_err (\<not> truthy (jget ''pid'' pr) \<or> \<not> truthy (jget ''start_time_ticks'' pr) \<or> \<not> truthy (jget ''executable'' pr))
       (Err ''runtime release fence requires exact helper PID/start identity'')
     (bind_err (releaseIdentity h role) (\<lambda>ident.
       Inr (jset ''helper_process'' (helper_process pr)
         (jspread (Obj [(''schema'', Str RELEASE_FENCE_SCHEMA)]) ident))))"

definition assertReleaseFence :: "host \<Rightarrow> jv \<Rightarrow> jv \<Rightarrow> jv \<Rightarrow> err + bool" where
  "assertReleaseFence h fence role pr =
     bind_err (releaseIdentity h role) (\<lambda>expected.
     guard_err (jget ''schema'' fence \<noteq> Str RELEASE_FENCE_SCHEMA
         \<or> \<not> strict_eq (jget ''runtime_release_id'' fence) (jget ''runtime_release_id'' expected)
         \<or> \<not> strict_eq (jget ''release_root'' fence) (jget ''release_root'' expected)
         \<or> \<not> strict_eq (jget ''packaged_artifact_sha256'' fence) (jget ''packaged_artifact_sha256'' expected)
         \<or> \<not> strict_eq (jget ''runtime_epoch'' fence) (jget ''runtime_epoch'' expected)
         \<or> \<not> strict_eq (jget ''helper_role'' fence) role
         \<or> \<not> truthy pr
         \<or> \<not> strict_eq (jpath [''helper_process'', ''pid''] fence) (jget ''pid'' pr)
         \<or> \<not> strict_eq (jpath [''helper_process'', ''start_time_ticks''] fence) (jget ''start_time_ticks'' pr)
         \<or> \<not> strict_eq (jpath [''helper_process'', ''executable''] fence) (jget ''executable'' pr))
       (Err ''runtime release fence mismatch'')
     (Inr True))"

definition fence_accepted :: "host \<Rightarrow> jv \<Rightarrow> jv \<Rightarrow> jv \<Rightarrow> bool" where
  "fence_accepted h fence role pr \<longleftrightarrow> assertReleaseFence h fence role pr = Inr True"

section \<open>Laws\<close>

lemma releaseIdentity_fields:
  assumes "releaseIdentity h role = Inr i"
  shows "jget ''runtime_release_id'' i = jget ''runtime_release_id'' (manifest h)"
    "jget ''release_root'' i = Str (package_root h)"
    "jget ''packaged_artifact_sha256'' i = jget ''packaged_artifact_sha256'' (manifest h)"
    "jget ''runtime_epoch'' i = jget ''runtime_epoch'' (manifest h)"
    "jget ''helper_role'' i = role" "is_str role" "is_obj i"
proof -
  have r: "in_strs (map snd RUNTIME_HELPER_ROLES) role" using assms by (auto simp: releaseIdentity_def split: if_splits)
  with assms have i: "i = Obj [
        (''runtime_release_id'', jget ''runtime_release_id'' (manifest h)),
        (''release_root'', Str (package_root h)),
        (''packaged_artifact_sha256'', jget ''packaged_artifact_sha256'' (manifest h)),
        (''runtime_epoch'', jget ''runtime_epoch'' (manifest h)),
        (''helper_role'', role)]"
    by (simp add: releaseIdentity_def)
  show "jget ''runtime_release_id'' i = jget ''runtime_release_id'' (manifest h)"
    "jget ''release_root'' i = Str (package_root h)"
    "jget ''packaged_artifact_sha256'' i = jget ''packaged_artifact_sha256'' (manifest h)"
    "jget ''runtime_epoch'' i = jget ''runtime_epoch'' (manifest h)"
    "jget ''helper_role'' i = role" "is_obj i"
    unfolding i by simp_all
  show "is_str role" using r by (simp add: in_strs_def)
qed

lemma assertReleaseFence_Inr: "assertReleaseFence h fence role pr = Inr b \<Longrightarrow> b"
  by (auto simp: assertReleaseFence_def err_Inr_iff)

lemma fence_acceptedE:
  assumes "fence_accepted h fence role pr"
  obtains ident where "releaseIdentity h role = Inr ident" "jget ''schema'' fence = Str RELEASE_FENCE_SCHEMA"
    "\<And>k. k \<in> set identity_fields \<Longrightarrow> strict_eq (jget k fence) (jget k ident)"
    "truthy pr" "\<And>k. k \<in> {''pid'', ''start_time_ticks'', ''executable''} \<Longrightarrow>
       strict_eq (jget k (jget ''helper_process'' fence)) (jget k pr)"
proof -
  obtain ident where i: "releaseIdentity h role = Inr ident"
    using assms by (auto simp: fence_accepted_def assertReleaseFence_def err_Inr_iff)
  note releaseIdentity_fields(5) [OF i]
  with assms i show thesis
    by (intro that [OF i]) (auto simp: fence_accepted_def assertReleaseFence_def guard_err_eq_Inr identity_fields_def)
qed

lemma created_fence:
  assumes "createReleaseFence h role pr = Inr fence"
  shows "\<exists>ident. releaseIdentity h role = Inr ident \<and> jget ''schema'' fence = Str RELEASE_FENCE_SCHEMA
    \<and> (\<forall>k\<in>set identity_fields. jget k fence = jget k ident) \<and> jget ''helper_process'' fence = helper_process pr
    \<and> truthy (jget ''pid'' pr)"
proof -
  obtain ident where i: "releaseIdentity h role = Inr ident"
    and f: "fence = jset ''helper_process'' (helper_process pr) (jspread (Obj [(''schema'', Str RELEASE_FENCE_SCHEMA)]) ident)"
    and t: "truthy (jget ''pid'' pr)"
    using assms by (auto simp: createReleaseFence_def err_Inr_iff)
  from i f have "jget ''schema'' fence = Str RELEASE_FENCE_SCHEMA"
      "\<forall>k\<in>set identity_fields. jget k fence = jget k ident" "jget ''helper_process'' fence = helper_process pr"
    by (auto simp: releaseIdentity_def identity_fields_def split: if_splits)
  with i t show ?thesis by blast
qed

text \<open>A fence a helper creates is accepted by the same release for the same role and the same
  process, when the manifest's identity fields and the process's are the strings and numbers
  they are in practice.\<close>

theorem created_fence_accepted:
  assumes "createReleaseFence h role pr = Inr fence"
    and "\<forall>k\<in>{''runtime_release_id'', ''packaged_artifact_sha256'', ''runtime_epoch''}. is_prim (jget k (manifest h))"
    and "\<forall>k\<in>{''pid'', ''start_time_ticks'', ''executable''}. is_prim (jget k pr)"
  shows "assertReleaseFence h fence role pr = Inr True"
proof -
  obtain ident where i: "releaseIdentity h role = Inr ident" "jget ''schema'' fence = Str RELEASE_FENCE_SCHEMA"
    "\<forall>k\<in>set identity_fields. jget k fence = jget k ident" "jget ''helper_process'' fence = helper_process pr"
    "truthy (jget ''pid'' pr)"
    using created_fence [OF assms(1)] by blast
  note f = releaseIdentity_fields [OF i(1)]
  have "truthy pr" using i(5) by (cases pr) auto
  moreover have "is_prim role" using f(6) by (cases role) auto
  ultimately show ?thesis
    using i f assms(2,3)
    by (simp add: assertReleaseFence_def identity_fields_def helper_process_def strict_eq_def)
qed

text \<open>A fence is accepted only by the release that it names, for the role and the process
  it was created for: a helper of another release, another role, or a process id that was
  reused is refused.\<close>

theorem fence_binds_release_role_and_process:
  assumes "createReleaseFence h role pr = Inr fence" "assertReleaseFence h' fence role' pr' = Inr b"
  shows "role' = role \<and> package_root h' = package_root h
    \<and> (\<forall>k\<in>{''runtime_release_id'', ''packaged_artifact_sha256'', ''runtime_epoch''}.
         jget k (manifest h') = jget k (manifest h))
    \<and> (\<forall>k\<in>{''pid'', ''start_time_ticks'', ''executable''}. jget k pr' = jget k pr)"
proof -
  have "fence_accepted h' fence role' pr'"
    using assms(2) assertReleaseFence_Inr by (auto simp: fence_accepted_def)
  then obtain j where j: "releaseIdentity h' role' = Inr j"
    "\<And>k. k \<in> set identity_fields \<Longrightarrow> strict_eq (jget k fence) (jget k j)"
    "\<And>k. k \<in> {''pid'', ''start_time_ticks'', ''executable''} \<Longrightarrow>
       strict_eq (jget k (jget ''helper_process'' fence)) (jget k pr')"
    by (rule fence_acceptedE) blast
  obtain i where i: "releaseIdentity h role = Inr i"
    "\<forall>k\<in>set identity_fields. jget k fence = jget k i" "jget ''helper_process'' fence = helper_process pr"
    using created_fence [OF assms(1)] by blast
  have e: "jget k i = jget k j" if "k \<in> set identity_fields" for k
    using that i(2) j(2) strict_eq_imp_eq by metis
  have p: "jget k pr' = jget k pr" if "k \<in> {''pid'', ''start_time_ticks'', ''executable''}" for k
    using j(3) [OF that] that i(3) by (auto simp: helper_process_def strict_eq_def)
  note fi = releaseIdentity_fields [OF i(1)] and fj = releaseIdentity_fields [OF j(1)]
  have "role' = role" using e [of "''helper_role''"] fi(5) fj(5) by (simp add: identity_fields_def)
  moreover have "package_root h' = package_root h"
    using e [of "''release_root''"] fi(2) fj(2) by (simp add: identity_fields_def)
  moreover have "\<forall>k\<in>{''runtime_release_id'', ''packaged_artifact_sha256'', ''runtime_epoch''}.
         jget k (manifest h') = jget k (manifest h)"
    using e [of "''runtime_release_id''"] e [of "''packaged_artifact_sha256''"] e [of "''runtime_epoch''"] fi fj
    by (simp add: identity_fields_def)
  ultimately show ?thesis using p by blast
qed

section \<open>Witnesses\<close>

definition demo_host :: host where
  "demo_host = \<lparr>manifest = Obj [(''runtime_release_id'', Str ''r1''), (''packaged_artifact_sha256'', Str ''d1''),
       (''runtime_epoch'', Str ''e1'')],
     package_root = ''/opt/opsle'',
     process_of = (\<lambda>pid. if pid = Num 7 then Obj [(''pid'', Num 7), (''start_time_ticks'', Str ''100''),
       (''executable'', Str ''/usr/bin/node'')] else Null)\<rparr>"

definition demo_fence :: jv where
  "demo_fence = (case createReleaseFence demo_host (Str ''opsled-worker'') (process_of demo_host (Num 7)) of
     Inr f \<Rightarrow> f | Inl _ \<Rightarrow> Undef)"

lemma demo_fence: "createReleaseFence demo_host (Str ''opsled-worker'') (process_of demo_host (Num 7)) = Inr demo_fence"
proof -
  have "\<not> isl (createReleaseFence demo_host (Str ''opsled-worker'') (process_of demo_host (Num 7)))" by code_simp
  then show ?thesis by (auto simp: demo_fence_def isl_def split: sum.splits)
qed

theorem created_fence_accepted_witness:
  "assertReleaseFence demo_host demo_fence (Str ''opsled-worker'') (process_of demo_host (Num 7)) = Inr True"
  by (rule created_fence_accepted [OF demo_fence]) (simp_all add: demo_host_def)

theorem fence_binds_release_role_and_process_witness:
  "assertReleaseFence demo_host demo_fence (Str ''opsled-worker'') (process_of demo_host (Num 7)) = Inr True
    \<and> package_root demo_host = ''/opt/opsle''"
proof -
  have "assertReleaseFence demo_host demo_fence (Str ''opsled-worker'') (process_of demo_host (Num 7)) = Inr True"
    by code_simp
  with fence_binds_release_role_and_process [OF demo_fence this] show ?thesis by (simp add: demo_host_def)
qed

end
