(* ===== verification/Lease.thy ===== *)
theory Lease imports Events Dates ReleaseFence Register begin

text \<open>
  The activation lease of a supervisor generation (src/wakeup.js):
  \<open>acquireActivationLease\<close>, \<open>releaseActivationLease\<close>, \<open>decisionFenceCurrent\<close> and what
  they call. One file holds the lease; it is replaced by compare-and-swap, and every new
  holder gets the next fencing token.
\<close>

definition ACTIVATION_LEASE_SCHEMA :: string where
  "ACTIVATION_LEASE_SCHEMA = ''opsle.durable-supervisor.activation-lease/v1''"

definition wake_base :: "string \<Rightarrow> string" where
  "wake_base root = root @ ''/.opsle/wake''"

record wake_paths =
  wp_requests :: string
  wp_deliveries :: string
  wp_sessionBinding :: string
  wp_consumptions :: string
  wp_activationLease :: string
  wp_activationDecisions :: string
  wp_transportAttempts :: string

definition wakePaths :: "string \<Rightarrow> wake_paths" where
  "wakePaths root = \<lparr>
     wp_requests = wake_base root @ ''/requests'',
     wp_deliveries = wake_base root @ ''/deliveries'',
     wp_sessionBinding = wake_base root @ ''/codex-session-binding.json'',
     wp_consumptions = wake_base root @ ''/consumptions'',
     wp_activationLease = wake_base root @ ''/activation-lease.json'',
     wp_activationDecisions = wake_base root @ ''/activation-decisions'',
     wp_transportAttempts = wake_base root @ ''/transport-attempts''\<rparr>"

lemma wakePaths_select [simp, path_simps]:
  "wp_requests (wakePaths root) = root @ ''/.opsle/wake/requests''"
  "wp_deliveries (wakePaths root) = root @ ''/.opsle/wake/deliveries''"
  "wp_sessionBinding (wakePaths root) = root @ ''/.opsle/wake/codex-session-binding.json''"
  "wp_consumptions (wakePaths root) = root @ ''/.opsle/wake/consumptions''"
  "wp_activationLease (wakePaths root) = root @ ''/.opsle/wake/activation-lease.json''"
  "wp_activationDecisions (wakePaths root) = root @ ''/.opsle/wake/activation-decisions''"
  "wp_transportAttempts (wakePaths root) = root @ ''/.opsle/wake/transport-attempts''"
  by (simp_all add: wakePaths_def wake_base_def)

definition lease_file :: "string \<Rightarrow> string" where
  "lease_file root = wp_activationLease (wakePaths root)"

definition requestPath :: "string \<Rightarrow> jv \<Rightarrow> string" where
  "requestPath root eventId = json_in (wp_requests (wakePaths root)) (js_string eventId)"

definition receiptPath :: "string \<Rightarrow> jv \<Rightarrow> string" where
  "receiptPath root eventId = json_in (wp_deliveries (wakePaths root)) (js_string eventId)"

definition consumptionPath :: "string \<Rightarrow> jv \<Rightarrow> string" where
  "consumptionPath root eventId = json_in (wp_consumptions (wakePaths root)) (js_string eventId)"

definition activationDecisionPath :: "string \<Rightarrow> jv \<Rightarrow> string" where
  "activationDecisionPath root eventId = json_in (wp_activationDecisions (wakePaths root)) (js_string eventId)"

definition transportAttemptPath :: "string \<Rightarrow> jv \<Rightarrow> string" where
  "transportAttemptPath root attemptId = json_in (wp_transportAttempts (wakePaths root)) (js_string attemptId)"

section \<open>Owners\<close>

definition sameProcess :: "jv \<Rightarrow> jv \<Rightarrow> bool" where
  "sameProcess left right \<longleftrightarrow> truthy left \<and> truthy right
     \<and> strict_eq (jget ''pid'' left) (jget ''pid'' right)
     \<and> strict_eq (jget ''start_time_ticks'' left) (jget ''start_time_ticks'' right)
     \<and> strict_eq (jget ''executable'' left) (jget ''executable'' right)"

definition leaseOwner :: "jv \<Rightarrow> jv" where
  "leaseOwner activationOwner = (if truthy activationOwner then activationOwner else Null)"

definition sameActivationOwner :: "jv \<Rightarrow> jv \<Rightarrow> bool" where
  "sameActivationOwner left right \<longleftrightarrow> canonicalJson (coalesce left Null) = canonicalJson (coalesce right Null)"

definition activationOwnerCurrent :: "host \<Rightarrow> jv \<Rightarrow> bool" where
  "activationOwnerCurrent h owner =
     (if \<not> truthy owner \<or> \<not> sameProcess (jget ''process'' owner) (process_of h (jpath [''process'', ''pid''] owner)) then False
      else if \<not> in_strs [''opsled'', ''opsled-wake-worker''] (jget ''kind'' owner) then True
      else if jget ''schema'' owner \<noteq> Str ''opsle.durable-supervisor.opsled-wake-owner/v1''
          \<or> \<not> is_str (jget ''service_id'' owner) \<or> \<not> safe_int (jget ''service_generation'' owner) then False
      else fence_accepted h (jget ''release_fence'' owner)
        (Str (if jget ''kind'' owner = Str ''opsled-wake-worker'' then ''opsled-wake-worker'' else ''opsled-worker''))
        (jget ''process'' owner))"

definition leaseExpired :: "jv \<Rightarrow> int \<Rightarrow> bool" where
  "leaseExpired lease nowMs \<longleftrightarrow> (case parse_date (js_string (coalesce (jget ''expires_at'' lease) (Str []))) of
     None \<Rightarrow> True | Some expiry \<Rightarrow> expiry \<le> nowMs)"

text \<open>\<open>Number(v)\<close>, \<open>None\<close> for \<open>NaN\<close>; of strings, the decimal integers.\<close>

definition str_number :: "string \<Rightarrow> int option" where
  "str_number s = (let t = trim s in
     if t = [] then Some 0
     else if list_all is_digit t then Some (int (dec_val t))
     else if hd t = CHR ''-'' \<and> tl t \<noteq> [] \<and> list_all is_digit (tl t) then Some (- int (dec_val (tl t)))
     else None)"

fun js_number :: "jv \<Rightarrow> int option" where
  "js_number Undef = None"
| "js_number Null = Some 0"
| "js_number (JBool b) = Some (if b then 1 else 0)"
| "js_number (Num n) = Some n"
| "js_number v = str_number (js_string v)"

definition number_or_zero :: "jv \<Rightarrow> int" where
  "number_or_zero v = (case js_number v of None \<Rightarrow> 0 | Some n \<Rightarrow> n)"

lemma number_or_zero_Num [simp]: "number_or_zero (Num n) = n" "number_or_zero Undef = 0" "number_or_zero Null = 0"
  by (simp_all add: number_or_zero_def)

section \<open>acquireActivationLease\<close>

definition lease_held :: "jv \<Rightarrow> jv \<Rightarrow> int \<Rightarrow> bool" where
  "lease_held supervisor current nowMs \<longleftrightarrow> jget ''schema'' current = Str ACTIVATION_LEASE_SCHEMA
     \<and> jget ''status'' current = Str ''OWNED''
     \<and> strict_eq (jget ''supervisor_id'' current) (jget ''supervisor_id'' supervisor)
     \<and> strict_eq (jget ''supervisor_generation'' current) (jget ''generation'' supervisor)
     \<and> \<not> leaseExpired current nowMs"

definition next_lease :: "jv \<Rightarrow> jv \<Rightarrow> jv \<Rightarrow> jv \<Rightarrow> string \<Rightarrow> int \<Rightarrow> int \<Rightarrow> jv" where
  "next_lease supervisor current eventId owner leaseId nowMs ttlMs = Obj [
     (''schema'', Str ACTIVATION_LEASE_SCHEMA),
     (''lease_id'', Str leaseId),
     (''event_id'', eventId),
     (''supervisor_id'', jget ''supervisor_id'' supervisor),
     (''supervisor_generation'', jget ''generation'' supervisor),
     (''fencing_token'', Num (number_or_zero (jget ''fencing_token'' current) + 1)),
     (''owner'', owner),
     (''status'', Str ''OWNED''),
     (''acquired_at'', Str (toISOString nowMs)),
     (''expires_at'', Str (toISOString (nowMs + ttlMs))),
     (''released_at'', Null)]"

fun cas_reason :: "cas_result \<Rightarrow> string" where
  "cas_reason LockBusy = ''cas-lock-busy''"
| "cas_reason (ContentChanged c) = ''cas-content-changed''"
| "cas_reason (Swapped a b) = []"

definition busy_result :: "string \<Rightarrow> jv" where
  "busy_result reason = Obj [(''acquired'', JBool False), (''classification'', Str ''busy''), (''reason'', Str reason)]"

fun lease_loop :: "nat \<Rightarrow> string \<Rightarrow> jv \<Rightarrow> jv \<Rightarrow> jv \<Rightarrow> int \<Rightarrow> int \<Rightarrow> jv wio" where
  "lease_loop 0 root supervisor eventId owner nowMs ttlMs = ret (busy_result ''activation-lease-cas-raced'')"
| "lease_loop (Suc n) root supervisor eventId owner nowMs ttlMs =
     bind_io (readOptional (lease_file root)) (\<lambda>current.
     if lease_held supervisor current nowMs then
       (if strict_eq (jget ''event_id'' current) eventId \<and> sameActivationOwner (jget ''owner'' current) owner
        then ret (Obj [(''acquired'', JBool True), (''duplicate'', JBool True), (''lease'', current)])
        else ret (jset ''lease'' current (busy_result ''another-activation-lease-is-current'')))
     else
       bind_io (id_new ''activation-lease'') (\<lambda>lid.
       let next = next_lease supervisor current eventId owner lid nowMs ttlMs in
       bind_io (if truthy current then bind_io (sha256 (canonicalJson current)) (\<lambda>d. ret (Some d)) else ret None) (\<lambda>expected.
       bind_io (atomicCompareAndSwapJson (lease_file root) expected next) (\<lambda>cas.
       if is_swapped cas then
         ret (Obj [(''acquired'', JBool True), (''duplicate'', JBool False), (''takeover'', JBool (truthy current)), (''lease'', next)])
       else if cas_reason cas \<noteq> ''cas-content-changed'' then ret (busy_result (cas_reason cas))
       else lease_loop n root supervisor eventId owner nowMs ttlMs))))"

definition acquireActivationLease :: "host \<Rightarrow> string \<Rightarrow> jv \<Rightarrow> jv \<Rightarrow> int \<Rightarrow> int \<Rightarrow> jv wio" where
  "acquireActivationLease h root eventId activationOwner ttlMs nowMs =
     guard_io (\<not> is_str eventId \<or> \<not> truthy eventId) (Err ''activation lease requires event identity'') (
     guard_io (\<not> pos_safe (Num ttlMs)) (Err ''activation lease requires positive TTL'') (
     bind_io (readJson (p_supervisor (paths root))) (\<lambda>supervisor.
     let owner = leaseOwner activationOwner in
     if \<not> activationOwnerCurrent h owner then
       ret (Obj [(''acquired'', JBool False), (''classification'', Str ''stale-owner''),
         (''reason'', Str ''opsled-wake-owner-process-dead-or-reused'')])
     else lease_loop 2 root supervisor eventId owner nowMs ttlMs)))"

section \<open>releaseActivationLease\<close>

definition lease_fence_matches :: "jv \<Rightarrow> jv \<Rightarrow> bool" where
  "lease_fence_matches current lease \<longleftrightarrow> list_all (\<lambda>k. strict_eq (jget k current) (jget k lease))
     [''lease_id'', ''fencing_token'', ''supervisor_id'', ''supervisor_generation'']"

definition released_lease :: "jv \<Rightarrow> int \<Rightarrow> jv" where
  "released_lease current nowMs = jset ''released_at'' (Str (toISOString nowMs)) (jset ''status'' (Str ''RELEASED'') current)"

definition releaseActivationLease :: "string \<Rightarrow> jv \<Rightarrow> int \<Rightarrow> jv wio" where
  "releaseActivationLease root lease nowMs =
     bind_io (readOptional (lease_file root)) (\<lambda>current.
     if \<not> truthy current then ret (Obj [(''released'', JBool False), (''reason'', Str ''activation-lease-missing'')])
     else if \<not> lease_fence_matches current lease then
       ret (Obj [(''released'', JBool False), (''reason'', Str ''activation-lease-fence-mismatch''), (''lease'', current)])
     else if jget ''status'' current = Str ''RELEASED'' then
       ret (Obj [(''released'', JBool True), (''duplicate'', JBool True), (''lease'', current)])
     else
       bind_io (sha256 (canonicalJson current)) (\<lambda>expected.
       let next = released_lease current nowMs in
       bind_io (atomicCompareAndSwapJson (lease_file root) (Some expected) next) (\<lambda>cas.
       if is_swapped cas then ret (Obj [(''released'', JBool True), (''duplicate'', JBool False), (''lease'', next)])
       else ret (Obj [(''released'', JBool False), (''reason'', Str (cas_reason cas))]))))"

section \<open>decisionFenceCurrent\<close>

definition fence_holds :: "host \<Rightarrow> jv \<Rightarrow> jv \<Rightarrow> jv \<Rightarrow> int \<Rightarrow> bool" where
  "fence_holds h supervisor current lease nowMs \<longleftrightarrow>
     jget ''schema'' current = Str ACTIVATION_LEASE_SCHEMA
     \<and> jget ''status'' current = Str ''OWNED''
     \<and> strict_eq (jget ''expires_at'' current) (jget ''expires_at'' lease)
     \<and> \<not> leaseExpired current nowMs
     \<and> strict_eq (jget ''lease_id'' current) (jget ''lease_id'' lease)
     \<and> strict_eq (jget ''fencing_token'' current) (jget ''fencing_token'' lease)
     \<and> strict_eq (jget ''event_id'' current) (jget ''event_id'' lease)
     \<and> strict_eq (jget ''supervisor_id'' current) (jget ''supervisor_id'' lease)
     \<and> strict_eq (jget ''supervisor_generation'' current) (jget ''supervisor_generation'' lease)
     \<and> strict_eq (jget ''supervisor_id'' current) (jget ''supervisor_id'' supervisor)
     \<and> strict_eq (jget ''supervisor_generation'' current) (jget ''generation'' supervisor)
     \<and> sameActivationOwner (jget ''owner'' current) (jget ''owner'' lease)
     \<and> activationOwnerCurrent h (jget ''owner'' current)"

definition decisionFenceCurrent :: "host \<Rightarrow> string \<Rightarrow> jv \<Rightarrow> int \<Rightarrow> bool wio" where
  "decisionFenceCurrent h root lease nowMs =
     bind_io (readJson (p_supervisor (paths root))) (\<lambda>supervisor.
     bind_io (readOptional (lease_file root)) (\<lambda>current.
     ret (fence_holds h supervisor current lease nowMs)))"


section \<open>What acquisition does\<close>

text \<open>The lease on disk, \<open>null\<close> when there is none.\<close>

definition lease_on_disk :: "string \<Rightarrow> world \<Rightarrow> err + jv" where
  "lease_on_disk root w =
     (if bytes_at w (lease_file root) = None then Inr Null else parse_object (lease_file root) (bytes_at w (lease_file root)))"

definition supervisor_on_disk :: "string \<Rightarrow> world \<Rightarrow> err + jv" where
  "supervisor_on_disk root w = parse_object (p_supervisor (paths root)) (bytes_at w (p_supervisor (paths root)))"

lemma lease_on_disk_same_store: "same_store w w1 \<Longrightarrow> lease_on_disk root w1 = lease_on_disk root w"
  by (simp add: lease_on_disk_def same_store_def)

lemma lease_read: "readOptional (lease_file root) w = (lease_on_disk root w, w)"
  by (simp add: lease_on_disk_def readOptional_run)

lemma lease_on_disk_cases: "lease_on_disk root w = Inr c \<Longrightarrow> c = Null \<or> is_obj c \<and> jpure c"
  by (auto simp: lease_on_disk_def Let_def split: if_splits dest: parse_object_obj parse_object_pure)

definition lease_granted :: "string \<Rightarrow> jv \<Rightarrow> jv \<Rightarrow> jv \<Rightarrow> int \<Rightarrow> int \<Rightarrow> world \<Rightarrow> jv \<Rightarrow> world \<Rightarrow> bool" where
  "lease_granted root supervisor eventId owner nowMs ttlMs w r w' \<longleftrightarrow>
     (\<exists>current lid. lease_on_disk root w = Inr current \<and> \<not> lease_held supervisor current nowMs
        \<and> jget ''duplicate'' r = JBool False
        \<and> jget ''lease'' r = next_lease supervisor current eventId owner lid nowMs ttlMs
        \<and> bytes_at w' (lease_file root) = Some (canonicalJson (jget ''lease'' r))
        \<and> (\<forall>p. p \<noteq> lease_file root \<longrightarrow> bytes_at w' p = bytes_at w p))"

definition lease_repeated :: "string \<Rightarrow> jv \<Rightarrow> jv \<Rightarrow> jv \<Rightarrow> int \<Rightarrow> world \<Rightarrow> jv \<Rightarrow> bool" where
  "lease_repeated root supervisor eventId owner nowMs w r \<longleftrightarrow>
     lease_on_disk root w = Inr (jget ''lease'' r) \<and> lease_held supervisor (jget ''lease'' r) nowMs
     \<and> strict_eq (jget ''event_id'' (jget ''lease'' r)) eventId \<and> sameActivationOwner (jget ''owner'' (jget ''lease'' r)) owner"

lemma busy_result_simps [simp]:
  "jget ''acquired'' (busy_result s) = JBool False" "is_obj (busy_result s)"
  by (simp_all add: busy_result_def)

lemma lease_result_same_store:
  assumes "same_store w w1"
  shows "lease_granted root sv ev ow n t w1 r w' = lease_granted root sv ev ow n t w r w'"
    "lease_repeated root sv ev ow n w1 r = lease_repeated root sv ev ow n w r"
  using lease_on_disk_same_store [OF assms, of root] assms
  by (simp_all add: lease_granted_def lease_repeated_def same_store_def)

lemma lease_loop_result:
  assumes "lease_loop n root supervisor eventId owner nowMs ttlMs w = (res, w')"
  shows "case res of Inl e \<Rightarrow> same_store w w'
    | Inr r \<Rightarrow> (if jget ''acquired'' r = JBool True then
          lease_granted root supervisor eventId owner nowMs ttlMs w r w'
          \<or> lease_repeated root supervisor eventId owner nowMs w r \<and> same_store w w'
        else same_store w w')"
  using assms
proof (induction n arbitrary: w)
  case 0
  then show ?case by auto
next
  case (Suc n)
  let ?p = "lease_file root"
  show ?case
  proof (cases "lease_on_disk root w")
    case (Inl e)
    with Suc.prems have "res = Inl e" "w' = w" by (simp_all add: bind_io_def lease_read)
    then show ?thesis by simp
  next
    case (Inr current)
    show ?thesis
    proof (cases "lease_held supervisor current nowMs")
      case True
      with Suc.prems Inr show ?thesis
        by (auto simp: bind_io_def lease_read lease_repeated_def split: if_splits)
    next
      case False
      define w1 where "w1 = w\<lparr>drawn := Suc (drawn w)\<rparr>"
      define lid where "lid = ''activation-lease-'' @ uuids w (drawn w)"
      define nl where "nl = next_lease supervisor current eventId owner lid nowMs ttlMs"
      define ex where "ex = (if truthy current then Some (digest w (canonicalJson current)) else None)"
      have s: "same_store w w1" by (simp add: w1_def)
      have run: "lease_loop (Suc n) root supervisor eventId owner nowMs ttlMs w =
         bind_io (atomicCompareAndSwapJson ?p ex nl) (\<lambda>cas.
           if is_swapped cas then
             ret (Obj [(''acquired'', JBool True), (''duplicate'', JBool False), (''takeover'', JBool (truthy current)), (''lease'', nl)])
           else if cas_reason cas \<noteq> ''cas-content-changed'' then ret (busy_result (cas_reason cas))
           else lease_loop n root supervisor eventId owner nowMs ttlMs) w1"
        using Inr False
        by (simp add: bind_io_def [of "readOptional _"] lease_read Let_def w1_def lid_def nl_def ex_def
            bind_io_def [of "if _ then _ else _"] cong: if_cong)
      show ?thesis
      proof (cases rule: cas_json_cases [of ?p ex nl w1])
        case swapped
        then have "res = Inr (Obj [(''acquired'', JBool True), (''duplicate'', JBool False), (''takeover'', JBool (truthy current)), (''lease'', nl)])"
          and w': "w' = put_file ?p (canonicalJson nl) w1"
          using Suc.prems unfolding run by (auto simp: bind_io_def)
        then show ?thesis using Inr False s
          by (auto simp: lease_granted_def nl_def same_store_def)
      next
        case busy
        then have "res = Inr (busy_result ''cas-lock-busy'')" "w' = w1"
          using Suc.prems unfolding run by (auto simp: bind_io_def)
        with s show ?thesis by simp
      next
        case changed
        then have "lease_loop n root supervisor eventId owner nowMs ttlMs w1 = (res, w')"
          using Suc.prems unfolding run by (simp add: bind_io_def)
        from Suc.IH [OF this] show ?thesis
          by (auto simp: lease_result_same_store [OF s] intro: same_store_trans [OF s] split: sum.splits if_splits)
      qed
    qed
  qed
qed


lemma acquireActivationLease_result:
  assumes "acquireActivationLease h root eventId activationOwner ttlMs nowMs w = (res, w')"
  shows "case res of Inl e \<Rightarrow> same_store w w'
    | Inr r \<Rightarrow> (if jget ''acquired'' r = JBool True then
          \<exists>sv. supervisor_on_disk root w = Inr sv \<and> is_str eventId \<and> 0 < ttlMs
            \<and> activationOwnerCurrent h (leaseOwner activationOwner)
            \<and> (lease_granted root sv eventId (leaseOwner activationOwner) nowMs ttlMs w r w'
               \<or> lease_repeated root sv eventId (leaseOwner activationOwner) nowMs w r \<and> same_store w w')
        else same_store w w')"
proof (cases "is_str eventId \<and> truthy eventId \<and> pos_safe (Num ttlMs)")
  case False
  with assms have "(\<exists>e. res = Inl e) \<and> w' = w"
    by (auto simp: acquireActivationLease_def guard_io_def split: if_splits)
  then show ?thesis by auto
next
  case args: True
  show ?thesis
  proof (cases "supervisor_on_disk root w")
    case (Inl e)
    with assms args have "res = Inl e" "w' = w"
      by (simp_all add: acquireActivationLease_def bind_readJson supervisor_on_disk_def)
    then show ?thesis by simp
  next
    case (Inr sv)
    show ?thesis
    proof (cases "activationOwnerCurrent h (leaseOwner activationOwner)")
      case False
      with assms args Inr show ?thesis
        by (auto simp: acquireActivationLease_def bind_readJson supervisor_on_disk_def)
    next
      case True
      with assms args Inr have "lease_loop 2 root sv eventId (leaseOwner activationOwner) nowMs ttlMs w = (res, w')"
        by (simp add: acquireActivationLease_def bind_readJson supervisor_on_disk_def)
      from lease_loop_result [OF this] True Inr args show ?thesis
        by (auto simp: pos_safe_def split: sum.splits)
    qed
  qed
qed

text \<open>The new lease as it is read back.\<close>

lemma next_lease_fields [simp]:
  "jget ''schema'' (next_lease sv c ev ow lid n ttl) = Str ACTIVATION_LEASE_SCHEMA"
  "jget ''lease_id'' (next_lease sv c ev ow lid n ttl) = Str lid"
  "jget ''event_id'' (next_lease sv c ev ow lid n ttl) = ev"
  "jget ''supervisor_id'' (next_lease sv c ev ow lid n ttl) = jget ''supervisor_id'' sv"
  "jget ''supervisor_generation'' (next_lease sv c ev ow lid n ttl) = jget ''generation'' sv"
  "jget ''fencing_token'' (next_lease sv c ev ow lid n ttl) = Num (number_or_zero (jget ''fencing_token'' c) + 1)"
  "jget ''owner'' (next_lease sv c ev ow lid n ttl) = ow"
  "jget ''status'' (next_lease sv c ev ow lid n ttl) = Str ''OWNED''"
  "jget ''expires_at'' (next_lease sv c ev ow lid n ttl) = Str (toISOString (n + ttl))"
  "is_obj (next_lease sv c ev ow lid n ttl)"
  by (simp_all add: next_lease_def)

lemma jwf_next_lease: "jwf sv \<Longrightarrow> jwf ev \<Longrightarrow> jwf ow \<Longrightarrow> jwf (next_lease sv c ev ow lid n ttl)"
  by (simp add: next_lease_def jwf_jget ACTIVATION_LEASE_SCHEMA_def)

lemma lease_on_disk_written:
  "bytes_at w (lease_file root) = Some (canonicalJson v) \<Longrightarrow> jwf v \<Longrightarrow> is_obj v \<Longrightarrow> lease_on_disk root w = Inr (durable v)"
  by (simp add: lease_on_disk_def)

lemma supervisor_not_lease: "p_supervisor (paths root) \<noteq> lease_file root"
  by (simp add: lease_file_def)

lemma not_expired_new:
  "\<bar>n + ttl\<bar> \<le> 8640000000000000 \<Longrightarrow> 0 < ttl \<Longrightarrow> \<not> leaseExpired (next_lease sv c ev ow lid n ttl) n"
  by (simp add: leaseExpired_def parse_date_toISOString)

lemma new_lease_passes:
  assumes "activationOwnerCurrent h ow" "durable ow = ow" "jwf sv" "jwf ow" "jwf ev" "is_prim ev"
    and "is_prim (jget ''supervisor_id'' sv)" "is_prim (jget ''generation'' sv)"
    and "\<bar>n + ttl\<bar> \<le> 8640000000000000" "0 < ttl"
  shows "fence_holds h sv (durable (next_lease sv c ev ow lid n ttl)) (next_lease sv c ev ow lid n ttl) n"
proof -
  let ?l = "next_lease sv c ev ow lid n ttl"
  have d: "jget k (durable ?l) = durable (jget k ?l)" for k
    using jwf_next_lease [OF assms(3,5,4)] by (simp add: jget_durable)
  have "\<not> leaseExpired (durable ?l) n"
    using not_expired_new [OF assms(9,10)] d [of "''expires_at''"] unfolding leaseExpired_def by simp
  with assms show ?thesis by (simp add: fence_holds_def d) (simp add: strict_eq_def sameActivationOwner_def)
qed

section \<open>Properties\<close>


text \<open>Asking again for the lease one holds, for the same event and owner and before it
  expires, returns the lease on disk and writes nothing.\<close>

theorem lease_reentrant:
  assumes "supervisor_on_disk root w = Inr sv" "lease_on_disk root w = Inr current" "lease_held sv current nowMs"
    and "strict_eq (jget ''event_id'' current) (Str (c # cs))"
    and "sameActivationOwner (jget ''owner'' current) (leaseOwner activationOwner)"
    and "activationOwnerCurrent h (leaseOwner activationOwner)" "0 < ttlMs" "ttlMs \<le> max_safe"
  shows "acquireActivationLease h root (Str (c # cs)) activationOwner ttlMs nowMs w
    = (Inr (Obj [(''acquired'', JBool True), (''duplicate'', JBool True), (''lease'', current)]), w)"
proof -
  have "lease_loop 2 root sv (Str (c # cs)) (leaseOwner activationOwner) nowMs ttlMs w
      = (Inr (Obj [(''acquired'', JBool True), (''duplicate'', JBool True), (''lease'', current)]), w)"
    using assms(2-5) by (simp add: numeral_2_eq_2 bind_io_def lease_read)
  then show ?thesis
    using assms(1,6-8) by (simp add: acquireActivationLease_def bind_readJson supervisor_on_disk_def pos_safe_Num)
qed

text \<open>A freshly granted lease passes the decision fence at once, carries a fencing token one
  above the lease it replaced, and from then on no lease with another fencing token passes:
  the previous holder can no longer claim a decision.\<close>

theorem lease_grant_fences_out_predecessor:
  assumes "acquireActivationLease h root eventId activationOwner ttlMs nowMs w = (Inr r, w')"
    and "jget ''acquired'' r = JBool True" "jget ''duplicate'' r = JBool False"
    and "lease_on_disk root w = Inr current" "supervisor_on_disk root w = Inr sv"
    and "is_prim (jget ''supervisor_id'' sv)" "is_prim (jget ''generation'' sv)"
    and "jwf activationOwner" "durable (leaseOwner activationOwner) = leaseOwner activationOwner"
    and "\<bar>nowMs + ttlMs\<bar> \<le> 8640000000000000" "\<not> lease_repeated root sv eventId (leaseOwner activationOwner) nowMs w r"
  shows "jget ''fencing_token'' (jget ''lease'' r) = Num (number_or_zero (jget ''fencing_token'' current) + 1)
    \<and> decisionFenceCurrent h root (jget ''lease'' r) nowMs w' = (Inr True, w')
    \<and> (\<forall>old t. jget ''fencing_token'' old \<noteq> jget ''fencing_token'' (jget ''lease'' r)
         \<longrightarrow> decisionFenceCurrent h root old t w' = (Inr False, w'))"
proof -
  from acquireActivationLease_result [OF assms(1)] assms(2,5,11) have g:
    "is_str eventId" "0 < ttlMs" "activationOwnerCurrent h (leaseOwner activationOwner)"
    "lease_granted root sv eventId (leaseOwner activationOwner) nowMs ttlMs w r w'" by auto
  then obtain lid where l: "jget ''lease'' r = next_lease sv current eventId (leaseOwner activationOwner) lid nowMs ttlMs"
    and b: "bytes_at w' (lease_file root) = Some (canonicalJson (jget ''lease'' r))"
    and fr: "\<forall>p. p \<noteq> lease_file root \<longrightarrow> bytes_at w' p = bytes_at w p"
    using assms(4) by (auto simp: lease_granted_def)
  let ?l = "jget ''lease'' r"
  have j: "jwf sv" "jwf eventId" "jwf (leaseOwner activationOwner)"
    using assms(5,8) g(1) by (auto simp: supervisor_on_disk_def leaseOwner_def dest: parse_object_jwf) (cases eventId; simp)
  have wf: "jwf ?l" unfolding l by (rule jwf_next_lease [OF j])
  have disk: "lease_on_disk root w' = Inr (durable ?l)"
    by (rule lease_on_disk_written [OF b wf]) (simp add: l)
  have sv: "supervisor_on_disk root w' = Inr sv"
    using assms(5) fr supervisor_not_lease [of root] by (simp add: supervisor_on_disk_def)
  have d: "jget k (durable ?l) = durable (jget k ?l)" for k using wf by (simp add: jget_durable l)
  have ev: "is_prim eventId" using g(1) by (cases eventId) auto
  have run: "decisionFenceCurrent h root old t w' = (Inr (fence_holds h sv (durable ?l) old t), w')" for old t
    using disk sv by (simp add: decisionFenceCurrent_def bind_readJson bind_io_def [of "readOptional _"] lease_read
        supervisor_on_disk_def)
  have "fence_holds h sv (durable ?l) ?l nowMs"
    unfolding l by (intro new_lease_passes j g(2,3) assms(6,7,9,10) ev)
  moreover have "\<not> fence_holds h sv (durable ?l) old t" if "jget ''fencing_token'' old \<noteq> jget ''fencing_token'' ?l" for old t
    using that by (auto simp: fence_holds_def d) (auto simp: l)
  ultimately show ?thesis by (simp add: run l)
qed


text \<open>A lease that was released no longer passes the decision fence, whoever presents it, and
  only the holder whose lease id, token and generation match can release it.\<close>

theorem released_lease_is_fenced_out:
  assumes "releaseActivationLease root lease nowMs w = (Inr r, w')"
    and "jget ''released'' r = JBool True" "lease_on_disk root w = Inr current"
    and "supervisor_on_disk root w = Inr sv"
  shows "lease_fence_matches current lease \<and> decisionFenceCurrent h root any t w' = (Inr False, w')"
proof -
  have m: "truthy current" "lease_fence_matches current lease"
    using assms(1,2,3) by (auto simp: releaseActivationLease_def bind_io_def [of "readOptional _"] lease_read
        split: if_splits)
  from m(1) lease_on_disk_cases [OF assms(3)] have o1: "is_obj current" "jpure current" by auto
  have "\<exists>c. lease_on_disk root w' = Inr c \<and> jget ''status'' c = Str ''RELEASED'' \<and> supervisor_on_disk root w' = Inr sv"
  proof (cases "jget ''status'' current = Str ''RELEASED''")
    case True
    with assms m show ?thesis
      by (auto simp: releaseActivationLease_def bind_io_def [of "readOptional _"] lease_read)
  next
    case False
    let ?n = "released_lease current nowMs"
    have w: "jwf ?n" "is_obj ?n" using o1(2) by (simp_all add: released_lease_def jwf_jset jpure_jwf)
    have "jget ''status'' (durable ?n) = Str ''RELEASED''"
      using w o1(1) by (simp add: jget_durable) (simp add: released_lease_def)
    moreover have "w' = put_file (lease_file root) (canonicalJson ?n) w"
      using assms(1-3) m False
      by (cases rule: cas_json_cases [of "lease_file root" "Some (digest w (canonicalJson current))" ?n w])
        (auto simp: releaseActivationLease_def bind_io_def [of "readOptional _"] lease_read Let_def
          bind_io_def [of "atomicCompareAndSwapJson _ _ _"])
    ultimately show ?thesis
      using w assms(4) supervisor_not_lease [of root]
      by (intro exI [of _ "durable ?n"]) (simp add: lease_on_disk_def supervisor_on_disk_def)
  qed
  then have "decisionFenceCurrent h root any t w' = (Inr False, w')"
    by (auto simp: decisionFenceCurrent_def bind_readJson bind_io_def [of "readOptional _"] lease_read
        supervisor_on_disk_def fence_holds_def)
  with m(2) show ?thesis by blast
qed

section \<open>The lease as a fenced register\<close>

definition parse_lease :: "string option \<Rightarrow> err + jv" where
  "parse_lease b = (if b = None then Inr Null else parse_object (lease_file []) b)"

definition lease_version :: "string option \<Rightarrow> int" where
  "lease_version b = (case parse_lease b of Inl e \<Rightarrow> 0 | Inr c \<Rightarrow> number_or_zero (jget ''fencing_token'' c))"

definition lease_expected :: "string option \<Rightarrow> string option" where
  "lease_expected b = (case parse_lease b of Inl e \<Rightarrow> b | Inr c \<Rightarrow> if truthy c then Some (canonicalJson c) else None)"

definition lease_grants :: "string option \<Rightarrow> string \<Rightarrow> bool" where
  "lease_grants old new \<longleftrightarrow> (\<exists>current sv ev ow lid n ttl. parse_lease old = Inr current \<and> jwf sv \<and> jwf ev \<and> jwf ow
     \<and> new = canonicalJson (next_lease sv current ev ow lid n ttl))"

definition lease_releases :: "string option \<Rightarrow> string \<Rightarrow> bool" where
  "lease_releases old new \<longleftrightarrow> (\<exists>current n. parse_lease old = Inr current \<and> is_obj current
     \<and> new = canonicalJson (released_lease current n))"

lemma parse_lease_cases: "parse_lease b = Inr c \<Longrightarrow> c = Null \<or> is_obj c \<and> jpure c"
  by (auto simp: parse_lease_def split: if_splits dest: parse_object_obj parse_object_pure)

lemma js_string_durable [simp]: "js_string (durable v) = js_string v"
proof (induction v rule: js_string.induct)
  case (6 xs)
  have "(case if x = Undef then Null else durable x of Undef \<Rightarrow> [] | Null \<Rightarrow> []
        | _ \<Rightarrow> js_string (if x = Undef then Null else durable x))
      = (case x of Undef \<Rightarrow> [] | Null \<Rightarrow> [] | _ \<Rightarrow> js_string x)" if "x \<in> set xs" for x
    using 6 [OF that] by (cases x) (auto simp: durable_Arr split: jv.splits)
  then have "map (\<lambda>x. case if x = Undef then Null else durable x of Undef \<Rightarrow> [] | Null \<Rightarrow> []
        | _ \<Rightarrow> js_string (if x = Undef then Null else durable x)) xs
      = map (\<lambda>x. case x of Undef \<Rightarrow> [] | Null \<Rightarrow> [] | _ \<Rightarrow> js_string x) xs"
    by (intro map_cong refl)
  then show ?case by (simp add: durable_Arr comp_def del: map_eq_conv)
next
  case (7 kvs)
  have "is_obj (durable (Obj kvs))" by simp
  then show ?case by (cases "durable (Obj kvs)") auto
qed auto

lemma number_or_zero_durable [simp]: "number_or_zero (durable v) = number_or_zero v"
proof (cases v)
  case (Arr xs)
  then show ?thesis using js_string_durable [of v] by (simp add: number_or_zero_def durable_Arr del: js_string_durable)
next
  case (Obj kvs)
  then have "is_obj (durable v)" "is_obj v" by simp_all
  then show ?thesis using js_string_durable [of v]
    by (cases "durable v"; cases v) (auto simp: number_or_zero_def simp del: js_string_durable)
qed (simp_all add: number_or_zero_def)

lemma lease_version_written:
  "jwf v \<Longrightarrow> is_obj v \<Longrightarrow> lease_version (Some (canonicalJson v)) = number_or_zero (jget ''fencing_token'' v)"
  by (simp add: lease_version_def parse_lease_def jget_durable)

lemma lease_version_expected:
  assumes "parse_lease old = Inr c"
  shows "lease_version (lease_expected old) = number_or_zero (jget ''fencing_token'' c)"
proof (cases "c = Null")
  case True
  with assms show ?thesis by (simp add: lease_expected_def) (simp add: lease_version_def parse_lease_def)
next
  case False
  with parse_lease_cases [OF assms] have "is_obj c" "jwf c" by (auto intro: jpure_jwf)
  moreover from this have "truthy c" by (cases c) auto
  ultimately show ?thesis using assms by (simp add: lease_expected_def lease_version_written)
qed

interpretation lease_tokens: fenced_register lease_expected lease_version lease_grants lease_releases
proof
  show "lease_version (lease_expected old) < lease_version (Some new)" if g: "lease_grants old new" for old new
  proof -
    from g obtain c sv ev ow lid n ttl where p: "parse_lease old = Inr c" and w: "jwf sv" "jwf ev" "jwf ow"
      and new: "new = canonicalJson (next_lease sv c ev ow lid n ttl)" by (auto simp: lease_grants_def)
    have "lease_version (Some new) = number_or_zero (jget ''fencing_token'' c) + 1"
      unfolding new using jwf_next_lease [OF w] by (simp add: lease_version_written)
    with lease_version_expected [OF p] show ?thesis by simp
  qed
  show "lease_version (lease_expected old) \<le> lease_version (Some new)" if g: "lease_releases old new" for old new
  proof -
    from g obtain c n where p: "parse_lease old = Inr c" "is_obj c" and new: "new = canonicalJson (released_lease c n)"
      by (auto simp: lease_releases_def)
    have "jwf (released_lease c n)" using parse_lease_cases [OF p(1)] p(2)
      by (auto simp: released_lease_def jwf_jset dest: jpure_jwf)
    moreover have "jget ''fencing_token'' (released_lease c n) = jget ''fencing_token'' c" "is_obj (released_lease c n)"
      using p(2) by (simp_all add: released_lease_def)
    ultimately have "lease_version (Some new) = number_or_zero (jget ''fencing_token'' c)"
      unfolding new by (simp add: lease_version_written)
    with lease_version_expected [OF p(1)] show ?thesis by simp
  qed
qed


section \<open>Witnesses\<close>

definition demo_owner :: jv where
  "demo_owner = Obj [(''kind'', Str ''operator''), (''process'', Obj [(''executable'', Str ''/usr/bin/node''),
     (''pid'', Num 7), (''start_time_ticks'', Str ''100'')])]"

definition lease_sv :: jv where
  "lease_sv = Obj [(''generation'', Num 3), (''supervisor_id'', Str ''sup-1'')]"

definition lease_world :: world where
  "lease_world = \<lparr>files = [(''/.opsle/supervisor.json'', canonicalJson lease_sv)],
     dirs = [], clock = (\<lambda>n. ''T''), ticks = 0, uuids = nat_str, drawn = 0, digest = id\<rparr>"

definition demo_lease :: jv where
  "demo_lease = next_lease lease_sv Null (Str ''e1'') demo_owner ''activation-lease-0'' 1000 60000"

definition leased_world :: world where
  "leased_world = put_file (lease_file []) (canonicalJson demo_lease) (lease_world\<lparr>drawn := 1\<rparr>)"

lemma demo_small: "jwf lease_sv" "jwf demo_owner" "truthy demo_owner"
    "durable demo_owner = demo_owner" "durable lease_sv = lease_sv"
    "''activation-lease-'' @ uuids lease_world (drawn lease_world) = ''activation-lease-0''"
  by code_simp+

lemma demo_lease_jwf: "jwf lease_sv" "jwf demo_owner" "jwf demo_lease" "is_obj demo_lease" "truthy demo_owner"
    "durable demo_owner = demo_owner" "durable lease_sv = lease_sv"
proof -
  show "jwf demo_lease" unfolding demo_lease_def by (rule jwf_next_lease) (simp_all add: demo_small)
qed (simp_all add: demo_small demo_lease_def)

lemma demo_disks: "supervisor_on_disk [] lease_world = Inr lease_sv" "lease_on_disk [] lease_world = Inr Null"
    "supervisor_on_disk [] leased_world = Inr lease_sv" "lease_on_disk [] leased_world = Inr (durable demo_lease)"
proof -
  have n: "''/.opsle/supervisor.json'' \<noteq> lease_file []" by (simp add: lease_file_def)
  have b: "bytes_at lease_world ''/.opsle/supervisor.json'' = Some (canonicalJson lease_sv)"
    by (simp add: lease_world_def bytes_at_def)
  have s: "is_obj lease_sv" by (simp add: lease_sv_def)
  show "supervisor_on_disk [] lease_world = Inr lease_sv"
    using b demo_lease_jwf s by (simp add: supervisor_on_disk_def)
  show "supervisor_on_disk [] leased_world = Inr lease_sv"
    using b demo_lease_jwf s n by (simp add: supervisor_on_disk_def leased_world_def)
  show "lease_on_disk [] lease_world = Inr Null"
    by (simp add: lease_on_disk_def lease_world_def bytes_at_def lease_file_def)
  show "lease_on_disk [] leased_world = Inr (durable demo_lease)"
    by (rule lease_on_disk_written) (simp_all add: leased_world_def demo_lease_jwf)
qed

lemma demo_owner_current: "activationOwnerCurrent demo_host (leaseOwner demo_owner)"
  by code_simp

lemma demo_lease_get: "jget k (durable demo_lease) = durable (jget k demo_lease)"
  by (simp add: jget_durable demo_lease_jwf)

lemma demo_lease_fields: "jget ''fencing_token'' demo_lease = Num 1" "jget ''owner'' demo_lease = demo_owner"
    "jget ''event_id'' demo_lease = Str ''e1''" "jget ''supervisor_id'' demo_lease = Str ''sup-1''"
    "jget ''supervisor_generation'' demo_lease = Num 3"
  by (simp_all add: demo_lease_def lease_sv_def)

lemma demo_held: "lease_held lease_sv (durable demo_lease) 2000"
proof -
  have "parse_date (toISOString 61000) = Some 61000" by (rule parse_date_toISOString) simp
  then show ?thesis
    by (simp add: lease_held_def leaseExpired_def demo_lease_get) (simp add: demo_lease_def lease_sv_def)
qed

lemma demo_grant:
  "acquireActivationLease demo_host [] (Str ''e1'') demo_owner 60000 1000 lease_world
    = (Inr (Obj [(''acquired'', JBool True), (''duplicate'', JBool False), (''takeover'', JBool False), (''lease'', demo_lease)]),
       leased_world)"
proof -
  have nh: "\<not> lease_held lease_sv Null 1000" by (simp add: lease_held_def)
  have dl: "next_lease lease_sv Null (Str ''e1'') demo_owner (''activation-lease-'' @ uuids lease_world (drawn lease_world)) 1000 60000
      = demo_lease" unfolding demo_lease_def demo_small(6) by (rule refl)
  have "lease_file [] \<noteq> ''/.opsle/supervisor.json''" by (simp add: lease_file_def)
  then have c: "atomicCompareAndSwapJson (lease_file []) None demo_lease (lease_world\<lparr>drawn := Suc (drawn lease_world)\<rparr>)
      = (Inr (Swapped None (canonicalJson demo_lease)), leased_world)"
    by (simp add: atomicCompareAndSwapJson_def Let_def leased_world_def lease_world_def bytes_at_def)
  have "lease_loop 2 [] lease_sv (Str ''e1'') demo_owner 1000 60000 lease_world
    = (Inr (Obj [(''acquired'', JBool True), (''duplicate'', JBool False), (''takeover'', JBool False), (''lease'', demo_lease)]),
       leased_world)"
    using demo_disks(2) nh c unfolding numeral_2_eq_2 lease_loop.simps
    by (simp add: bind_io_def [of "readOptional _"] lease_read bind_io_def [of "atomicCompareAndSwapJson _ _ _"]
        dl [simplified] Let_def cong: if_cong)
  then show ?thesis
    using demo_owner_current demo_disks(1) demo_lease_jwf(5)
    by (simp add: acquireActivationLease_def bind_readJson supervisor_on_disk_def pos_safe_Num max_safe_def leaseOwner_def)
qed


theorem lease_reentrant_witness:
  "acquireActivationLease demo_host [] (Str ''e1'') demo_owner 60000 2000 leased_world
    = (Inr (Obj [(''acquired'', JBool True), (''duplicate'', JBool True), (''lease'', durable demo_lease)]), leased_world)"
proof -
  have "strict_eq (jget ''event_id'' (durable demo_lease)) (Str (CHR ''e'' # ''1''))"
    "sameActivationOwner (jget ''owner'' (durable demo_lease)) (leaseOwner demo_owner)"
    using demo_lease_jwf(5,6) by (simp_all add: demo_lease_get demo_lease_fields sameActivationOwner_def leaseOwner_def)
  from lease_reentrant [OF demo_disks(3,4) demo_held this demo_owner_current] show ?thesis
    by (simp add: max_safe_def)
qed

theorem lease_grant_fences_out_predecessor_witness:
  "decisionFenceCurrent demo_host [] demo_lease 1000 leased_world = (Inr True, leased_world)
    \<and> decisionFenceCurrent demo_host [] (jset ''fencing_token'' (Num 0) demo_lease) 1000 leased_world = (Inr False, leased_world)"
proof -
  let ?r = "Obj [(''acquired'', JBool True), (''duplicate'', JBool False), (''takeover'', JBool False), (''lease'', demo_lease)]"
  have n: "\<not> lease_repeated [] lease_sv (Str ''e1'') (leaseOwner demo_owner) 1000 lease_world ?r"
    using demo_disks(2) by (auto simp: lease_repeated_def demo_lease_def next_lease_def)
  have s: "is_prim (jget ''supervisor_id'' lease_sv)" "is_prim (jget ''generation'' lease_sv)" by (simp_all add: lease_sv_def)
  have o1: "durable (leaseOwner demo_owner) = leaseOwner demo_owner" using demo_lease_jwf(5,6) by (simp add: leaseOwner_def)
  from lease_grant_fences_out_predecessor [OF demo_grant _ _ demo_disks(2,1) s demo_lease_jwf(2) o1 _ n]
  show ?thesis by (simp add: demo_lease_fields)
qed

theorem released_lease_is_fenced_out_witness:
  "\<exists>w'. releaseActivationLease [] demo_lease 5000 leased_world = (Inr (Obj [(''released'', JBool True),
       (''duplicate'', JBool False), (''lease'', released_lease (durable demo_lease) 5000)]), w')
     \<and> decisionFenceCurrent demo_host [] demo_lease 1000 w' = (Inr False, w')"
proof -
  let ?p = "lease_file []" and ?c = "durable demo_lease"
  let ?w = "put_file ?p (canonicalJson (released_lease ?c 5000)) leased_world"
  let ?r = "Obj [(''released'', JBool True), (''duplicate'', JBool False), (''lease'', released_lease ?c 5000)]"
  have "truthy ?c" using demo_lease_jwf(4) by (simp add: is_obj_truthy)
  moreover have "lease_fence_matches ?c demo_lease" "jget ''status'' ?c \<noteq> Str ''RELEASED''"
    by (simp_all add: lease_fence_matches_def demo_lease_get) (simp_all add: demo_lease_def lease_sv_def)
  moreover have "atomicCompareAndSwapJson ?p (Some (digest leased_world (canonicalJson ?c))) (released_lease ?c 5000) leased_world
      = (Inr (Swapped (Some (canonicalJson demo_lease)) (canonicalJson (released_lease ?c 5000))), ?w)"
    by (simp add: atomicCompareAndSwapJson_def leased_world_def lease_world_def)
  ultimately have run: "releaseActivationLease [] demo_lease 5000 leased_world = (Inr ?r, ?w)"
    using demo_disks(4) by (simp add: releaseActivationLease_def bind_io_def [of "readOptional _"] lease_read
        bind_io_def [of "atomicCompareAndSwapJson _ _ _"] Let_def)
  from released_lease_is_fenced_out [OF run _ demo_disks(4,3)] run show ?thesis by auto
qed


end
