(* ===== verification/Decision.thy ===== *)
theory Decision imports Lease begin

text \<open>
  Activation decisions (src/wakeup.js): \<open>claimActivationDecision\<close> and
  \<open>updateActivationDecision\<close>. One file per wake event; its exclusive creation makes the
  decision to resume a supervisor at most once, and it leaves CLAIMED at most once.
\<close>

definition ACTIVATION_DECISION_SCHEMA :: string where
  "ACTIVATION_DECISION_SCHEMA = ''opsle.durable-supervisor.activation-decision/v1''"

definition constructWakeMessage :: "jv \<Rightarrow> jv \<Rightarrow> err + string" where
  "constructWakeMessage eventId generation =
     guard_err (\<not> is_str eventId \<or> \<not> truthy eventId \<or> \<not> pos_safe generation)
       (Err ''wake message requires event ID and positive supervisor generation'')
     (Inr (''OPSLE_WAKE v1 event='' @ js_string eventId @ '' gen='' @ js_string generation @ ''; read durable state.''))"

definition target_matches :: "jv \<Rightarrow> jv \<Rightarrow> bool" where
  "target_matches request supervisor \<longleftrightarrow>
     strict_eq (jpath [''target'', ''repository''] request) (jget ''repository'' supervisor)
     \<and> strict_eq (jpath [''target'', ''supervisor_id''] request) (jget ''supervisor_id'' supervisor)
     \<and> strict_eq (jpath [''target'', ''supervisor_generation''] request) (jget ''generation'' supervisor)"

section \<open>claimActivationDecision\<close>

definition refused_claim :: "string \<Rightarrow> string \<Rightarrow> jv" where
  "refused_claim cl reason = Obj [(''claimed'', JBool False), (''classification'', Str cl), (''reason'', Str reason)]"

definition new_decision :: "jv \<Rightarrow> jv \<Rightarrow> jv \<Rightarrow> string \<Rightarrow> string \<Rightarrow> jv \<Rightarrow> jv \<Rightarrow> string \<Rightarrow> jv" where
  "new_decision supervisor lease eventId did messageSha transportAttemptId deliveryId t = Obj [
     (''schema'', Str ACTIVATION_DECISION_SCHEMA),
     (''decision_id'', Str did),
     (''event_id'', eventId),
     (''supervisor_id'', jget ''supervisor_id'' supervisor),
     (''supervisor_generation'', jget ''generation'' supervisor),
     (''lease_id'', jget ''lease_id'' lease),
     (''fencing_token'', jget ''fencing_token'' lease),
     (''message_sha256'', Str messageSha),
     (''transport_attempt_id'', transportAttemptId),
     (''delivery_id'', deliveryId),
     (''status'', Str ''CLAIMED''),
     (''claimed_at'', Str t),
     (''delivered_at'', Null),
     (''failure'', Null)]"

definition prior_attempt :: "jv \<Rightarrow> jv" where
  "prior_attempt current = Obj [
     (''decision_id'', jget ''decision_id'' current),
     (''lease_id'', jget ''lease_id'' current),
     (''fencing_token'', jget ''fencing_token'' current),
     (''status'', jget ''status'' current),
     (''claimed_at'', jget ''claimed_at'' current),
     (''failure'', jget ''failure'' current),
     (''transport_attempt_id'', coalesce (jget ''transport_attempt_id'' current) Null),
     (''delivery_id'', coalesce (jget ''delivery_id'' current) Null)]"

definition retried_decision :: "jv \<Rightarrow> jv \<Rightarrow> jv" where
  "retried_decision current decision = jset ''prior_attempts'' (Arr (elems (jget ''prior_attempts'' current) @ [prior_attempt current])) decision"

definition duplicate_claim :: "string \<Rightarrow> jv wio" where
  "duplicate_claim path = bind_io (readJson path) (\<lambda>d.
     ret (jset ''decision'' d (jset ''duplicate'' (JBool True) (refused_claim ''duplicate'' ''activation-decision-already-exists''))))"

definition claimActivationDecision ::
  "host \<Rightarrow> string \<Rightarrow> jv \<Rightarrow> jv \<Rightarrow> jv \<Rightarrow> jv \<Rightarrow> jv \<Rightarrow> int \<Rightarrow> int \<Rightarrow> jv wio" where
  "claimActivationDecision h root eventId lease message transportAttemptId deliveryId nowMs laterMs =
     bind_io (decisionFenceCurrent h root lease nowMs) (\<lambda>ok.
     if \<not> ok then ret (refused_claim ''stale-generation'' ''activation-lease-fence-no-longer-current'')
     else
       bind_io (readJson (requestPath root eventId)) (\<lambda>request.
       bind_io (readJson (p_supervisor (paths root))) (\<lambda>supervisor.
       bind_io (lift_io (jdot ''repository'' (jget ''target'' request))) (\<lambda>_.
       if \<not> target_matches request supervisor then ret (refused_claim ''obsolete'' ''wake-target-generation-is-stale'')
       else
         bind_io (id_new ''activation-decision'') (\<lambda>did.
         bind_io (if nullish message then lift_io (constructWakeMessage eventId (jget ''generation'' supervisor))
                  else ret (js_string message)) (\<lambda>text.
         bind_io (sha256 text) (\<lambda>sha.
         bind_io now (\<lambda>t.
         let decision = new_decision supervisor lease eventId did sha transportAttemptId deliveryId t;
             path = activationDecisionPath root eventId in
         bind_io (atomicCreateJson path decision) (\<lambda>created.
         if created then ret (Obj [(''claimed'', JBool True), (''duplicate'', JBool False), (''decision'', decision)])
         else
           bind_io (readJson path) (\<lambda>current.
           bind_io (if jget ''status'' current = Str ''TRANSPORT_NOT_STARTED'' then decisionFenceCurrent h root lease laterMs
                    else ret False) (\<lambda>again.
           if again then
             bind_io (sha256 (canonicalJson current)) (\<lambda>expected.
             bind_io (atomicCompareAndSwapJson path (Some expected) (retried_decision current decision)) (\<lambda>cas.
             if is_swapped cas then
               ret (Obj [(''claimed'', JBool True), (''duplicate'', JBool False), (''retry'', JBool True),
                 (''decision'', retried_decision current decision)])
             else duplicate_claim path))
           else duplicate_claim path)))))))))))"

section \<open>updateActivationDecision\<close>

definition decision_fence_matches :: "jv \<Rightarrow> jv \<Rightarrow> bool" where
  "decision_fence_matches current decision \<longleftrightarrow>
     strict_eq (jget ''decision_id'' current) (jget ''decision_id'' decision)
     \<and> strict_eq (jget ''lease_id'' current) (jget ''lease_id'' decision)
     \<and> strict_eq (jget ''fencing_token'' current) (jget ''fencing_token'' decision)
     \<and> jget ''status'' current = Str ''CLAIMED''"

definition updated_decision :: "jv \<Rightarrow> jv \<Rightarrow> jv \<Rightarrow> jv \<Rightarrow> jv" where
  "updated_decision current status deliveredAt failure =
     jset ''failure'' failure (jset ''delivered_at'' deliveredAt (jset ''status'' status current))"

definition updateActivationDecision :: "string \<Rightarrow> jv \<Rightarrow> jv \<Rightarrow> jv \<Rightarrow> jv wio" where
  "updateActivationDecision root decision status failure =
     bind_io (lift_io (jdot ''event_id'' decision)) (\<lambda>ev.
     bind_io (readJson (activationDecisionPath root ev)) (\<lambda>current.
     if \<not> decision_fence_matches current decision then
       ret (Obj [(''updated'', JBool False), (''reason'', Str ''activation-decision-fence-mismatch''), (''decision'', current)])
     else
       bind_io (sha256 (canonicalJson current)) (\<lambda>expected.
       bind_io (if status = Str ''DELIVERED'' then bind_io now (\<lambda>t. ret (Str t)) else ret Null) (\<lambda>deliveredAt.
       let next = updated_decision current status deliveredAt failure in
       bind_io (atomicCompareAndSwapJson (activationDecisionPath root ev) (Some expected) next) (\<lambda>cas.
       if is_swapped cas then ret (Obj [(''updated'', JBool True), (''decision'', next)])
       else ret (Obj [(''updated'', JBool False), (''reason'', Str (cas_reason cas))]))))))"

section \<open>Reading the decision of an event\<close>

definition decision_on_disk :: "string \<Rightarrow> jv \<Rightarrow> world \<Rightarrow> err + jv" where
  "decision_on_disk root ev w = parse_object (activationDecisionPath root ev) (bytes_at w (activationDecisionPath root ev))"

lemma decision_path_other [simp]:
  "activationDecisionPath root ev \<noteq> p_supervisor (paths root)" "activationDecisionPath root ev \<noteq> lease_file root"
  "p_supervisor (paths root) \<noteq> activationDecisionPath root ev" "lease_file root \<noteq> activationDecisionPath root ev"
  by (auto simp: activationDecisionPath_def lease_file_def json_in_def)

lemma post_fence [wp]: "post (decisionFenceCurrent h root lease t) w Q \<longleftrightarrow> Q (fst (decisionFenceCurrent h root lease t w)) w"
proof -
  have "snd (decisionFenceCurrent h root lease t w) = w"
    by (auto simp: decisionFenceCurrent_def bind_readJson bind_io_def [of "readOptional _"] lease_read split: sum.splits)
  then show ?thesis by (simp add: post_def)
qed

lemma constructWakeMessage_text:
  "constructWakeMessage ev g = Inr t \<Longrightarrow> is_str ev \<and> pos_safe g
     \<and> t = ''OPSLE_WAKE v1 event='' @ js_string ev @ '' gen='' @ js_string g @ ''; read durable state.''"
  by (auto simp: constructWakeMessage_def guard_err_def split: if_splits)

text \<open>How a claim ends, by what it did to the decision file.\<close>

definition fresh_decision :: "jv \<Rightarrow> jv \<Rightarrow> jv \<Rightarrow> jv \<Rightarrow> bool" where
  "fresh_decision sv lease eventId d \<longleftrightarrow> (\<exists>did sha att dl t. d = new_decision sv lease eventId did sha att dl t)"

lemma fresh_decision_new [simp]: "fresh_decision sv lease ev (new_decision sv lease ev did sha att dl t)"
  unfolding fresh_decision_def by (intro exI) (rule refl)

lemma fresh_decision_fields:
  assumes "fresh_decision sv lease ev d"
  shows "jget ''status'' d = Str ''CLAIMED''" "jget ''fencing_token'' d = jget ''fencing_token'' lease"
    "jget ''lease_id'' d = jget ''lease_id'' lease" "jget ''event_id'' d = ev"
    "jget ''supervisor_generation'' d = jget ''generation'' sv" "is_obj d"
  using assms by (auto simp: fresh_decision_def new_decision_def)

definition claim_won :: "host \<Rightarrow> string \<Rightarrow> jv \<Rightarrow> jv \<Rightarrow> int \<Rightarrow> world \<Rightarrow> jv \<Rightarrow> world \<Rightarrow> bool" where
  "claim_won h root eventId lease nowMs w r w' \<longleftrightarrow>
     fst (decisionFenceCurrent h root lease nowMs w) = Inr True
     \<and> (\<exists>sv d. supervisor_on_disk root w = Inr sv \<and> fresh_decision sv lease eventId d \<and>
        (bytes_at w (activationDecisionPath root eventId) = None \<and> jget ''decision'' r = d
         \<or> (\<exists>current. decision_on_disk root eventId w = Inr current \<and> jget ''status'' current = Str ''TRANSPORT_NOT_STARTED''
              \<and> jget ''decision'' r = retried_decision current d)))
     \<and> bytes_at w' (activationDecisionPath root eventId) = Some (canonicalJson (jget ''decision'' r))
     \<and> (\<forall>p. p \<noteq> activationDecisionPath root eventId \<longrightarrow> bytes_at w' p = bytes_at w p)"

lemma claimActivationDecision_post:
  "post (claimActivationDecision h root eventId lease message att dl nowMs laterMs) w (\<lambda>r w'.
     (\<exists>x. r = Inr x \<and> jget ''claimed'' x = JBool True \<and> claim_won h root eventId lease nowMs w x w')
     \<or> (\<forall>x. r = Inr x \<longrightarrow> jget ''claimed'' x \<noteq> JBool True) \<and> same_store w w')"
  unfolding claimActivationDecision_def duplicate_claim_def
  by (simp add: wp Let_def refused_claim_def, intro conjI impI allI;
      simp add: claim_won_def supervisor_on_disk_def decision_on_disk_def; blast intro: fresh_decision_new)


lemma retried_decision_fields [simp]:
  "is_obj d \<Longrightarrow> k \<noteq> ''prior_attempts'' \<Longrightarrow> jget k (retried_decision c d) = jget k d"
  "jget ''prior_attempts'' (retried_decision c d) = Arr (elems (jget ''prior_attempts'' c) @ [prior_attempt c])"
  by (simp_all add: retried_decision_def)

lemma decision_present: "decision_on_disk root ev w = Inr c \<Longrightarrow> bytes_at w (activationDecisionPath root ev) \<noteq> None"
  unfolding decision_on_disk_def by (rule parse_object_present)

text \<open>The effect of an update, whoever calls it.\<close>

lemma updateActivationDecision_post:
  assumes "is_obj decision" "decision_on_disk root (jget ''event_id'' decision) w = Inr current"
  shows "post (updateActivationDecision root decision status failure) w (\<lambda>r w'.
     (\<exists>x t. r = Inr x \<and> jget ''updated'' x = JBool True \<and> decision_fence_matches current decision
        \<and> jget ''decision'' x = updated_decision current status t failure
        \<and> bytes_at w' (activationDecisionPath root (jget ''event_id'' decision)) = Some (canonicalJson (jget ''decision'' x))
        \<and> (\<forall>p. p \<noteq> activationDecisionPath root (jget ''event_id'' decision) \<longrightarrow> bytes_at w' p = bytes_at w p))
     \<or> (\<exists>x. r = Inr x \<and> jget ''updated'' x = JBool False) \<and> same_store w w')"
  using assms unfolding updateActivationDecision_def
  by (simp add: wp jdot_def is_obj_not_nullish decision_on_disk_def Let_def, intro conjI impI allI; simp; blast)

section \<open>Properties\<close>

text \<open>A decision is claimed only by a caller whose lease passes the fence at that moment; the
  decision then on disk is CLAIMED for that event and carries the lease's id and fencing
  token, nothing else changed, and there was no decision before or one whose transport
  never started, which the new one keeps in its history.\<close>

theorem claim_needs_current_lease:
  assumes "claimActivationDecision h root eventId lease message att dl nowMs laterMs w = (Inr r, w')"
    and "jget ''claimed'' r = JBool True"
  shows "fst (decisionFenceCurrent h root lease nowMs w) = Inr True
    \<and> jget ''status'' (jget ''decision'' r) = Str ''CLAIMED'' \<and> jget ''event_id'' (jget ''decision'' r) = eventId
    \<and> jget ''fencing_token'' (jget ''decision'' r) = jget ''fencing_token'' lease
    \<and> jget ''lease_id'' (jget ''decision'' r) = jget ''lease_id'' lease
    \<and> bytes_at w' (activationDecisionPath root eventId) = Some (canonicalJson (jget ''decision'' r))
    \<and> (\<forall>p. p \<noteq> activationDecisionPath root eventId \<longrightarrow> bytes_at w' p = bytes_at w p)
    \<and> (bytes_at w (activationDecisionPath root eventId) = None
       \<or> (\<exists>c. decision_on_disk root eventId w = Inr c \<and> jget ''status'' c = Str ''TRANSPORT_NOT_STARTED''
            \<and> jget ''prior_attempts'' (jget ''decision'' r) = Arr (elems (jget ''prior_attempts'' c) @ [prior_attempt c])))"
proof -
  have won: "claim_won h root eventId lease nowMs w r w'"
    using postD [OF claimActivationDecision_post assms(1)] assms(2) by auto
  then obtain sv d where "fresh_decision sv lease eventId d"
    and "bytes_at w (activationDecisionPath root eventId) = None \<and> jget ''decision'' r = d
       \<or> (\<exists>current. decision_on_disk root eventId w = Inr current \<and> jget ''status'' current = Str ''TRANSPORT_NOT_STARTED''
            \<and> jget ''decision'' r = retried_decision current d)"
    unfolding claim_won_def by blast
  with won fresh_decision_fields show ?thesis unfolding claim_won_def by fastforce
qed

text \<open>C10: Once an event has a decision that is claimed, delivered or uncertain, no caller claims it
  again, whatever lease it holds, and the attempt writes no file: a wake is acted on at
  most once.\<close>

theorem decision_claimed_at_most_once:
  assumes "decision_on_disk root eventId w = Inr current" "jget ''status'' current \<noteq> Str ''TRANSPORT_NOT_STARTED''"
    and "claimActivationDecision h root eventId lease message att dl nowMs laterMs w = (Inr r, w')"
  shows "jget ''claimed'' r \<noteq> JBool True \<and> bytes_at w' = bytes_at w"
  using postD [OF claimActivationDecision_post assms(3)] assms(1,2) decision_present [OF assms(1)]
  by (auto simp: claim_won_def same_store_def)

text \<open>A decision leaves CLAIMED at most once: an update by the claimant replaces the status,
  failure and delivery time and nothing else, and an update of a decision that is not
  CLAIMED, or that presents another decision, lease or fencing token, writes no file.\<close>

theorem decision_settles_once:
  assumes "is_obj decision" "decision_on_disk root (jget ''event_id'' decision) w = Inr current"
    and "updateActivationDecision root decision status failure w = (Inr r, w')"
  shows "(jget ''updated'' r = JBool True \<longrightarrow>
        jget ''status'' current = Str ''CLAIMED''
        \<and> jget ''decision_id'' current = jget ''decision_id'' decision
        \<and> jget ''fencing_token'' current = jget ''fencing_token'' decision
        \<and> bytes_at w' (activationDecisionPath root (jget ''event_id'' decision)) = Some (canonicalJson (jget ''decision'' r))
        \<and> jget ''status'' (jget ''decision'' r) = status
        \<and> (\<forall>k. k \<notin> {''status'', ''failure'', ''delivered_at''} \<longrightarrow> jget k (jget ''decision'' r) = jget k current))
    \<and> (jget ''updated'' r \<noteq> JBool True \<longrightarrow> bytes_at w' = bytes_at w)"
proof -
  have "is_obj current" using assms(2) by (auto simp: decision_on_disk_def dest: parse_object_obj)
  with postD [OF updateActivationDecision_post [OF assms(1,2)] assms(3)] show ?thesis
    by (auto simp: decision_fence_matches_def updated_decision_def same_store_def dest: strict_eq_imp_eq)
qed


section \<open>Witnesses\<close>

lemma claim_succeeds:
  assumes "fst (decisionFenceCurrent h root lease t w) = Inr True" "supervisor_on_disk root w = Inr sv"
    and "parse_object (requestPath root ev) (bytes_at w (requestPath root ev)) = Inr rq"
    and "is_obj (jget ''target'' rq)" "target_matches rq sv" "bytes_at w (activationDecisionPath root ev) = None"
  shows "\<exists>r w'. claimActivationDecision h root ev lease (Str m) att dl t t' w = (Inr r, w')
    \<and> jget ''claimed'' r = JBool True"
proof -
  have "post (claimActivationDecision h root ev lease (Str m) att dl t t') w
      (\<lambda>r w'. \<exists>x. r = Inr x \<and> jget ''claimed'' x = JBool True)"
    unfolding claimActivationDecision_def
    using assms by (simp add: wp supervisor_on_disk_def jdot_def is_obj_not_nullish Let_def del: bind_sha256 bind_now)
  then show ?thesis by (auto simp: post_def) (metis prod.collapse)
qed

definition demo_request :: jv where
  "demo_request = Obj [(''event_id'', Str ''e1''), (''target'', Obj [(''repository'', Str ''repo''),
     (''supervisor_generation'', Num 3), (''supervisor_id'', Str ''sup-1'')])]"

definition decision_sv :: jv where
  "decision_sv = Obj [(''generation'', Num 3), (''repository'', Str ''repo''), (''supervisor_id'', Str ''sup-1'')]"

text \<open>A world with a supervisor, its current lease and a queued request.\<close>

definition queued_world :: world where
  "queued_world = put_file (requestPath [] (Str ''e1'')) (canonicalJson demo_request)
     (put_file (p_supervisor (paths [])) (canonicalJson decision_sv) leased_world)"

lemma demo_request_small: "jwf demo_request" "durable demo_request = demo_request" "is_obj demo_request"
    "target_matches demo_request decision_sv" "is_obj (jget ''target'' demo_request)"
    "jwf decision_sv" "durable decision_sv = decision_sv" "is_obj decision_sv"
  by code_simp+

lemma queued_paths [simp]:
  "requestPath root ev \<noteq> p_supervisor (paths root)" "requestPath root ev \<noteq> lease_file root"
  "requestPath root ev \<noteq> activationDecisionPath root ev'" "activationDecisionPath root ev' \<noteq> requestPath root ev"
  "p_supervisor (paths root) \<noteq> requestPath root ev" "lease_file root \<noteq> requestPath root ev"
  "p_supervisor (paths root) \<noteq> lease_file root" "lease_file root \<noteq> p_supervisor (paths root)"
  by (auto simp: requestPath_def activationDecisionPath_def lease_file_def json_in_def)

lemma queued_disks:
  "supervisor_on_disk [] queued_world = Inr decision_sv"
  "lease_on_disk [] queued_world = Inr (durable demo_lease)"
  "parse_object (requestPath [] (Str ''e1'')) (bytes_at queued_world (requestPath [] (Str ''e1''))) = Inr demo_request"
  "bytes_at queued_world (activationDecisionPath [] (Str ''e1'')) = None"
proof -
  note [simp del] = paths_select
  show "supervisor_on_disk [] queued_world = Inr decision_sv"
    by (simp add: supervisor_on_disk_def queued_world_def demo_request_small)
  show "lease_on_disk [] queued_world = Inr (durable demo_lease)"
    using demo_disks(4) by (simp add: lease_on_disk_def queued_world_def leased_world_def)
  show "parse_object (requestPath [] (Str ''e1'')) (bytes_at queued_world (requestPath [] (Str ''e1''))) = Inr demo_request"
    by (simp add: queued_world_def demo_request_small)
  have "activationDecisionPath [] (Str ''e1'') \<noteq> ''/.opsle/supervisor.json''"
    by (simp add: activationDecisionPath_def json_in_def)
  then show "bytes_at queued_world (activationDecisionPath [] (Str ''e1'')) = None"
    by (simp add: queued_world_def leased_world_def lease_world_def) (simp add: bytes_at_def)
qed

lemma queued_fence: "fst (decisionFenceCurrent demo_host [] demo_lease 1000 queued_world) = Inr True"
proof -
  have "fence_holds demo_host lease_sv (durable demo_lease) demo_lease 1000"
    unfolding demo_lease_def
    using demo_owner_current demo_lease_jwf(5)
    by (intro new_lease_passes) (simp_all add: demo_lease_jwf leaseOwner_def lease_sv_def)
  then have "fence_holds demo_host decision_sv (durable demo_lease) demo_lease 1000"
    by (simp add: fence_holds_def decision_sv_def lease_sv_def demo_lease_get demo_lease_fields)
  then show ?thesis using queued_disks(1,2)
    by (simp add: decisionFenceCurrent_def bind_readJson bind_io_def [of "readOptional _"] lease_read supervisor_on_disk_def)
qed

lemma demo_claim_run:
  obtains r w' where "claimActivationDecision demo_host [] (Str ''e1'') demo_lease (Str ''m'') Null Null 1000 1000 queued_world = (Inr r, w')"
    "jget ''claimed'' r = JBool True"
  using claim_succeeds [OF queued_fence queued_disks(1,3) demo_request_small(5,4) queued_disks(4)] by blast

theorem claim_needs_current_lease_witness:
  "\<exists>r w'. claimActivationDecision demo_host [] (Str ''e1'') demo_lease (Str ''m'') Null Null 1000 1000 queued_world = (Inr r, w')
    \<and> jget ''status'' (jget ''decision'' r) = Str ''CLAIMED''"
proof -
  obtain r w' where r: "claimActivationDecision demo_host [] (Str ''e1'') demo_lease (Str ''m'') Null Null 1000 1000 queued_world = (Inr r, w')"
    "jget ''claimed'' r = JBool True" by (rule demo_claim_run)
  from claim_needs_current_lease [OF r] r(1) show ?thesis by blast
qed

definition settled :: "string \<Rightarrow> jv" where
  "settled st = Obj [(''decision_id'', Str ''d1''), (''event_id'', Str ''e1''), (''fencing_token'', Num 1), (''lease_id'', Str ''l1''),
     (''status'', Str st)]"

definition decided_world :: "string \<Rightarrow> world" where
  "decided_world st = put_file (activationDecisionPath [] (Str ''e1'')) (canonicalJson (settled st)) queued_world"

lemma decided_on_disk: "jwf (Str st) \<Longrightarrow> decision_on_disk [] (Str ''e1'') (decided_world st) = Inr (settled st)"
proof -
  have "durable (settled st) = settled st" "jwf (settled st)" "is_obj (settled st)"
    by (simp_all add: settled_def durable_def)
  then show ?thesis by (simp add: decision_on_disk_def decided_world_def)
qed

theorem decision_claimed_at_most_once_witness:
  "bytes_at (snd (claimActivationDecision demo_host [] (Str ''e1'') Null (Str ''m'') Null Null 1000 1000 (decided_world ''CLAIMED'')))
    = bytes_at (decided_world ''CLAIMED'')"
proof -
  let ?c = "claimActivationDecision demo_host [] (Str ''e1'') Null (Str ''m'') Null Null 1000 1000"
  have s: "jget ''status'' (settled ''CLAIMED'') \<noteq> Str ''TRANSPORT_NOT_STARTED''" by (simp add: settled_def)
  have d: "decision_on_disk [] (Str ''e1'') (decided_world ''CLAIMED'') = Inr (settled ''CLAIMED'')" by (rule decided_on_disk) simp
  have l: "supervisor_on_disk [] (decided_world ''CLAIMED'') = Inr decision_sv"
     "lease_on_disk [] (decided_world ''CLAIMED'') = Inr (durable demo_lease)"
    using queued_disks(1,2) by (auto simp: decided_world_def supervisor_on_disk_def lease_on_disk_def simp del: paths_select split: if_splits)
  have "\<not> fence_holds demo_host decision_sv (durable demo_lease) Null 1000"
    by (simp add: fence_holds_def demo_lease_get demo_lease_fields)
  then have f: "decisionFenceCurrent demo_host [] Null 1000 (decided_world ''CLAIMED'') = (Inr False, decided_world ''CLAIMED'')"
    using l by (simp add: decisionFenceCurrent_def bind_readJson bind_io_def [of "readOptional _"] lease_read supervisor_on_disk_def)
  then have r: "?c (decided_world ''CLAIMED'')
      = (Inr (refused_claim ''stale-generation'' ''activation-lease-fence-no-longer-current''), decided_world ''CLAIMED'')"
    by (simp add: claimActivationDecision_def bind_io_def)
  from decision_claimed_at_most_once [OF d s r] show ?thesis by (simp add: r)
qed

theorem decision_settles_once_witness:
  "\<exists>r w'. updateActivationDecision [] (settled ''CLAIMED'') (Str ''DELIVERED'') Null (decided_world ''CLAIMED'') = (Inr r, w')
    \<and> jget ''status'' (jget ''decision'' r) = Str ''DELIVERED''"
proof -
  let ?w = "decided_world ''CLAIMED''" and ?d = "settled ''CLAIMED''"
  have o1: "is_obj ?d" "jget ''event_id'' ?d = Str ''e1''" by (simp_all add: settled_def)
  have d: "decision_on_disk [] (jget ''event_id'' ?d) ?w = Inr ?d" unfolding o1(2) by (rule decided_on_disk) simp
  have b: "bytes_at ?w (activationDecisionPath [] (Str ''e1'')) = Some (canonicalJson ?d)" by (simp add: decided_world_def)
  have "post (updateActivationDecision [] ?d (Str ''DELIVERED'') Null) ?w (\<lambda>r w'. \<exists>x. r = Inr x \<and> jget ''updated'' x = JBool True)"
    unfolding updateActivationDecision_def
    using d o1 b by (simp add: wp jdot_def is_obj_not_nullish decision_on_disk_def Let_def)
      (simp add: Let_def decision_fence_matches_def settled_def decided_world_def queued_world_def leased_world_def lease_world_def)
  then obtain r w' where r: "updateActivationDecision [] ?d (Str ''DELIVERED'') Null ?w = (Inr r, w')" "jget ''updated'' r = JBool True"
    by (auto simp: post_def) (metis prod.collapse)
  from decision_settles_once [OF o1(1) d r(1)] r show ?thesis by blast
qed

end
