(* ===== verification/WakeEvents.thy ===== *)
theory WakeEvents imports JsonText begin

text \<open>
  Waits and the events that may end them (src/wakeup.js): \<open>registerWait\<close>,
  \<open>applyWakeEvent\<close>, \<open>terminalWakeType\<close>. A wait turns READY at the first eligible
  terminal event it has not seen, and then never again.
\<close>

definition WAIT_SCHEMA :: string where
  "WAIT_SCHEMA = ''opsle.durable-supervisor.wait-registration/v1''"

definition TERMINAL_WAKE_TYPES :: "string list" where
  "TERMINAL_WAKE_TYPES = [''child-completed'', ''child-failed'', ''child-timeout'', ''child-stall'',
     ''intervention-required'']"

definition INELIGIBLE_WAKE_TYPES :: "string list" where
  "INELIGIBLE_WAKE_TYPES = [''heartbeat'', ''host-wrapper-yield'', ''host-wrapper-timeout'', ''nonterminal-return'']"

definition registerWait :: "jv \<Rightarrow> jv \<Rightarrow> jv \<Rightarrow> jv \<Rightarrow> jv \<Rightarrow> err + jv" where
  "registerWait waitId taskId attemptId registeredAt deadlineAt =
     guard_err (\<not> truthy waitId \<or> \<not> truthy taskId \<or> \<not> truthy attemptId \<or> \<not> truthy registeredAt \<or> \<not> truthy deadlineAt)
       (Err ''wait registration requires identity, registration time, and deadline'')
     (Inr (Obj [
       (''schema'', Str WAIT_SCHEMA),
       (''wait_id'', waitId),
       (''task_id'', taskId),
       (''attempt_id'', attemptId),
       (''state'', Str ''WAITING''),
       (''registered_at'', registeredAt),
       (''deadline_at'', deadlineAt),
       (''seen_event_ids'', Arr []),
       (''human_interactions'', Arr []),
       (''wake'', Null)]))"

definition human_interaction :: "jv \<Rightarrow> jv" where
  "human_interaction event = Obj [(''event_id'', jget ''event_id'' event), (''class'', Str ''human''), (''automatic'', JBool False)]"

definition wake_of :: "jv \<Rightarrow> jv" where
  "wake_of event = Obj [(''event_id'', jget ''event_id'' event), (''type'', jget ''type'' event),
     (''class'', Str ''terminal-event''), (''automatic'', JBool True)]"

definition applyWakeEvent :: "jv \<Rightarrow> jv \<Rightarrow> err + jv" where
  "applyWakeEvent wait event =
     guard_err (jget ''schema'' wait \<noteq> Str WAIT_SCHEMA) (Err ''unsupported wait registration'') (
     guard_err (\<not> truthy (jget ''event_id'' event) \<or> \<not> truthy (jget ''type'' event) \<or> \<not> truthy (jget ''wait_id'' event))
       (Err ''wake event requires event_id, type, and wait_id'') (
     bind_err (includes_call (jget ''seen_event_ids'' wait) (jget ''event_id'' event)) (\<lambda>dup.
     if dup then Inr wait
     else bind_err (spread_list (jget ''seen_event_ids'' wait)) (\<lambda>ids.
       let seen = Arr (ids @ [jget ''event_id'' event]) in
       if \<not> strict_eq (jget ''wait_id'' event) (jget ''wait_id'' wait) \<or> jget ''state'' wait \<noteq> Str ''WAITING''
         then Inr (jset ''seen_event_ids'' seen wait)
       else if in_strs INELIGIBLE_WAKE_TYPES (jget ''type'' event)
         then Inr (jset ''seen_event_ids'' seen wait)
       else if jget ''type'' event = Str ''human-interaction'' then
         bind_err (spread_list (jget ''human_interactions'' wait)) (\<lambda>hs.
           Inr (jset ''human_interactions'' (Arr (hs @ [human_interaction event])) (jset ''seen_event_ids'' seen wait)))
       else if \<not> in_strs TERMINAL_WAKE_TYPES (jget ''type'' event)
         then Inr (jset ''seen_event_ids'' seen wait)
       else Inr (jset ''wake'' (wake_of event) (jset ''seen_event_ids'' seen (jset ''state'' (Str ''READY'') wait)))))))"

definition terminalWakeType :: "jv \<Rightarrow> jv \<Rightarrow> jv \<Rightarrow> string" where
  "terminalWakeType timedOut stalled exitCode =
     (if truthy stalled then ''child-stall''
      else if truthy timedOut then ''child-timeout''
      else if exitCode = Num 0 then ''child-completed'' else ''child-failed'')"

text \<open>The events of a wait in the order they are applied.\<close>

fun applyWakeEvents :: "jv \<Rightarrow> jv list \<Rightarrow> err + jv" where
  "applyWakeEvents wait [] = Inr wait"
| "applyWakeEvents wait (e # es) = bind_err (applyWakeEvent wait e) (\<lambda>w. applyWakeEvents w es)"

section \<open>What a wait is\<close>

definition event_ok :: "jv \<Rightarrow> bool" where
  "event_ok e \<longleftrightarrow> is_str (jget ''event_id'' e) \<and> truthy (jget ''event_id'' e) \<and> truthy (jget ''type'' e) \<and> truthy (jget ''wait_id'' e)"

text \<open>An event that ends the wait: a terminal type, for this wait.\<close>

definition ends_wait :: "jv \<Rightarrow> jv \<Rightarrow> bool" where
  "ends_wait wid e \<longleftrightarrow> strict_eq (jget ''wait_id'' e) wid \<and> in_strs TERMINAL_WAKE_TYPES (jget ''type'' e)"

definition wait_ok :: "jv \<Rightarrow> bool" where
  "wait_ok w \<longleftrightarrow> is_obj w \<and> jget ''schema'' w = Str WAIT_SCHEMA
     \<and> (\<exists>ids. jget ''seen_event_ids'' w = Arr ids \<and> distinct ids \<and> list_all is_str ids
         \<and> (jget ''state'' w = Str ''WAITING'' \<and> jget ''wake'' w = Null
            \<or> jget ''state'' w = Str ''READY'' \<and> jget ''event_id'' (jget ''wake'' w) \<in> set ids
              \<and> in_strs TERMINAL_WAKE_TYPES (jget ''type'' (jget ''wake'' w))
              \<and> jget ''automatic'' (jget ''wake'' w) = JBool True))
     \<and> is_arr (jget ''human_interactions'' w)"

text \<open>The specification: the first event not seen before that ends the wait.\<close>

fun first_ending :: "jv \<Rightarrow> jv list \<Rightarrow> jv list \<Rightarrow> jv option" where
  "first_ending wid seen [] = None"
| "first_ending wid seen (e # es) =
     (if jget ''event_id'' e \<in> set seen then first_ending wid seen es
      else if ends_wait wid e then Some e
      else first_ending wid (jget ''event_id'' e # seen) es)"

section \<open>Laws\<close>

lemma terminal_types_disjoint:
  "in_strs TERMINAL_WAKE_TYPES v \<Longrightarrow> \<not> in_strs INELIGIBLE_WAKE_TYPES v \<and> v \<noteq> Str ''human-interaction''"
  by (cases v) (auto simp: in_strs_def TERMINAL_WAKE_TYPES_def INELIGIBLE_WAKE_TYPES_def)

lemma is_arrE: "is_arr v \<Longrightarrow> (\<And>xs. v = Arr xs \<Longrightarrow> P) \<Longrightarrow> P"
  by (cases v) auto

text \<open>One event, by cases of what it does to a well-formed wait.\<close>

lemma applyWakeEvent_cases:
  assumes "wait_ok w" "event_ok e" "jget ''seen_event_ids'' w = Arr ids"
  obtains (seen) "jget ''event_id'' e \<in> set ids" "applyWakeEvent w e = Inr w"
  | (ends) w' where "jget ''event_id'' e \<notin> set ids" "jget ''state'' w = Str ''WAITING''"
      "ends_wait (jget ''wait_id'' w) e" "applyWakeEvent w e = Inr w'"
      "w' = jset ''wake'' (wake_of e) (jset ''seen_event_ids'' (Arr (ids @ [jget ''event_id'' e])) (jset ''state'' (Str ''READY'') w))"
  | (noted) w' where "jget ''event_id'' e \<notin> set ids" "applyWakeEvent w e = Inr w'"
      "jget ''state'' w \<noteq> Str ''WAITING'' \<or> \<not> ends_wait (jget ''wait_id'' w) e"
      "jget ''seen_event_ids'' w' = Arr (ids @ [jget ''event_id'' e])" "is_obj w'" "is_arr (jget ''human_interactions'' w')"
      "\<And>k. k \<noteq> ''seen_event_ids'' \<Longrightarrow> k \<noteq> ''human_interactions'' \<Longrightarrow> jget k w' = jget k w"
proof -
  have o1: "is_obj w" "jget ''schema'' w = Str WAIT_SCHEMA" "is_arr (jget ''human_interactions'' w)"
    using assms(1) by (auto simp: wait_ok_def)
  then obtain hs where hs: "jget ''human_interactions'' w = Arr hs" by (auto elim: is_arrE)
  obtain i where i: "jget ''event_id'' e = Str i" using assms(2) by (cases "jget ''event_id'' e") (auto simp: event_ok_def)
  show thesis
  proof (cases "jget ''event_id'' e \<in> set ids")
    case True
    then show ?thesis using assms o1 i
      by (intro seen) (auto simp: applyWakeEvent_def event_ok_def jincludes_def)
  next
    case new: False
    let ?w1 = "jset ''seen_event_ids'' (Arr (ids @ [jget ''event_id'' e])) w"
    show ?thesis
    proof (cases "jget ''state'' w = Str ''WAITING'' \<and> ends_wait (jget ''wait_id'' w) e")
      case True
      then show ?thesis using new assms o1 i terminal_types_disjoint [of "jget ''type'' e"]
        by (intro ends) (auto simp: applyWakeEvent_def event_ok_def jincludes_def ends_wait_def)
    next
      case False
      then have "applyWakeEvent w e = Inr ?w1
          \<or> applyWakeEvent w e = Inr (jset ''human_interactions'' (Arr (hs @ [human_interaction e])) ?w1)"
        using new assms o1 i hs
        by (simp add: applyWakeEvent_def event_ok_def jincludes_def ends_wait_def Let_def cong: if_cong)
      then consider (plain) "applyWakeEvent w e = Inr ?w1"
        | (human) "applyWakeEvent w e = Inr (jset ''human_interactions'' (Arr (hs @ [human_interaction e])) ?w1)"
        by blast
      then show ?thesis
      proof cases
        case plain
        then show ?thesis using new False o1 by (intro noted [OF new plain]) auto
      next
        case human
        then show ?thesis using new False o1 by (intro noted [OF new human]) auto
      qed
    qed
  qed
qed

lemma applyWakeEvent_ok:
  assumes "wait_ok w" "event_ok e"
  shows "\<exists>w'. applyWakeEvent w e = Inr w' \<and> wait_ok w'"
proof -
  from assms(1) obtain ids where ids: "jget ''seen_event_ids'' w = Arr ids" by (auto simp: wait_ok_def)
  note iss = assms(2) [unfolded event_ok_def, THEN conjunct1]
  show ?thesis
  proof (rule applyWakeEvent_cases [OF assms ids], goal_cases seen ends noted)
    case seen
    with assms(1) show ?thesis by blast
  next
    case (ends w')
    then show ?thesis using assms(1) ids iss
      by (auto simp: wait_ok_def wake_of_def ends_wait_def)
  next
    case (noted w')
    then show ?thesis using assms(1) ids iss by (auto simp: wait_ok_def)
  qed
qed


lemma registerWait_ok: "registerWait wid tid att t d = Inr w \<Longrightarrow> wait_ok w \<and> jget ''wait_id'' w = wid"
  by (auto simp: registerWait_def guard_err_def wait_ok_def WAIT_SCHEMA_def split: if_splits)

lemma first_ending_cong: "set a = set b \<Longrightarrow> first_ending wid a es = first_ending wid b es"
proof (induction es arbitrary: a b)
  case (Cons e es)
  have "set (jget ''event_id'' e # a) = set (jget ''event_id'' e # b)" using Cons.prems by simp
  from Cons.IH [OF this] Cons.IH [OF Cons.prems] show ?case
    by (simp only: first_ending.simps Cons.prems)
qed simp

lemma ready_latched:
  assumes "wait_ok w" "list_all event_ok es" "jget ''state'' w = Str ''READY''"
  shows "\<exists>w'. applyWakeEvents w es = Inr w' \<and> wait_ok w' \<and> jget ''state'' w' = Str ''READY''
    \<and> jget ''wake'' w' = jget ''wake'' w"
  using assms
proof (induction es arbitrary: w)
  case Nil
  then show ?case by simp
next
  case (Cons e es)
  then have e: "event_ok e" and es: "list_all event_ok es" by simp_all
  obtain ids where ids: "jget ''seen_event_ids'' w = Arr ids" using Cons.prems(1) by (auto simp: wait_ok_def)
  obtain w1 where w1: "applyWakeEvent w e = Inr w1" "wait_ok w1"
    using applyWakeEvent_ok [OF Cons.prems(1) e] by blast
  have "jget ''state'' w1 = Str ''READY'' \<and> jget ''wake'' w1 = jget ''wake'' w"
    using Cons.prems(3) w1(1) by (rule_tac applyWakeEvent_cases [OF Cons.prems(1) e ids]) auto
  with Cons.IH [OF w1(2) es] w1(1) show ?case by simp
qed

lemma waiting_run:
  assumes "wait_ok w" "list_all event_ok es" "jget ''state'' w = Str ''WAITING''"
    and "jget ''seen_event_ids'' w = Arr ids"
  shows "\<exists>w'. applyWakeEvents w es = Inr w' \<and> wait_ok w'
    \<and> (case first_ending (jget ''wait_id'' w) ids es of
         None \<Rightarrow> jget ''state'' w' = Str ''WAITING'' \<and> jget ''wake'' w' = Null
       | Some e \<Rightarrow> jget ''state'' w' = Str ''READY'' \<and> jget ''wake'' w' = wake_of e)"
  using assms
proof (induction es arbitrary: w ids)
  case Nil
  then show ?case by (auto simp: wait_ok_def)
next
  case (Cons e es)
  then have e: "event_ok e" and es: "list_all event_ok es" by simp_all
  obtain w1 where w1: "applyWakeEvent w e = Inr w1" "wait_ok w1"
    using applyWakeEvent_ok [OF Cons.prems(1) e] by blast
  show ?case
  proof (rule applyWakeEvent_cases [OF Cons.prems(1) e Cons.prems(4)], goal_cases seen ends noted)
    case seen
    with Cons.IH [OF Cons.prems(1) es Cons.prems(3,4)] show ?case by simp
  next
    case (ends w')
    with w1 have "wait_ok w'" by simp
    moreover have "jget ''state'' w' = Str ''READY''" "jget ''wake'' w' = wake_of e"
      using ends(5) Cons.prems(1) by (simp_all add: wait_ok_def)
    ultimately show ?case using ready_latched [OF _ es, of w'] ends by auto
  next
    case (noted w')
    then have f: "first_ending (jget ''wait_id'' w) ids (e # es)
        = first_ending (jget ''wait_id'' w') (ids @ [jget ''event_id'' e]) es"
      using Cons.prems(3) noted(1,3) first_ending_cong [of "jget ''event_id'' e # ids" "ids @ [jget ''event_id'' e]"]
      by (simp add: noted(7))
    have "wait_ok w'" "jget ''state'' w' = Str ''WAITING''" using noted w1 Cons.prems(3) by auto
    from Cons.IH [OF this(1) es this(2) noted(4)] show ?case unfolding f by (simp add: noted(2))
  qed
qed

section \<open>Properties\<close>

text \<open>Whatever events reach a registered wait, in whatever order and with whatever
  repetitions, the wait ends READY exactly when one of them is a terminal event of this wait
  not seen before, and its wake is the first such event; otherwise it is still WAITING with
  no wake. Heartbeats, wrapper returns, human interactions and events of other waits never
  end it.\<close>

theorem wait_ends_at_first_terminal_event:
  assumes "registerWait wid tid att t d = Inr w" "list_all event_ok es"
  shows "\<exists>w'. applyWakeEvents w es = Inr w'
    \<and> (case first_ending wid [] es of
         None \<Rightarrow> jget ''state'' w' = Str ''WAITING'' \<and> jget ''wake'' w' = Null
       | Some e \<Rightarrow> jget ''state'' w' = Str ''READY'' \<and> jget ''wake'' w' = wake_of e)"
proof -
  have s: "jget ''seen_event_ids'' w = Arr []" "jget ''state'' w = Str ''WAITING''"
    using assms(1) by (auto simp: registerWait_def guard_err_def split: if_splits)
  from registerWait_ok [OF assms(1)] waiting_run [OF _ assms(2) s(2,1)] show ?thesis by blast
qed

text \<open>Once READY a wait keeps its wake: no later event changes or repeats it.\<close>

theorem wake_is_decided_once:
  assumes "wait_ok w" "list_all event_ok es" "jget ''state'' w = Str ''READY''"
  shows "\<exists>w'. applyWakeEvents w es = Inr w' \<and> jget ''wake'' w' = jget ''wake'' w
    \<and> jget ''state'' w' = Str ''READY''"
  using ready_latched [OF assms] by blast

text \<open>Applying an event a second time changes nothing.\<close>

theorem applyWakeEvent_idempotent:
  assumes "wait_ok w" "event_ok e" "applyWakeEvent w e = Inr w'"
  shows "applyWakeEvent w' e = Inr w'"
proof -
  obtain ids where ids: "jget ''seen_event_ids'' w = Arr ids" using assms(1) by (auto simp: wait_ok_def)
  have w': "wait_ok w'" using applyWakeEvent_ok [OF assms(1,2)] assms(3) by simp
  then obtain ids' where ids': "jget ''seen_event_ids'' w' = Arr ids'" by (auto simp: wait_ok_def)
  have "jget ''event_id'' e \<in> set ids'"
    using assms(1,3) ids ids' by (rule_tac applyWakeEvent_cases [OF assms(1,2) ids]) (auto simp: wait_ok_def)
  then show ?thesis by (rule_tac applyWakeEvent_cases [OF w' assms(2) ids']) auto
qed

text \<open>Every way a child can end maps to a type that ends the wait, and only a clean exit
  in time is reported as completion.\<close>

theorem terminalWakeType_terminal:
  "in_strs TERMINAL_WAKE_TYPES (Str (terminalWakeType timedOut stalled exitCode))
    \<and> (terminalWakeType timedOut stalled exitCode = ''child-completed''
       \<longleftrightarrow> \<not> truthy stalled \<and> \<not> truthy timedOut \<and> exitCode = Num 0)"
  by (simp add: terminalWakeType_def TERMINAL_WAKE_TYPES_def)

section \<open>Witnesses\<close>

definition demo_event :: "string \<Rightarrow> string \<Rightarrow> jv" where
  "demo_event i ty = Obj [(''event_id'', Str i), (''type'', Str ty), (''wait_id'', Str ''w'')]"

definition demo_wait :: jv where
  "demo_wait = (case registerWait (Str ''w'') (Str ''t'') (Str ''a'') (Str ''T'') (Str ''D'') of Inr v \<Rightarrow> v | Inl _ \<Rightarrow> Undef)"

lemma demo_wait: "registerWait (Str ''w'') (Str ''t'') (Str ''a'') (Str ''T'') (Str ''D'') = Inr demo_wait"
  by (simp add: demo_wait_def registerWait_def)

theorem wait_ends_at_first_terminal_event_witness:
  "\<exists>w'. applyWakeEvents demo_wait [demo_event ''1'' ''heartbeat'', demo_event ''1'' ''child-failed'',
       demo_event ''2'' ''child-completed'', demo_event ''3'' ''child-failed''] = Inr w'
     \<and> jget ''wake'' w' = wake_of (demo_event ''2'' ''child-completed'')"
proof -
  let ?es = "[demo_event ''1'' ''heartbeat'', demo_event ''1'' ''child-failed'',
       demo_event ''2'' ''child-completed'', demo_event ''3'' ''child-failed'']"
  have f: "first_ending (Str ''w'') [] ?es = Some (demo_event ''2'' ''child-completed'')"
    by (simp add: demo_event_def ends_wait_def TERMINAL_WAKE_TYPES_def)
  have "list_all event_ok ?es" by (simp add: demo_event_def event_ok_def)
  from wait_ends_at_first_terminal_event [OF demo_wait this] f show ?thesis by auto
qed

definition ready_wait :: jv where
  "ready_wait = (case applyWakeEvent demo_wait (demo_event ''2'' ''child-stall'') of Inr v \<Rightarrow> v | Inl _ \<Rightarrow> Undef)"

lemma ready_wait: "applyWakeEvent demo_wait (demo_event ''2'' ''child-stall'') = Inr ready_wait"
    "wait_ok ready_wait" "jget ''state'' ready_wait = Str ''READY''" "wait_ok demo_wait"
    "event_ok (demo_event ''2'' ''child-stall'')"
proof -
  show a: "wait_ok demo_wait" "event_ok (demo_event ''2'' ''child-stall'')"
    using registerWait_ok [OF demo_wait] by (simp_all add: demo_event_def event_ok_def)
  then show b: "applyWakeEvent demo_wait (demo_event ''2'' ''child-stall'') = Inr ready_wait"
    using applyWakeEvent_ok by (fastforce simp: ready_wait_def)
  with applyWakeEvent_ok [OF a] show "wait_ok ready_wait" by simp
  show "jget ''state'' ready_wait = Str ''READY''" by code_simp
qed

theorem wake_is_decided_once_witness:
  "\<exists>w'. applyWakeEvents ready_wait [demo_event ''3'' ''child-failed''] = Inr w' \<and> jget ''wake'' w' = jget ''wake'' ready_wait"
proof -
  have "list_all event_ok [demo_event ''3'' ''child-failed'']" by (simp add: demo_event_def event_ok_def)
  from wake_is_decided_once [OF ready_wait(2) this ready_wait(3)] show ?thesis by blast
qed

theorem applyWakeEvent_idempotent_witness:
  "applyWakeEvent ready_wait (demo_event ''2'' ''child-stall'') = Inr ready_wait"
  by (rule applyWakeEvent_idempotent [OF ready_wait(4,5,1)])

end
