(* ===== verification/WakeQueue.thy ===== *)
theory WakeQueue imports Decision WakeEvents begin

text \<open>
  The queue of terminal wakes (src/wakeup.js): \<open>enqueueTerminalWake\<close>,
  \<open>classifyQueuedWake\<close>, and the reconciliation of a decision whose transport never
  started (\<open>reconcileWakeTransportNotStarted\<close>, \<open>consumeReconciledTransportNotStarted\<close>).
  \<open>realpathSync\<close> is an argument.
\<close>

definition WAKE_REQUEST_SCHEMA :: string where
  "WAKE_REQUEST_SCHEMA = ''opsle.durable-supervisor.host-wake-request/v1''"

definition NATIVE_WAKE_REQUEST_SCHEMA :: string where
  "NATIVE_WAKE_REQUEST_SCHEMA = ''opsle.durable-supervisor.native-wake-request/v2''"

definition verdict :: "string \<Rightarrow> string \<Rightarrow> (string \<times> jv) list \<Rightarrow> jv" where
  "verdict cl reason attrs = Obj ([(''classification'', Str cl), (''reason'', Str reason)] @ attrs)"

section \<open>classifyQueuedWake\<close>

text \<open>\<open>v?.includes(x)\<close> in a condition.\<close>

definition opt_includes :: "jv \<Rightarrow> jv \<Rightarrow> err + bool" where
  "opt_includes v x = (if nullish v then Inr False else includes_call v x)"

text \<open>\<open>v.toLowerCase()\<close>\<close>

fun to_lower :: "jv \<Rightarrow> err + string" where
  "to_lower (Str s) = Inr (map lower_char s)"
| "to_lower _ = Inl TypeErr"

definition classify_decision :: "jv \<Rightarrow> err + jv" where
  "classify_decision decision =
     (if jget ''status'' decision = Str ''TRANSPORT_NOT_STARTED'' then
        Inr (verdict ''queued'' ''awaiting-supported-native-transport'' [(''prior_decision'', decision)])
      else bind_err (to_lower (jget ''status'' decision)) (\<lambda>s.
        Inr (verdict (if jget ''status'' decision = Str ''DELIVERED'' then ''duplicate'' else ''queued'')
          (''activation-decision-'' @ s) [(''decision'', decision)])))"

definition classifyQueuedWake :: "string \<Rightarrow> jv \<Rightarrow> jv \<Rightarrow> jv wio" where
  "classifyQueuedWake root request supervisor =
     (if \<not> in_strs [WAKE_REQUEST_SCHEMA, NATIVE_WAKE_REQUEST_SCHEMA] (jget ''schema'' request) then
        ret (verdict ''queued'' ''invalid-wake-request'' [])
      else if \<not> target_matches request supervisor then
        ret (verdict ''obsolete'' ''wake-target-generation-is-stale'' [])
      else
        bind_io (readJson (p_state (paths root))) (\<lambda>state.
        bind_io (lift_io (opt_includes (jget ''processed_event_ids'' state) (jget ''event_id'' request))) (\<lambda>consumed.
        if consumed then ret (verdict ''obsolete'' ''wake-event-already-consumed'' [])
        else
          bind_io (readOptional (json_in (p_tasks (paths root)) (js_string (jget ''task_id'' request)))) (\<lambda>task.
          bind_io (readOptional (json_in (p_attempts (paths root)) (js_string (jget ''attempt_id'' request)))) (\<lambda>attempt.
          if in_strs [''ACCEPTED'', ''REJECTED''] (jget ''state'' task) \<or> truthy (jget ''supervisor_evaluation'' attempt) then
            ret (verdict ''obsolete'' ''task-already-terminal-and-evaluated'' [])
          else
            bind_io (existsSync (activationDecisionPath root (jget ''event_id'' request))) (\<lambda>decided.
            if decided then
              bind_io (readJson (activationDecisionPath root (jget ''event_id'' request))) (\<lambda>decision.
              lift_io (classify_decision decision))
            else ret (verdict ''queued'' ''awaiting-supported-native-transport'' [])))))))"

section \<open>Reconciliation of a transport that never started\<close>

definition reconcile_fence :: "jv \<Rightarrow> jv \<Rightarrow> jv \<Rightarrow> jv \<Rightarrow> bool" where
  "reconcile_fence request supervisor decision eventId \<longleftrightarrow>
     target_matches request supervisor
     \<and> jget ''schema'' decision = Str ACTIVATION_DECISION_SCHEMA
     \<and> strict_eq (jget ''event_id'' decision) eventId
     \<and> strict_eq (jget ''supervisor_id'' decision) (jget ''supervisor_id'' supervisor)
     \<and> strict_eq (jget ''supervisor_generation'' decision) (jget ''generation'' supervisor)"

definition never_started :: "jv \<Rightarrow> jv \<Rightarrow> jv \<Rightarrow> bool \<Rightarrow> bool" where
  "never_started evidence decision eventId receipt \<longleftrightarrow>
     (let ts = coalesce (jget ''timestamps'' evidence) (Obj []) in
     strict_eq (jget ''event_id'' evidence) eventId
     \<and> strict_eq (jget ''transport_attempt_id'' evidence) (jget ''transport_attempt_id'' decision)
     \<and> strict_eq (jget ''delivery_id'' evidence) (jget ''delivery_id'' decision)
     \<and> strict_eq (jpath [''activation'', ''decision_id''] evidence) (jget ''decision_id'' decision)
     \<and> jget ''confirmation_absence'' evidence = Str ''native-transport-not-started''
     \<and> nullish (jget ''rollout_confirmation'' evidence)
     \<and> nullish (jget ''spawn_requested_at'' ts)
     \<and> nullish (jget ''spawned_at'' ts)
     \<and> nullish (jget ''transport_started_at'' ts)
     \<and> \<not> receipt)"

definition reconciled_decision :: "jv \<Rightarrow> string \<Rightarrow> string \<Rightarrow> jv" where
  "reconciled_decision decision t evidenceSha = jsets [
     (''status'', Str ''TRANSPORT_NOT_STARTED''),
     (''failure'', Str ''transport-not-started''),
     (''reconciled_at'', Str t),
     (''reconciliation'', Obj [
        (''classification'', Str ''transport-not-started''),
        (''native_transport_spawned'', JBool False),
        (''transport_attempt_id'', jget ''transport_attempt_id'' decision),
        (''evidence_sha256'', Str evidenceSha)])] decision"

fun cas_failure :: "cas_result \<Rightarrow> string" where
  "cas_failure r = (if is_swapped r then ''wake reconciliation CAS failed'' else cas_reason r)"

definition reconcileWakeTransportNotStarted :: "(string \<Rightarrow> string) \<Rightarrow> string \<Rightarrow> jv \<Rightarrow> jv wio" where
  "reconcileWakeTransportNotStarted realpath root0 eventId =
     (let root = realpath root0 in
     bind_io (readJson (requestPath root eventId)) (\<lambda>request.
     bind_io (readJson (p_supervisor (paths root))) (\<lambda>supervisor.
     bind_io (readJson (activationDecisionPath root eventId)) (\<lambda>decision.
     guard_io (\<not> reconcile_fence request supervisor decision eventId
         \<or> jget ''status'' decision \<noteq> Str ''UNCERTAIN'' \<or> \<not> is_str (jget ''transport_attempt_id'' decision))
       (Err ''uncertain wake reconciliation fence mismatch'') (
     bind_io (readJson (transportAttemptPath root (jget ''transport_attempt_id'' decision))) (\<lambda>evidence.
     bind_io (existsSync (receiptPath root eventId)) (\<lambda>receipt.
     guard_io (\<not> never_started evidence decision eventId receipt)
       (Err ''native transport absence is not proven; wake remains uncertain'') (
     bind_io (sha256 (canonicalJson decision)) (\<lambda>expected.
     bind_io now (\<lambda>t.
     bind_io (fileSha256 (transportAttemptPath root (jget ''transport_attempt_id'' decision))) (\<lambda>evidenceSha.
     let reconciled = reconciled_decision decision t evidenceSha in
     bind_io (atomicCompareAndSwapJson (activationDecisionPath root eventId) (Some expected) reconciled) (\<lambda>updated.
     guard_io (\<not> is_swapped updated) (Err (cas_failure updated)) (
     bind_io (emit root ''HOST_WAKE_TRANSPORT_NOT_STARTED_RECONCILED'' (Obj [
         (''source_event_id'', eventId),
         (''transport_attempt_id'', jget ''transport_attempt_id'' decision),
         (''native_transport_spawned'', JBool False)])) (\<lambda>_.
     ret (Obj [
        (''event_id'', eventId),
        (''status'', jget ''status'' reconciled),
        (''classification'', jpath [''reconciliation'', ''classification''] reconciled),
        (''native_transport_spawned'', JBool False),
        (''transport_attempt_id'', jget ''transport_attempt_id'' decision),
        (''child_attempt_id'', jget ''attempt_id'' request)])))))))))))))))"

definition consumeReconciledTransportNotStarted :: "(string \<Rightarrow> string) \<Rightarrow> string \<Rightarrow> jv \<Rightarrow> jv \<Rightarrow> jv wio" where
  "consumeReconciledTransportNotStarted realpath root0 eventId generation =
     (let root = realpath root0 in
     bind_io (readJson (p_supervisor (paths root))) (\<lambda>supervisor.
     bind_io (readOptional (requestPath root eventId)) (\<lambda>request.
     if \<not> truthy request then ret Null
     else
       bind_io (readJson (activationDecisionPath root eventId)) (\<lambda>decision.
       bind_io (existsSync (receiptPath root eventId)) (\<lambda>receipt.
       guard_io (map_option Num (js_number generation) \<noteq> Some (jget ''generation'' supervisor)
           \<or> \<not> reconcile_fence request supervisor decision eventId
           \<or> jget ''status'' decision \<noteq> Str ''TRANSPORT_NOT_STARTED''
           \<or> jpath [''reconciliation'', ''classification''] decision \<noteq> Str ''transport-not-started''
           \<or> jpath [''reconciliation'', ''native_transport_spawned''] decision \<noteq> JBool False
           \<or> receipt)
         (Err ''transport-not-started event consumption fence mismatch'') (
       ret (Obj [
         (''delivered'', JBool False),
         (''consumed'', JBool True),
         (''reconciled'', JBool True),
         (''classification'', Str ''transport-not-started''),
         (''native_transport_spawned'', JBool False),
         (''transport_attempt_id'', jget ''transport_attempt_id'' decision),
         (''reconciliation_evidence_sha256'', jpath [''reconciliation'', ''evidence_sha256''] decision)])))))))"

section \<open>enqueueTerminalWake\<close>

definition wake_request :: "jv \<Rightarrow> jv \<Rightarrow> string \<Rightarrow> jv" where
  "wake_request supervisor completionEvent t = Obj [
     (''schema'', Str NATIVE_WAKE_REQUEST_SCHEMA),
     (''event_id'', jget ''event_id'' completionEvent),
     (''event_type'', jget ''type'' completionEvent),
     (''terminal_type'', jget ''terminal_type'' completionEvent),
     (''task_id'', jget ''task_id'' completionEvent),
     (''attempt_id'', jget ''attempt_id'' completionEvent),
     (''wait_id'', jget ''wait_id'' completionEvent),
     (''target'', Obj [
        (''repository'', jget ''repository'' supervisor),
        (''supervisor_id'', jget ''supervisor_id'' supervisor),
        (''supervisor_generation'', jget ''generation'' supervisor)]),
     (''queue_version'', Num 1),
     (''queued_at'', Str t),
     (''adoptions'', Arr [])]"

definition enqueueTerminalWake :: "string \<Rightarrow> jv \<Rightarrow> jv \<Rightarrow> jv wio" where
  "enqueueTerminalWake root completionEvent hostBinding =
     guard_io (jget ''type'' completionEvent \<noteq> Str ''CHILD_COMPLETION''
         \<or> \<not> in_strs TERMINAL_WAKE_TYPES (jget ''terminal_type'' completionEvent))
       (Err ''only durable terminal child events are eligible for host wake delivery'') (
     bind_io (readJson (p_supervisor (paths root))) (\<lambda>supervisor.
     guard_io (truthy hostBinding) (Err ''new wake requests cannot bind a terminal host transport'') (
     bind_io now (\<lambda>t.
     let request = wake_request supervisor completionEvent t; path = requestPath root (jget ''event_id'' completionEvent) in
     bind_io (atomicCreateJson path request) (\<lambda>created.
     if \<not> created then readJson path
     else
       bind_io (emit root ''HOST_WAKE_QUEUED'' (Obj [
           (''source_event_id'', jget ''event_id'' completionEvent),
           (''task_id'', jget ''task_id'' completionEvent),
           (''attempt_id'', jget ''attempt_id'' completionEvent),
           (''terminal_type'', jget ''terminal_type'' completionEvent),
           (''target_supervisor_generation'', jget ''generation'' supervisor)])) (\<lambda>_.
       ret request))))))"


section \<open>Delivered is final\<close>

text \<open>Everything that writes a decision file, as calls on one repository.\<close>

datatype decision_call =
    Claim jv jv jv jv jv int int
  | Settle jv jv jv
  | Reconcile jv

fun run_call :: "host \<Rightarrow> (string \<Rightarrow> string) \<Rightarrow> string \<Rightarrow> decision_call \<Rightarrow> world \<Rightarrow> world" where
  "run_call h rp root (Claim ev lease msg att dl t t') w
     = snd (claimActivationDecision h root ev lease msg att dl t t' w)"
| "run_call h rp root (Settle decision status failure) w = snd (updateActivationDecision root decision status failure w)"
| "run_call h rp root (Reconcile ev) w = snd (reconcileWakeTransportNotStarted rp root ev w)"

fun run_calls :: "host \<Rightarrow> (string \<Rightarrow> string) \<Rightarrow> string \<Rightarrow> decision_call list \<Rightarrow> world \<Rightarrow> world" where
  "run_calls h rp root [] w = w"
| "run_calls h rp root (c # cs) w = run_calls h rp root cs (run_call h rp root c w)"

lemma decision_path_not_journal [simp]: "\<not> journal_path root (activationDecisionPath root ev)"
  by (simp add: activationDecisionPath_def starts_with_def)

lemma decision_same_path:
  "activationDecisionPath root a = activationDecisionPath root b \<Longrightarrow> decision_on_disk root a = decision_on_disk root b"
  by (simp add: decision_on_disk_def fun_eq_iff)

lemma reconcile_post:
  "post (reconcileWakeTransportNotStarted rp root ev) w (\<lambda>r w'.
     (\<exists>c. decision_on_disk (rp root) ev w = Inr c \<and> jget ''status'' c = Str ''UNCERTAIN''
        \<and> (\<forall>p. p \<noteq> activationDecisionPath (rp root) ev \<and> \<not> journal_path (rp root) p \<longrightarrow> bytes_at w' p = bytes_at w p))
     \<or> (\<exists>e. r = Inl e) \<and> same_store w w')"
  unfolding reconcileWakeTransportNotStarted_def
  by (simp add: wp Let_def decision_on_disk_def; intro conjI impI allI; simp)

lemma update_frame_post:
  "post (updateActivationDecision root decision status failure) w (\<lambda>r w'.
     (\<exists>d. decision_on_disk root (jget ''event_id'' decision) w = Inr d \<and> jget ''status'' d = Str ''CLAIMED''
        \<and> (\<forall>p. p \<noteq> activationDecisionPath root (jget ''event_id'' decision) \<longrightarrow> bytes_at w' p = bytes_at w p))
     \<or> same_store w w')"
  unfolding updateActivationDecision_def
  by (simp add: wp jdot_eq_Inr decision_on_disk_def Let_def decision_fence_matches_def; intro conjI impI allI; simp)

lemma decision_call_frame:
  assumes "rp root = root" "decision_on_disk root ev w = Inr c" "jget ''status'' c = Str ''DELIVERED''"
  shows "bytes_at (run_call h rp root call w) (activationDecisionPath root ev) = bytes_at w (activationDecisionPath root ev)"
proof (cases call)
  case (Claim ev' lease msg att dl t t')
  obtain r w' where run: "claimActivationDecision h root ev' lease msg att dl t t' w = (r, w')" by fastforce
  from postD [OF claimActivationDecision_post run] show ?thesis
  proof (elim disjE exE conjE)
    fix x assume won: "claim_won h root ev' lease t w x w'"
    have "activationDecisionPath root ev' \<noteq> activationDecisionPath root ev"
    proof
      assume e: "activationDecisionPath root ev' = activationDecisionPath root ev"
      with decision_same_path [OF e] won assms(2,3) decision_present [OF assms(2)] show False
        by (auto simp: claim_won_def)
    qed
    with won show ?thesis by (simp add: Claim run claim_won_def)
  qed (simp add: Claim run same_store_def)
next
  case (Settle decision status failure)
  let ?e = "jget ''event_id'' decision"
  obtain r w' where run: "updateActivationDecision root decision status failure w = (r, w')" by fastforce
  from postD [OF update_frame_post run] show ?thesis
  proof (elim disjE exE conjE)
    fix d assume d: "decision_on_disk root ?e w = Inr d" "jget ''status'' d = Str ''CLAIMED''"
      and fr: "\<forall>p. p \<noteq> activationDecisionPath root ?e \<longrightarrow> bytes_at w' p = bytes_at w p"
    have "activationDecisionPath root ?e \<noteq> activationDecisionPath root ev"
      using decision_same_path [of root ?e ev] d assms(2,3) by auto
    with fr show ?thesis by (simp add: Settle run)
  qed (simp add: Settle run same_store_def)
next
  case (Reconcile ev')
  obtain r w' where run: "reconcileWakeTransportNotStarted rp root ev' w = (r, w')" by fastforce
  from postD [OF reconcile_post run] show ?thesis
  proof (elim disjE exE conjE)
    fix d assume d: "decision_on_disk (rp root) ev' w = Inr d" "jget ''status'' d = Str ''UNCERTAIN''"
      and fr: "\<forall>p. p \<noteq> activationDecisionPath (rp root) ev' \<and> \<not> journal_path (rp root) p \<longrightarrow> bytes_at w' p = bytes_at w p"
    have "activationDecisionPath root ev' \<noteq> activationDecisionPath root ev"
      using decision_same_path [of root ev' ev] d assms by auto
    with fr assms(1) show ?thesis by (simp add: Reconcile run)
  qed (simp add: Reconcile run same_store_def)
qed


lemma decision_calls_frame:
  assumes "rp root = root" "decision_on_disk root ev w = Inr c" "jget ''status'' c = Str ''DELIVERED''"
  shows "bytes_at (run_calls h rp root calls w) (activationDecisionPath root ev) = bytes_at w (activationDecisionPath root ev)"
  using assms(2)
proof (induction calls arbitrary: w)
  case (Cons call calls)
  note f = decision_call_frame [where rp = rp and root = root, OF assms(1) Cons.prems assms(3)]
  have "decision_on_disk root ev (run_call h rp root call w) = Inr c"
    using Cons.prems f by (simp add: decision_on_disk_def)
  from Cons.IH [OF this] f show ?case by simp
qed simp

lemma enqueue_post:
  "post (enqueueTerminalWake root e hb) w (\<lambda>r w'.
     (bytes_at w (requestPath root (jget ''event_id'' e)) = None
       \<and> jget ''type'' e = Str ''CHILD_COMPLETION'' \<and> in_strs TERMINAL_WAKE_TYPES (jget ''terminal_type'' e)
       \<and> (\<exists>sv t. supervisor_on_disk root w = Inr sv
            \<and> (\<forall>x. r = Inr x \<longrightarrow> x = wake_request sv e t)
            \<and> bytes_at w' (requestPath root (jget ''event_id'' e)) = Some (canonicalJson (wake_request sv e t)))
       \<and> (\<forall>p. p \<noteq> requestPath root (jget ''event_id'' e) \<and> \<not> journal_path root p \<longrightarrow> bytes_at w' p = bytes_at w p))
     \<or> same_store w w' \<and> (\<forall>x. r = Inr x \<longrightarrow> parse_object (requestPath root (jget ''event_id'' e))
          (bytes_at w (requestPath root (jget ''event_id'' e))) = Inr x
         \<and> jget ''type'' e = Str ''CHILD_COMPLETION'' \<and> in_strs TERMINAL_WAKE_TYPES (jget ''terminal_type'' e)))"
proof -
  have n: "\<not> journal_path root (requestPath root x)" for x by (simp add: requestPath_def starts_with_def)
  show ?thesis
    unfolding enqueueTerminalWake_def
    by (simp add: wp Let_def supervisor_on_disk_def n; intro conjI impI allI; blast)
qed

section \<open>Properties\<close>



text \<open>A wake is queued for terminal child completions only, and once: the first call for an
  event writes the request, addressed to the supervisor generation on disk, and a later
  call returns the request that is there and writes nothing.\<close>

theorem enqueue_once:
  assumes "enqueueTerminalWake root e hb w = (Inr r, w')"
  shows "in_strs TERMINAL_WAKE_TYPES (jget ''terminal_type'' e) \<and> jget ''type'' e = Str ''CHILD_COMPLETION''
    \<and> (case bytes_at w (requestPath root (jget ''event_id'' e)) of
         None \<Rightarrow> bytes_at w' (requestPath root (jget ''event_id'' e)) = Some (canonicalJson r)
           \<and> (\<exists>sv. supervisor_on_disk root w = Inr sv \<and> jget ''supervisor_generation'' (jget ''target'' r) = jget ''generation'' sv)
       | Some b \<Rightarrow> parse_object (requestPath root (jget ''event_id'' e)) (Some b) = Inr r \<and> bytes_at w' = bytes_at w)"
  using postD [OF enqueue_post assms]
  by (auto simp: same_store_def wake_request_def parse_object_None split: option.splits)

text \<open>Classifying a queued wake writes nothing, and a well-formed request is said to be queued
  only if it addresses the current supervisor generation, its event was not consumed, its
  task is not terminal, its attempt not evaluated, and no delivered decision exists.\<close>

theorem queued_means_actionable:
  assumes "classifyQueuedWake root request supervisor w = (r, w')"
  shows "w' = w \<and> (\<forall>x. r = Inr x \<and> jget ''classification'' x = Str ''queued''
      \<and> in_strs [WAKE_REQUEST_SCHEMA, NATIVE_WAKE_REQUEST_SCHEMA] (jget ''schema'' request) \<longrightarrow>
      target_matches request supervisor
      \<and> (\<exists>state. parse_object (p_state (paths root)) (bytes_at w (p_state (paths root))) = Inr state
          \<and> opt_includes (jget ''processed_event_ids'' state) (jget ''event_id'' request) = Inr False)
      \<and> (\<forall>d. decision_on_disk root (jget ''event_id'' request) w = Inr d \<longrightarrow> jget ''status'' d \<noteq> Str ''DELIVERED''))"
proof -
  have "post (classifyQueuedWake root request supervisor) w (\<lambda>r w'. w' = w \<and> (\<forall>x. r = Inr x \<and> jget ''classification'' x = Str ''queued''
      \<and> in_strs [WAKE_REQUEST_SCHEMA, NATIVE_WAKE_REQUEST_SCHEMA] (jget ''schema'' request) \<longrightarrow>
      target_matches request supervisor
      \<and> (\<exists>state. parse_object (p_state (paths root)) (bytes_at w (p_state (paths root))) = Inr state
          \<and> opt_includes (jget ''processed_event_ids'' state) (jget ''event_id'' request) = Inr False)
      \<and> (\<forall>d. decision_on_disk root (jget ''event_id'' request) w = Inr d \<longrightarrow> jget ''status'' d \<noteq> Str ''DELIVERED'')))"
    unfolding classifyQueuedWake_def
    by (simp add: wp decision_on_disk_def verdict_def classify_decision_def parse_object_None bind_err_eq_Inr
        cong: if_cong; intro conjI impI allI; fastforce)
  from postD [OF this assms] show ?thesis .
qed


section \<open>Witnesses\<close>


definition uncertain :: jv where
  "uncertain = Obj [(''decision_id'', Str ''d1''), (''delivery_id'', Null), (''event_id'', Str ''e1''),
     (''schema'', Str ''opsle.durable-supervisor.activation-decision/v1''), (''status'', Str ''UNCERTAIN''),
     (''supervisor_generation'', Num 3), (''supervisor_id'', Str ''sup-1''), (''transport_attempt_id'', Str ''t1'')]"

definition absence :: jv where
  "absence = Obj [(''activation'', Obj [(''decision_id'', Str ''d1'')]),
     (''confirmation_absence'', Str ''native-transport-not-started''), (''delivery_id'', Null), (''event_id'', Str ''e1''),
     (''transport_attempt_id'', Str ''t1'')]"

definition uncertain_world :: world where
  "uncertain_world = put_file (transportAttemptPath [] (Str ''t1'')) (canonicalJson absence)
     (put_file (activationDecisionPath [] (Str ''e1'')) (canonicalJson uncertain) queued_world)"

lemma uncertain_small: "jwf absence" "durable absence = absence" "is_obj absence" "jwf uncertain"
    "is_obj uncertain" "durable uncertain = uncertain"
  by code_simp+

lemma uncertain_fences: "reconcile_fence demo_request decision_sv uncertain (Str ''e1'')"
    "never_started absence uncertain (Str ''e1'') False"
  by (simp_all add: reconcile_fence_def demo_request_small(4) never_started_def Let_def)
    (simp_all add: uncertain_def ACTIVATION_DECISION_SCHEMA_def decision_sv_def absence_def)

lemma attempt_paths [simp]:
  "transportAttemptPath root a \<noteq> activationDecisionPath root ev" "transportAttemptPath root a \<noteq> requestPath root ev"
  "activationDecisionPath root ev \<noteq> transportAttemptPath root a" "requestPath root ev \<noteq> transportAttemptPath root a"
  "transportAttemptPath root a \<noteq> p_supervisor (paths root)" "p_supervisor (paths root) \<noteq> transportAttemptPath root a"
  "receiptPath root ev \<noteq> transportAttemptPath root a" "receiptPath root ev \<noteq> activationDecisionPath root ev'"
  "receiptPath root ev \<noteq> requestPath root ev'" "receiptPath root ev \<noteq> p_supervisor (paths root)"
  "receiptPath root ev \<noteq> lease_file root"
  by (auto simp: requestPath_def activationDecisionPath_def transportAttemptPath_def receiptPath_def json_in_def lease_file_def)

lemma uncertain_reconciled:
  obtains r w' where "reconcileWakeTransportNotStarted id [] (Str ''e1'') uncertain_world = (Inr r, w')"
proof -
  let ?w = uncertain_world
  have nr: "bytes_at ?w (receiptPath [] (Str ''e1'')) = None"
  proof -
    have "receiptPath [] (Str ''e1'') \<noteq> ''/.opsle/supervisor.json''" by (simp add: receiptPath_def json_in_def)
    then show ?thesis
      by (simp add: uncertain_world_def queued_world_def leased_world_def lease_world_def del: paths_select)
        (simp add: bytes_at_def)
  qed
  have d: "bytes_at ?w (activationDecisionPath [] (Str ''e1'')) = Some (canonicalJson uncertain)"
    "bytes_at ?w (transportAttemptPath [] (Str ''t1'')) = Some (canonicalJson absence)"
    "bytes_at ?w (requestPath [] (Str ''e1'')) = Some (canonicalJson demo_request)"
    "bytes_at ?w (p_supervisor (paths [])) = Some (canonicalJson decision_sv)" "dirs ?w = []"
    by (simp_all add: uncertain_world_def queued_world_def leased_world_def lease_world_def del: paths_select)
  let ?t = "jget ''transport_attempt_id'' uncertain"
  have t: "?t = Str ''t1''" "jget ''status'' uncertain = Str ''UNCERTAIN''" by (simp_all add: uncertain_def)
  have e: "\<exists>ev w'. emit [] ty x (put_file (activationDecisionPath [] (Str ''e1'')) b (?w\<lparr>ticks := n\<rparr>)) = (Inr ev, w')" for ty x b n
  proof (rule emit_ok, rule disjI2)
    show "\<exists>v. parse_object (p_supervisor (paths [])) (bytes_at (put_file (activationDecisionPath [] (Str ''e1'')) b (?w\<lparr>ticks := n\<rparr>)) (p_supervisor (paths []))) = Inr v"
      using d(4) by (simp add: demo_request_small del: paths_select)
  qed
  have f: "\<exists>v. fst (emit [] ty x (put_file (activationDecisionPath [] (Str ''e1'')) b (?w\<lparr>ticks := n\<rparr>))) = Inr v" for ty x b n
    using e [of ty x b n] by auto
  have "post (reconcileWakeTransportNotStarted id [] (Str ''e1'')) ?w (\<lambda>r w'. \<exists>x. r = Inr x)"
    unfolding reconcileWakeTransportNotStarted_def
    using d nr t f by (simp add: wp Let_def uncertain_small uncertain_fences demo_request_small del: paths_select bind_now bind_sha256) (metis Inr_not_Inl)
  then show thesis by (auto simp: post_def intro: that) (metis prod.collapse that)
qed


definition demo_completion :: jv where
  "demo_completion = Obj [(''event_id'', Str ''e1''), (''type'', Str ''CHILD_COMPLETION''), (''terminal_type'', Str ''child-failed'')]"

theorem enqueue_once_witness:
  "\<exists>r w'. enqueueTerminalWake [] demo_completion Null queued_world = (Inr r, w') \<and> bytes_at w' = bytes_at queued_world"
proof -
  have b: "bytes_at queued_world (requestPath [] (Str ''e1'')) = Some (canonicalJson demo_request)"
    by (simp add: queued_world_def)
  have e: "jget ''event_id'' demo_completion = Str ''e1''" by (simp add: demo_completion_def)
  have c: "in_strs TERMINAL_WAKE_TYPES (jget ''terminal_type'' demo_completion)" "jget ''type'' demo_completion = Str ''CHILD_COMPLETION''"
    by (simp_all add: demo_completion_def TERMINAL_WAKE_TYPES_def)
  have "post (enqueueTerminalWake [] demo_completion Null) queued_world (\<lambda>r w'. r = Inr demo_request)"
    unfolding enqueueTerminalWake_def
    using queued_disks(1) b c demo_request_small
    by (simp add: wp supervisor_on_disk_def e Let_def del: bind_now paths_select)
  then obtain w' where "enqueueTerminalWake [] demo_completion Null queued_world = (Inr demo_request, w')"
    unfolding post_def by (metis prod.collapse)
  with enqueue_once [OF this] b e show ?thesis by auto
qed

theorem queued_means_actionable_witness:
  "classifyQueuedWake [] (Obj [(''schema'', Str ''other'')]) decision_sv queued_world
    = (Inr (verdict ''queued'' ''invalid-wake-request'' []), queued_world)"
proof -
  let ?rq = "Obj [(''schema'', Str ''other'')]"
  have "\<not> in_strs [WAKE_REQUEST_SCHEMA, NATIVE_WAKE_REQUEST_SCHEMA] (jget ''schema'' ?rq)"
    by (simp add: WAKE_REQUEST_SCHEMA_def NATIVE_WAKE_REQUEST_SCHEMA_def)
  then have "fst (classifyQueuedWake [] ?rq decision_sv queued_world) = Inr (verdict ''queued'' ''invalid-wake-request'' [])"
    by (simp add: classifyQueuedWake_def)
  with queued_means_actionable [of "[]" ?rq decision_sv queued_world] show ?thesis by (metis prod.collapse)
qed

end
