(* ===== verification/ReadBack.thy ===== *)
theory ReadBack imports JsonText begin

text \<open>
  What a record looks like after it was written and read back: \<open>durable\<close> commutes with
  every reading operation of the model, so checks on a record and on its durable form agree.
\<close>

named_theorems read_back "reading operations on the durable form of a value"

lemma jget_read_back [read_back]: "jwf v \<Longrightarrow> jget k (durable v) = durable (jget k v)"
proof (cases "is_obj v")
  case False
  then show ?thesis by (cases v) (auto simp: durable_Arr)
qed (simp add: jget_durable)

lemma jwf_jpath: "jwf v \<Longrightarrow> jwf (jpath ks v)"
  by (induction ks v rule: jpath.induct) (auto intro: jwf_jget)

lemma jpath_read_back [read_back]: "jwf v \<Longrightarrow> jpath ks (durable v) = durable (jpath ks v)"
  by (induction ks v rule: jpath.induct) (auto simp: jget_read_back jwf_jget)

lemma durable_JBool_iff [simp]: "durable v = JBool b \<longleftrightarrow> v = JBool b"
  by (cases v) (auto simp: durable_def)

lemma durable_Null_iff [simp]: "durable v = Null \<longleftrightarrow> v = Null"
  by (cases v) (auto simp: durable_def)

lemma kinds_read_back [read_back]:
  "is_str (durable v) = is_str v" "is_bool (durable v) = is_bool v" "is_arr (durable v) = is_arr v"
  "is_num (durable v) = is_num v" "truthy (durable v) = truthy v" "safe_int (durable v) = safe_int v"
  "str_of (durable v) = str_of v" "int_of (durable v) = int_of v" "in_strs xs (durable v) = in_strs xs v"
  by (cases v; simp add: durable_def in_strs_def)+

lemma strict_eq_read_back [read_back]:
  "strict_eq (durable a) (durable b) = strict_eq a b"
  by (cases "is_prim a"; cases "is_prim b") (auto simp: strict_eq_def dest: arg_cong [where f = is_prim])

lemma strict_eq_read_back_left [read_back]: "strict_eq (durable a) b = strict_eq a b"
  by (cases "is_prim a") (simp_all add: strict_eq_def)

lemma strict_eq_read_back_right [read_back]: "strict_eq a (durable b) = strict_eq a b"
  using strict_eq_read_back_left [of b a] by (simp add: strict_eq_sym)

lemma jdot_read_back [read_back]: "jwf v \<Longrightarrow> jdot k (durable v) = (case jdot k v of Inl e \<Rightarrow> Inl e | Inr x \<Rightarrow> Inr (durable x))"
  by (simp add: jdot_def jget_read_back)

text \<open>An element of a stored array: \<open>JSON.stringify\<close> writes \<open>null\<close> for \<open>undefined\<close>.\<close>

definition stored :: "jv \<Rightarrow> jv" where
  "stored x = (if x = Undef then Null else durable x)"

lemma elems_read_back [read_back]: "elems (durable v) = map stored (elems v)"
  by (cases v) (auto simp: durable_def stored_def)

lemma coalesce_read_back [read_back]: "coalesce (durable a) (durable b) = durable (coalesce a b)"
  by (simp add: coalesce_def)

lemma jwf_elems: "jwf v \<Longrightarrow> x \<in> set (elems v) \<Longrightarrow> jwf x"
  by (cases v) auto

lemma jwf_prim [simp]: "is_prim v \<Longrightarrow> jwf v"
  by (cases v) auto

lemma jwf_coalesce: "jwf a \<Longrightarrow> jwf b \<Longrightarrow> jwf (coalesce a b)"
  by (simp add: coalesce_def)

lemma jwf_jsets: "\<forall>kv\<in>set kvs. jwf (snd kv) \<Longrightarrow> jwf o1 \<Longrightarrow> jwf (jsets kvs o1)"
  by (induction kvs o1 rule: jsets.induct) (auto intro: jwf_jset)

lemma jparse_Undef: "jparse (canonicalJson Undef) = None"
  by code_simp

lemma same_text_Undef:
  assumes "canonicalJson a = canonicalJson b" "jwf b" "b \<noteq> Undef"
  shows "a \<noteq> Undef"
  using assms jparse_Undef jparse_canonicalJson by fastforce

text \<open>Two values with the same canonical text agree on every member.\<close>

lemma same_text_get:
  assumes "canonicalJson a = canonicalJson b" "jwf a" "jwf b" "a \<noteq> Undef" "b \<noteq> Undef"
  shows "durable (jget k a) = durable (jget k b)"
  using assms by (metis canonicalJson_inject jget_read_back)

lemma same_text_path:
  assumes "canonicalJson a = canonicalJson b" "jwf a" "jwf b" "a \<noteq> Undef" "b \<noteq> Undef"
  shows "durable (jpath ks a) = durable (jpath ks b)"
  using assms by (metis canonicalJson_inject jpath_read_back)

end
