(* ===== verification/Routing.thy ===== *)
theory Routing imports Events ReadBack begin

text \<open>
  The Gearbox that routes the supervisor's own work (src/supervisor-routing.js):
  discovery of the advertised capabilities, selection of an exact route, validation of a
  routing decision, and the check every later use of an optional capability goes through.
  \<open>lstat\<close> is an argument, as in the code; its times are whole milliseconds.
\<close>

section \<open>Constants\<close>

definition SUPERVISOR_DISCOVERY_SCHEMA :: string where
  "SUPERVISOR_DISCOVERY_SCHEMA = ''opsle.durable-supervisor.supervisor-capability-discovery/v1''"

definition SUPERVISOR_DECISION_SCHEMA :: string where
  "SUPERVISOR_DECISION_SCHEMA = ''opsle.durable-supervisor.supervisor-gearbox-decision/v1''"

definition SUPERVISOR_ROUTE_SCHEMA :: string where
  "SUPERVISOR_ROUTE_SCHEMA = ''opsle.durable-supervisor.exact-supervisor-route/v1''"

definition DIRECT_SOURCE_ROUTE :: string where
  "DIRECT_SOURCE_ROUTE = ''direct_deterministic_source_inspection''"

definition EXTERNAL_DOCUMENTATION_ROUTE :: string where
  "EXTERNAL_DOCUMENTATION_ROUTE = ''current_external_documentation''"

definition EXPLICIT_OPTIONAL_ROUTE :: string where
  "EXPLICIT_OPTIONAL_ROUTE = ''explicit_optional_capability''"

definition execution_routes :: "string list" where
  "execution_routes = [DIRECT_SOURCE_ROUTE, EXTERNAL_DOCUMENTATION_ROUTE, EXPLICIT_OPTIONAL_ROUTE]"

lemma routes_distinct [simp]:
  "EXTERNAL_DOCUMENTATION_ROUTE \<noteq> DIRECT_SOURCE_ROUTE" "DIRECT_SOURCE_ROUTE \<noteq> EXTERNAL_DOCUMENTATION_ROUTE"
  "EXPLICIT_OPTIONAL_ROUTE \<noteq> DIRECT_SOURCE_ROUTE" "EXPLICIT_OPTIONAL_ROUTE \<noteq> EXTERNAL_DOCUMENTATION_ROUTE"
  by (simp_all add: EXTERNAL_DOCUMENTATION_ROUTE_def DIRECT_SOURCE_ROUTE_def EXPLICIT_OPTIONAL_ROUTE_def)

definition OPTIONAL_KINDS :: "string list" where
  "OPTIONAL_KINDS = [''skill'', ''tool'', ''web'', ''mcp'', ''plugin'', ''subagent'']"

definition EXTERNAL_DOCUMENTATION_CAPABILITIES :: "string list" where
  "EXTERNAL_DOCUMENTATION_CAPABILITIES = [''openai-docs'', ''web'']"

definition DEFAULT_CAPABILITIES :: "(string \<times> string) list" where
  "DEFAULT_CAPABILITIES = [(''graphify'', ''skill''), (''openai-docs'', ''skill''), (''web'', ''web''),
     (''plugins'', ''plugin''), (''mcp'', ''mcp''), (''subagents'', ''subagent'')]"

definition routing_decision_path :: "string \<Rightarrow> string \<Rightarrow> string" where
  "routing_decision_path root decisionId = json_in (p_supervisorRouting (paths root)) decisionId"

section \<open>Checked names\<close>

definition nonempty :: "jv \<Rightarrow> string \<Rightarrow> err + string" where
  "nonempty v field = guard_err (\<not> is_str v \<or> trim (str_of v) = []) (Err (field @ '' must be nonempty''))
     (Inr (trim (str_of v)))"

definition lower_alnum :: "char \<Rightarrow> bool" where
  "lower_alnum c \<longleftrightarrow> (CHR ''a'' \<le> c \<and> c \<le> CHR ''z'') \<or> (CHR ''0'' \<le> c \<and> c \<le> CHR ''9'')"

definition alnum :: "char \<Rightarrow> bool" where
  "alnum c \<longleftrightarrow> lower_alnum c \<or> (CHR ''A'' \<le> c \<and> c \<le> CHR ''Z'')"

definition name_mark :: "char \<Rightarrow> bool" where
  "name_mark c \<longleftrightarrow> c = CHR ''.'' \<or> c = CHR ''_'' \<or> c = CHR ''-''"

text \<open>\<open>/^[a-z0-9][a-z0-9._-]*$/\<close> and \<open>/^[A-Za-z0-9][A-Za-z0-9._-]*$/\<close>\<close>

definition capability_name :: "string \<Rightarrow> bool" where
  "capability_name s \<longleftrightarrow> s \<noteq> [] \<and> lower_alnum (hd s) \<and> list_all (\<lambda>c. lower_alnum c \<or> name_mark c) (tl s)"

definition durable_name :: "string \<Rightarrow> bool" where
  "durable_name s \<longleftrightarrow> s \<noteq> [] \<and> alnum (hd s)
     \<and> list_all (\<lambda>c. alnum c \<or> name_mark c) (tl s)"

definition capabilityId :: "jv \<Rightarrow> err + string" where
  "capabilityId v =
     bind_err (nonempty v ''capability_id'') (\<lambda>s.
     let normalized = map lower_char s in
     guard_err (\<not> capability_name normalized) (Err (''invalid capability_id: '' @ js_string v)) (Inr normalized))"

definition durableId :: "jv \<Rightarrow> string \<Rightarrow> err + string" where
  "durableId v field =
     bind_err (nonempty v field) (\<lambda>exact.
     guard_err (\<not> durable_name exact) (Err (''invalid '' @ field @ '': '' @ js_string v)) (Inr exact))"

section \<open>Discovery\<close>

record file_stat =
  st_is_file :: bool
  st_is_symlink :: bool
  st_dev :: int
  st_ino :: int
  st_size :: int
  st_mtime :: int

fun is_enoent :: "err \<Rightarrow> bool" where
  "is_enoent (Coded c m) = (c = ''ENOENT'')" | "is_enoent _ = False"

definition regular_file :: "file_stat \<Rightarrow> bool" where
  "regular_file st \<longleftrightarrow> st_is_file st \<and> \<not> st_is_symlink st"

definition probed :: "bool \<Rightarrow> jv \<Rightarrow> jv" where
  "probed available evidence = Obj [(''available'', JBool available), (''evidence'', evidence)]"

definition stat_evidence :: "file_stat \<Rightarrow> jv" where
  "stat_evidence st = Obj [
     (''path_type'', Str (if regular_file st then ''regular_file'' else ''not_regular_file'')),
     (''device'', Num (st_dev st)),
     (''inode'', Num (st_ino st)),
     (''size'', Num (st_size st)),
     (''modified_ms'', Num (st_mtime st))]"

definition probeInstructionPath :: "(string \<Rightarrow> err + file_stat) \<Rightarrow> jv \<Rightarrow> err + jv" where
  "probeInstructionPath lstat path =
     (if \<not> truthy path then Inr (probed False Null)
      else case lstat (js_string path) of
        Inr st \<Rightarrow> Inr (probed (regular_file st) (stat_evidence st))
      | Inl e \<Rightarrow> if is_enoent e then Inr (probed False Null) else Inl e)"

definition normalizeAdvertisement :: "(string \<Rightarrow> err + file_stat) \<Rightarrow> jv \<Rightarrow> err + string \<times> jv" where
  "normalizeAdvertisement lstat item =
     guard_err (\<not> is_obj item) (Err ''advertised capabilities must be objects'') (
     bind_err (capabilityId (jget ''capability_id'' item)) (\<lambda>idValue.
     bind_err (nonempty (jget ''kind'' item) (''kind for '' @ idValue)) (\<lambda>kind.
     guard_err (kind \<notin> set OPTIONAL_KINDS) (Err (''unsupported optional capability kind: '' @ kind)) (
     let path = jget ''instruction_path'' item in
     guard_err (\<not> nullish path \<and> \<not> is_str path) (Err (''instruction_path for '' @ idValue @ '' must be a string'')) (
     bind_err (probeInstructionPath lstat (coalesce path Null)) (\<lambda>pr.
     Inr (idValue, Obj [
       (''capability_id'', Str idValue),
       (''kind'', Str kind),
       (''advertised'', JBool True),
       (''available'', if truthy path then jget ''available'' pr else JBool (jget ''available'' item = JBool True)),
       (''instruction_path'', coalesce path Null),
       (''availability_evidence'', if truthy path then jget ''evidence'' pr
          else Obj [(''path_type'', Null), (''advertised_available'', JBool (jget ''available'' item = JBool True))]),
       (''instruction_file_read'', JBool False)])))))))"

definition default_capability :: "string \<times> string \<Rightarrow> jv" where
  "default_capability ck = Obj [
     (''capability_id'', Str (fst ck)),
     (''kind'', Str (snd ck)),
     (''advertised'', JBool True),
     (''available'', JBool False),
     (''instruction_path'', Null),
     (''availability_evidence'', Null),
     (''instruction_file_read'', JBool False)]"

text \<open>\<open>new Map(entries)\<close>: a later entry replaces the value of an earlier one in place.\<close>

definition new_map :: "(string \<times> jv) list \<Rightarrow> (string \<times> jv) list" where
  "new_map es = foldl (\<lambda>m e. AList.update (fst e) (snd e) m) [] es"

definition merged_capabilities :: "(string \<times> jv) list \<Rightarrow> jv list" where
  "merged_capabilities advertised =
     foldl (\<lambda>cs item. if list_ex (\<lambda>c. strict_eq (jget ''capability_id'' c) (jget ''capability_id'' item)) cs
         then cs else cs @ [item])
       (map (\<lambda>ck. case map_of advertised (fst ck) of Some v \<Rightarrow> v | None \<Rightarrow> default_capability ck) DEFAULT_CAPABILITIES)
       (map snd advertised)"

definition discoverSupervisorCapabilities ::
    "(string \<Rightarrow> err + file_stat) \<Rightarrow> string \<Rightarrow> jv \<Rightarrow> jv wio" where
  "discoverSupervisorCapabilities lstat root advertisedCapabilities =
     guard_io (\<not> is_arr advertisedCapabilities) (Err ''advertised_capabilities must be an array'') (
     bind_io (lift_io (map_err (normalizeAdvertisement lstat) (elems advertisedCapabilities))) (\<lambda>entries.
     bind_io (id_new ''supervisor-discovery'') (\<lambda>did.
     bind_io now (\<lambda>t.
     ret (Obj [
       (''schema'', Str SUPERVISOR_DISCOVERY_SCHEMA),
       (''discovery_id'', Str did),
       (''repository'', Str root),
       (''discovered_at'', Str t),
       (''discovery_boundary'', Str ''advertisement_and_metadata_only''),
       (''instruction_files_read'', Arr []),
       (''capabilities'', Arr (merged_capabilities (new_map entries)))])))))"

section \<open>Routes\<close>

definition disabledRoute :: jv where
  "disabledRoute = Obj [
     (''schema'', Str SUPERVISOR_ROUTE_SCHEMA),
     (''execution_route'', Str DIRECT_SOURCE_ROUTE),
     (''selected_capability'', Null),
     (''selected_tool'', Str ''direct-source-inspection''),
     (''selected_skill'', Null),
     (''tool_allowlist'', Arr [Str ''direct-source-inspection'']),
     (''skill_allowlist'', Arr []),
     (''web'', Obj [(''enabled'', JBool False), (''mode'', Str ''disabled'')]),
     (''mcp'', Obj [(''enabled'', JBool False), (''server_allowlist'', Arr [])]),
     (''plugins'', Obj [(''enabled'', JBool False), (''plugin_allowlist'', Arr [])]),
     (''subagents'', Obj [(''enabled'', JBool False)])]"

definition optionalRoute :: "jv \<Rightarrow> jv \<Rightarrow> jv" where
  "optionalRoute executionRoute capability =
     (let cid = jget ''capability_id'' capability; kind = jget ''kind'' capability; skill = (kind = Str ''skill'');
        route = jsets [
          (''execution_route'', executionRoute),
          (''selected_capability'', cid),
          (''selected_tool'', if skill then Str ''skill-instruction-loader'' else cid),
          (''selected_skill'', if skill then cid else Null),
          (''tool_allowlist'', Arr [if skill then Str ''skill-instruction-loader'' else cid]),
          (''skill_allowlist'', Arr (if skill then [cid] else []))] disabledRoute in
      if kind = Str ''web'' then jset ''web'' (Obj [(''enabled'', JBool True),
        (''mode'', Str ''selected-current-external-documentation'')]) route
      else if kind = Str ''mcp'' then jset ''mcp'' (Obj [(''enabled'', JBool True), (''server_allowlist'', Arr [cid])]) route
      else if kind = Str ''plugin'' then jset ''plugins'' (Obj [(''enabled'', JBool True), (''plugin_allowlist'', Arr [cid])]) route
      else if kind = Str ''subagent'' then jset ''subagents'' (Obj [(''enabled'', JBool True)]) route
      else route)"

definition currentPolicyHash :: "string \<Rightarrow> string wio" where
  "currentPolicyHash root = bind_io (readFile (p_policy (paths root))) sha256"

text \<open>\<open>v.at(-1)\<close>\<close>

fun at_last :: "jv \<Rightarrow> err + jv" where
  "at_last (Arr xs) = Inr (if xs = [] then Undef else last xs)"
| "at_last (Str s) = Inr (if s = [] then Undef else Str [last s])"
| "at_last _ = Inl TypeErr"

definition decisionSubject :: "string \<Rightarrow> jv \<Rightarrow> jv wio" where
  "decisionSubject root input =
     bind_io (readJson (p_objective (paths root))) (\<lambda>objective.
     bind_io (lift_io (at_last (jget ''history'' objective))) (\<lambda>revision.
     bind_io (if nullish (jget ''task_id'' input) then ret Null
       else bind_io (lift_io (durableId (jget ''task_id'' input) ''task_id'')) (\<lambda>tid.
         readOptional (json_in (p_tasks (paths root)) tid))) (\<lambda>task.
     bind_io (lift_io (jdot ''objective'' revision)) (\<lambda>text.
     bind_io (lift_io (nonempty (jget ''work_description'' input) ''work_description'')) (\<lambda>work.
     ret (Obj [
       (''task_id'', coalesce (jget ''task_id'' input) Null),
       (''task_objective'', coalesce (coalesce (jget ''objective'' task) (jget ''task_objective'' input)) Null),
       (''objective_id'', jget ''objective_id'' objective),
       (''objective_revision'', jget ''current_revision'' objective),
       (''objective'', text),
       (''work_description'', Str work)]))))))"

section \<open>Validation of a decision\<close>

definition exactOptionalShape :: "jv \<Rightarrow> jv \<Rightarrow> err + bool" where
  "exactOptionalShape route capability =
     bind_err (jdot ''execution_route'' route) (\<lambda>er.
     Inr (canonicalJson route = canonicalJson (optionalRoute er capability)))"

text \<open>\<open>typeof v !== 'string' || !v.trim()\<close>\<close>

definition blank :: "jv \<Rightarrow> bool" where
  "blank v \<longleftrightarrow> \<not> is_str v \<or> trim (str_of v) = []"

definition capability_unsafe :: "jv \<Rightarrow> err + bool" where
  "capability_unsafe item =
     bind_err (jdot ''instruction_file_read'' item) (\<lambda>r.
     Inr (r \<noteq> JBool False \<or> \<not> is_bool (jget ''available'' item)
       \<or> \<not> in_strs OPTIONAL_KINDS (jget ''kind'' item) \<or> \<not> is_str (jget ''capability_id'' item)))"

definition selected_among :: "jv \<Rightarrow> jv list \<Rightarrow> err + jv option" where
  "selected_among cid caps = find_err (\<lambda>item. bind_err (jdot ''capability_id'' item) (\<lambda>c. Inr (strict_eq c cid))) caps"

definition direct_violation :: "jv \<Rightarrow> bool" where
  "direct_violation route \<longleftrightarrow> jget ''selected_capability'' route \<noteq> Null
     \<or> jget ''selected_tool'' route \<noteq> Str ''direct-source-inspection''
     \<or> jget ''selected_skill'' route \<noteq> Null
     \<or> canonicalJson route \<noteq> canonicalJson disabledRoute"

definition optional_violation :: "jv \<Rightarrow> jv list \<Rightarrow> err + bool" where
  "optional_violation route caps =
     bind_err (selected_among (jget ''selected_capability'' route) caps) (\<lambda>found.
     case found of None \<Rightarrow> Inr True
     | Some capability \<Rightarrow> or_err (Inr (\<not> truthy (jget ''available'' capability)))
         (bind_err (exactOptionalShape route capability) (\<lambda>e. Inr (\<not> e))))"

definition route_errors :: "jv \<Rightarrow> jv \<Rightarrow> err + string list" where
  "route_errors route capabilities =
     (if jget ''execution_route'' route = Str DIRECT_SOURCE_ROUTE then
        complain (direct_violation route) ''direct route must deny every optional capability''
      else if is_arr capabilities then gather [
        complain_err (optional_violation route (elems capabilities))
          ''optional route is not exact, available, and fail-closed'',
        complain (in_strs EXTERNAL_DOCUMENTATION_CAPABILITIES (jget ''selected_capability'' route)
            \<noteq> (jget ''execution_route'' route = Str EXTERNAL_DOCUMENTATION_ROUTE))
          ''external documentation capability requires its exact route'']
      else Inr [])"

definition supervisorRoutingDecisionErrors :: "jv \<Rightarrow> jv \<Rightarrow> jv \<Rightarrow> err + string list" where
  "supervisorRoutingDecisionErrors decision objective policySha256 =
     (let route = jget ''selected_route'' decision;
          capabilities = jpath [''discovery'', ''capabilities''] decision;
          subject = jget ''subject'' decision in
      gather [
        complain (jget ''schema'' decision \<noteq> Str SUPERVISOR_DECISION_SCHEMA) ''invalid decision schema'',
        complain (jpath [''discovery'', ''schema''] decision \<noteq> Str SUPERVISOR_DISCOVERY_SCHEMA) ''invalid discovery schema'',
        complain (jpath [''discovery'', ''instruction_files_read'', ''length''] decision \<noteq> Num 0)
          ''discovery read instruction files'',
        complain (jpath [''classification_inputs'', ''static_category_match_authority''] decision \<noteq> Str ''non_authoritative'')
          ''static category matching must be non-authoritative'',
        complain (blank (jget ''intelligence_or_tooling_rationale'' decision)) ''missing intelligence/tooling rationale'',
        complain (blank (jget ''direct_inspection_insufficiency_rationale'' decision)) ''missing direct-inspection rationale'',
        complain (jget ''schema'' route \<noteq> Str SUPERVISOR_ROUTE_SCHEMA) ''invalid exact route schema'',
        complain (\<not> in_strs execution_routes (jget ''execution_route'' route)) ''invalid execution route'',
        complain (\<not> is_arr (jget ''tool_allowlist'' route) \<or> \<not> is_arr (jget ''skill_allowlist'' route))
          ''route allowlists must be arrays'',
        complain_err (or_err (Inr (\<not> is_arr capabilities)) (some_err capability_unsafe (elems capabilities)))
          ''capability discovery must not read instructions'',
        complain (\<not> strict_eq (jget ''selected_execution_route'' decision) (jget ''execution_route'' route)
            \<or> \<not> strict_eq (jget ''selected_tool'' decision) (jget ''selected_tool'' route)
            \<or> \<not> strict_eq (jget ''selected_skill'' decision) (jget ''selected_skill'' route))
          ''top-level selection must exactly match the selected route'',
        route_errors route capabilities,
        complain (\<not> truthy (jget ''objective_id'' subject) \<or> \<not> safe_int (jget ''objective_revision'' subject)
            \<or> \<not> truthy (jget ''objective'' subject) \<or> \<not> truthy (jget ''work_description'' subject))
          ''decision subject must record task/objective context'',
        complain (truthy objective \<and> (\<not> strict_eq (jget ''objective_id'' subject) (jget ''objective_id'' objective)
            \<or> \<not> strict_eq (jget ''objective_revision'' subject) (jget ''current_revision'' objective)))
          ''decision objective is stale'',
        complain (truthy policySha256 \<and> \<not> strict_eq (jget ''policy_sha256'' decision) policySha256)
          ''decision policy is stale''])"

section \<open>Selection\<close>

definition direct_default :: jv where
  "direct_default = Str ''Direct deterministic/source inspection is adequate; no optional intelligence or tooling is required.''"

definition sufficient_default :: jv where
  "sufficient_default = Str ''Direct inspection is sufficient for this work, so no insufficiency justifies an optional route.''"

definition route_for :: "jv \<Rightarrow> jv list \<Rightarrow> jv \<Rightarrow> err + jv" where
  "route_for requestedRoute capabilities requested =
     (if requestedRoute = Str DIRECT_SOURCE_ROUTE then Inr disabledRoute
      else
        bind_err (capabilityId requested) (\<lambda>cap.
        bind_err (selected_among (Str cap) capabilities) (\<lambda>found.
        let selected = (case found of None \<Rightarrow> Undef | Some c \<Rightarrow> c) in
        guard_err (\<not> truthy (jget ''available'' selected))
          (Err (''optional capability is not advertised and available: '' @ cap)) (
        guard_err (cap \<in> set EXTERNAL_DOCUMENTATION_CAPABILITIES \<and> requestedRoute \<noteq> Str EXTERNAL_DOCUMENTATION_ROUTE)
          (Err (cap @ '' requires exact '' @ EXTERNAL_DOCUMENTATION_ROUTE @ '' selection'')) (
        guard_err (requestedRoute = Str EXTERNAL_DOCUMENTATION_ROUTE \<and> cap \<notin> set EXTERNAL_DOCUMENTATION_CAPABILITIES)
          (Err (cap @ '' is not a current external documentation capability'')) (
        Inr (optionalRoute requestedRoute selected)))))))"

definition routing_decision ::
    "string \<Rightarrow> jv \<Rightarrow> jv \<Rightarrow> jv \<Rightarrow> jv \<Rightarrow> jv \<Rightarrow> string \<Rightarrow> string \<Rightarrow> jv \<Rightarrow> string \<Rightarrow> string \<Rightarrow> jv" where
  "routing_decision did subject input discovery requestedRoute selectedRoute intelligence insufficiency policy policySha t = Obj [
     (''schema'', Str SUPERVISOR_DECISION_SCHEMA),
     (''decision_id'', Str did),
     (''subject'', subject),
     (''work_class'', coalesce (jget ''work_class'' input) (Str ''unspecified'')),
     (''discovery'', discovery),
     (''classification_inputs'', Obj [
        (''static_category_match'', coalesce (jget ''static_category_match'' input) Null),
        (''static_category_match_authority'', Str ''non_authoritative''),
        (''requested_route'', requestedRoute),
        (''requested_capability'', coalesce (jget ''requested_capability'' input) Null)]),
     (''selected_route'', selectedRoute),
     (''selected_execution_route'', jget ''execution_route'' selectedRoute),
     (''selected_tool'', jget ''selected_tool'' selectedRoute),
     (''selected_skill'', jget ''selected_skill'' selectedRoute),
     (''intelligence_or_tooling_rationale'', Str intelligence),
     (''direct_inspection_insufficiency_rationale'', Str insufficiency),
     (''policy_version'', jget ''version'' policy),
     (''policy_sha256'', Str policySha),
     (''platform_safety_mandates'', Str ''remain_authoritative_and_outside_optional_routing''),
     (''created_at'', Str t)]"

definition rationale :: "jv \<Rightarrow> jv \<Rightarrow> string \<Rightarrow> jv \<Rightarrow> err + string" where
  "rationale requestedRoute input field fallback =
     nonempty (if requestedRoute = Str DIRECT_SOURCE_ROUTE then coalesce (jget field input) fallback else jget field input) field"

definition persistSupervisorRoutingDecision :: "string \<Rightarrow> jv \<Rightarrow> unit wio" where
  "persistSupervisorRoutingDecision root decision =
     bind_io (mkdirp (p_supervisorRouting (paths root))) (\<lambda>_.
     writeJson (routing_decision_path root (js_string (jget ''decision_id'' decision))) decision)"

definition selectSupervisorRoute :: "(string \<Rightarrow> err + file_stat) \<Rightarrow> string \<Rightarrow> jv \<Rightarrow> jv wio" where
  "selectSupervisorRoute lstat root input =
     guard_io (\<not> is_obj input) (Err ''supervisor routing input must be an object'') (
     bind_io (readJson (p_policy (paths root))) (\<lambda>policy.
     guard_io (jpath [''gearbox'', ''required''] policy \<noteq> JBool True) (Err ''operator policy does not require Gearbox'') (
     bind_io (discoverSupervisorCapabilities lstat root (coalesce (jget ''advertised_capabilities'' input) (Arr []))) (\<lambda>discovery.
     let requestedRoute = coalesce (jget ''requested_route'' input) (Str DIRECT_SOURCE_ROUTE) in
     guard_io (\<not> in_strs execution_routes requestedRoute)
       (Err (''unsupported supervisor execution route: '' @ js_string requestedRoute)) (
     bind_io (lift_io (route_for requestedRoute (elems (jget ''capabilities'' discovery)) (jget ''requested_capability'' input)))
       (\<lambda>selectedRoute.
     bind_io (lift_io (rationale requestedRoute input ''intelligence_or_tooling_rationale'' direct_default)) (\<lambda>intelligence.
     bind_io (lift_io (rationale requestedRoute input ''direct_inspection_insufficiency_rationale'' sufficient_default)) (\<lambda>insufficiency.
     bind_io (decisionSubject root input) (\<lambda>subject.
     bind_io (id_new ''supervisor-gearbox'') (\<lambda>did.
     bind_io (currentPolicyHash root) (\<lambda>policySha.
     bind_io now (\<lambda>t.
     let decision = routing_decision did subject input discovery requestedRoute selectedRoute intelligence insufficiency policy policySha t in
     bind_io (readJson (p_objective (paths root))) (\<lambda>objective.
     bind_io (currentPolicyHash root) (\<lambda>sha.
     bind_io (lift_io (supervisorRoutingDecisionErrors decision objective (Str sha))) (\<lambda>errors.
     guard_io (errors \<noteq> []) (Err (''invalid supervisor Gearbox decision: '' @ join_with ''; '' errors)) (
     bind_io (persistSupervisorRoutingDecision root decision) (\<lambda>_.
     ret decision)))))))))))))))))"

section \<open>Use of a decision\<close>

definition readSupervisorRoutingDecision :: "string \<Rightarrow> jv \<Rightarrow> jv wio" where
  "readSupervisorRoutingDecision root decisionId =
     bind_io (lift_io (durableId decisionId ''decision_id'')) (\<lambda>exactId.
     readJson (routing_decision_path root exactId))"

definition requireSelectedSupervisorCapability :: "string \<Rightarrow> jv \<Rightarrow> jv \<Rightarrow> jv wio" where
  "requireSelectedSupervisorCapability root decisionId request =
     bind_io (readSupervisorRoutingDecision root decisionId) (\<lambda>decision.
     bind_io (readJson (p_objective (paths root))) (\<lambda>objective.
     bind_io (currentPolicyHash root) (\<lambda>sha.
     bind_io (lift_io (supervisorRoutingDecisionErrors decision objective (Str sha))) (\<lambda>errors.
     guard_io (errors \<noteq> []) (Err (''supervisor routing decision is not current and valid: '' @ join_with ''; '' errors)) (
     bind_io (lift_io (jdot ''capability_id'' request)) (\<lambda>asked.
     bind_io (lift_io (capabilityId asked)) (\<lambda>cap.
     bind_io (lift_io (selected_among (Str cap) (elems (jpath [''discovery'', ''capabilities''] decision)))) (\<lambda>found.
     let capability = (case found of None \<Rightarrow> Undef | Some c \<Rightarrow> c) in
     guard_io (\<not> truthy capability \<or> jpath [''selected_route'', ''selected_capability''] decision \<noteq> Str cap)
       (Err (''optional capability was not selected durably: '' @ cap)) (
     guard_io (truthy (jget ''kind'' request) \<and> \<not> strict_eq (jget ''kind'' request) (jget ''kind'' capability))
       (Err (''optional capability kind mismatch: '' @ cap)) (
     ret (Obj [
       (''decision'', decision),
       (''capability'', capability),
       (''selected_route'', jget ''selected_route'' decision)])))))))))))"

definition load_instructions :: "(string \<Rightarrow> err + file_stat) \<Rightarrow> jv \<Rightarrow> jv \<Rightarrow> jv wio" where
  "load_instructions lstat skillId selected =
     (let path = jpath [''capability'', ''instruction_path''] selected in
     guard_io (\<not> truthy path) (Err (''selected skill has no instruction path: '' @ js_string skillId)) (
     bind_io (lift_io (probeInstructionPath lstat path)) (\<lambda>current.
     guard_io (\<not> truthy (jget ''available'' current)
         \<or> canonicalJson (jget ''evidence'' current) \<noteq> canonicalJson (jpath [''capability'', ''availability_evidence''] selected))
       (Err (''selected skill instruction path changed after discovery: '' @ js_string skillId)) (
     bind_io (readFile (js_string path)) (\<lambda>instructions.
     ret (Obj [
       (''decision_id'', jpath [''decision'', ''decision_id''] selected),
       (''skill_id'', jpath [''capability'', ''capability_id''] selected),
       (''instruction_path'', path),
       (''instructions'', Str instructions)]))))))"

definition loadSelectedSupervisorSkillInstructions ::
    "(string \<Rightarrow> err + file_stat) \<Rightarrow> string \<Rightarrow> jv \<Rightarrow> jv \<Rightarrow> jv wio" where
  "loadSelectedSupervisorSkillInstructions lstat root decisionId skillId =
     bind_io (requireSelectedSupervisorCapability root decisionId
       (Obj [(''capability_id'', skillId), (''kind'', Str ''skill'')])) (load_instructions lstat skillId)"


section \<open>A valid decision allows one capability at most\<close>

lemma jwf_routes: "jwf disabledRoute" "jwf er \<Longrightarrow> jwf cap \<Longrightarrow> jwf (optionalRoute er cap)"
  by (code_simp) (auto simp: optionalRoute_def Let_def disabledRoute_def intro!: jwf_jset jwf_jsets jwf_jget)

lemma is_obj_routes [simp]: "is_obj disabledRoute" "is_obj (optionalRoute er cap)"
  by (auto simp: optionalRoute_def Let_def disabledRoute_def)

lemma Str_member_obj: "jget k v = Str s \<Longrightarrow> is_obj v"
  by (cases v) (auto split: if_splits)

text \<open>The four switches of a route and the kind of capability that turns each on.\<close>

definition route_switches :: "(string \<times> string) list" where
  "route_switches = [(''web'', ''web''), (''mcp'', ''mcp''), (''plugins'', ''plugin''), (''subagents'', ''subagent'')]"

lemma disabled_switches:
  "(f, k) \<in> set route_switches \<Longrightarrow> jpath [f, ''enabled''] disabledRoute = JBool False"
  by (auto simp: route_switches_def disabledRoute_def)

lemma optional_switches:
  "(f, k) \<in> set route_switches \<Longrightarrow>
    jpath [f, ''enabled''] (optionalRoute er cap) = JBool (jget ''kind'' cap = Str k)"
  by (auto simp: route_switches_def optionalRoute_def disabledRoute_def Let_def jget_jsets)

lemma optional_selected [simp]: "jget ''selected_capability'' (optionalRoute er cap) = jget ''capability_id'' cap"
  by (auto simp: optionalRoute_def disabledRoute_def Let_def jget_jsets)

lemma valid_decisionD:
  assumes "supervisorRoutingDecisionErrors d o1 pol = Inr []"
  defines "route \<equiv> jget ''selected_route'' d" and "caps \<equiv> jpath [''discovery'', ''capabilities''] d"
  shows "jget ''schema'' route = Str SUPERVISOR_ROUTE_SCHEMA" and "is_arr caps"
    and "route_errors route caps = Inr []"
    and "\<forall>c\<in>set (elems caps). capability_unsafe c = Inr False"
    and "truthy pol \<Longrightarrow> strict_eq (jget ''policy_sha256'' d) pol"
    and "truthy o1 \<Longrightarrow> strict_eq (jpath [''subject'', ''objective_id''] d) (jget ''objective_id'' o1)"
    and "truthy o1 \<Longrightarrow> strict_eq (jpath [''subject'', ''objective_revision''] d) (jget ''current_revision'' o1)"
  using assms(1)
  by (auto simp: supervisorRoutingDecisionErrors_def route_def caps_def Let_def some_err_False split: if_splits)

lemma optional_violation_False:
  assumes "optional_violation route caps = Inr False"
  obtains cap where "cap \<in> set caps" "truthy (jget ''available'' cap)"
    "strict_eq (jget ''capability_id'' cap) (jget ''selected_capability'' route)"
    "canonicalJson route = canonicalJson (optionalRoute (jget ''execution_route'' route) cap)"
  using assms
  by (auto simp: optional_violation_def exactOptionalShape_def selected_among_def bind_err_eq_Inr or_err_False
      jdot_eq_Inr split: option.splits if_splits dest!: find_err_Some)

text \<open>C31: a valid routing decision grants least privilege. Each of the web, MCP, plugin and
  subagent switches of its route is a boolean; a switch is on only when a capability of the
  matching kind was discovered as available and is the one selected; and on the direct route
  every switch is off.\<close>

theorem routing_least_privilege:
  assumes valid: "supervisorRoutingDecisionErrors d o1 pol = Inr []" and wf: "jwf d"
    and fk: "(f, k) \<in> set route_switches"
  shows "\<exists>b. jpath [''selected_route'', f, ''enabled''] d = JBool b
    \<and> (b \<longrightarrow> jpath [''selected_route'', ''execution_route''] d \<noteq> Str DIRECT_SOURCE_ROUTE
        \<and> (\<exists>cap\<in>set (elems (jpath [''discovery'', ''capabilities''] d)).
             truthy (jget ''available'' cap) \<and> jget ''kind'' cap = Str k
             \<and> strict_eq (jget ''capability_id'' cap) (jpath [''selected_route'', ''selected_capability''] d)))"
proof -
  let ?r = "jget ''selected_route'' d" and ?caps = "jpath [''discovery'', ''capabilities''] d"
  note v = valid_decisionD [OF valid]
  have r: "is_obj ?r" "?r \<noteq> Undef" "jwf ?r"
    using Str_member_obj [OF v(1)] wf by (auto intro: jwf_jget)
  show ?thesis
  proof (cases "jget ''execution_route'' ?r = Str DIRECT_SOURCE_ROUTE")
    case True
    with v(3) have "canonicalJson ?r = canonicalJson disabledRoute"
      by (simp add: route_errors_def direct_violation_def)
    from same_text_path [OF this r(3) jwf_routes(1) r(2), of "[f, ''enabled'']"] disabled_switches [OF fk]
    have "jpath [f, ''enabled''] ?r = JBool False"
      using is_obj_not_nullish [OF is_obj_routes(1)] by fastforce
    then show ?thesis by auto
  next
    case False
    with v(2,3) have "optional_violation ?r (elems ?caps) = Inr False" by (simp add: route_errors_def)
    then obtain cap where cap: "cap \<in> set (elems ?caps)" "truthy (jget ''available'' cap)"
        "strict_eq (jget ''capability_id'' cap) (jget ''selected_capability'' ?r)"
      and same: "canonicalJson ?r = canonicalJson (optionalRoute (jget ''execution_route'' ?r) cap)"
      by (rule optional_violation_False)
    have "jwf cap" using cap(1) wf by (blast intro: jwf_elems jwf_jpath)
    then have "durable (jpath [f, ''enabled''] ?r) = JBool (jget ''kind'' cap = Str k)"
      using same_text_path [OF same r(3) jwf_routes(2) r(2), of "[f, ''enabled'']"] r(3)
        optional_switches [OF fk] is_obj_not_nullish [OF is_obj_routes(2)]
      by (metis durable_simps(5) jwf_jget nullish.simps(1))
    then have "jpath [f, ''enabled''] ?r = JBool (jget ''kind'' cap = Str k)" by simp
    with cap False show ?thesis by auto
  qed
qed

section \<open>Using an optional capability\<close>

text \<open>A decision that is valid against the objective and the policy on disk.\<close>

definition decision_in_force :: "string \<Rightarrow> jv \<Rightarrow> world \<Rightarrow> bool" where
  "decision_in_force root decision w = (case (parse_object (p_objective (paths root)) (bytes_at w (p_objective (paths root))),
       bytes_at w (p_policy (paths root))) of
     (Inr objective, Some policy) \<Rightarrow> supervisorRoutingDecisionErrors decision objective (Str (digest w policy)) = Inr []
   | _ \<Rightarrow> False)"

lemma currentPolicyHash_run [simp]:
  "currentPolicyHash root w = (case bytes_at w (p_policy (paths root)) of
       None \<Rightarrow> (Inl (Coded ''ENOENT'' (''no such file: '' @ p_policy (paths root))), w)
     | Some b \<Rightarrow> (Inr (digest w b), w))"
  by (simp add: currentPolicyHash_def bind_io_def readFile_def split: option.splits)

lemma post_policyHash [wp]: "post (currentPolicyHash root) w Q \<longleftrightarrow> Q (case bytes_at w (p_policy (paths root)) of
       None \<Rightarrow> Inl (Coded ''ENOENT'' (''no such file: '' @ p_policy (paths root))) | Some b \<Rightarrow> Inr (digest w b)) w"
  by (simp add: post_def split: option.splits)

lemma selected_amongD:
  "selected_among cid caps = Inr (Some cap) \<Longrightarrow> cap \<in> set caps \<and> strict_eq (jget ''capability_id'' cap) cid"
  by (auto simp: selected_among_def bind_err_eq_Inr jdot_eq_Inr dest!: find_err_Some)

lemma in_force_available:
  assumes "decision_in_force root d w"
    and "selected_among (Str c) (elems (jpath [''discovery'', ''capabilities''] d)) = Inr (Some cap)"
    and "jpath [''selected_route'', ''selected_capability''] d = Str c"
  shows "truthy (jget ''available'' cap) \<and> jpath [''selected_route'', ''execution_route''] d \<noteq> Str DIRECT_SOURCE_ROUTE"
proof -
  let ?r = "jget ''selected_route'' d" and ?caps = "jpath [''discovery'', ''capabilities''] d"
  from assms(1) obtain o1 pol where "supervisorRoutingDecisionErrors d o1 pol = Inr []"
    by (auto simp: decision_in_force_def split: sum.splits option.splits)
  note v = valid_decisionD [OF this]
  have nd: "jget ''execution_route'' ?r \<noteq> Str DIRECT_SOURCE_ROUTE"
    using v(3) assms(3) by (auto simp: route_errors_def direct_violation_def)
  with v(2,3) have "optional_violation ?r (elems ?caps) = Inr False" by (simp add: route_errors_def)
  with assms(2,3) nd show ?thesis
    by (auto simp: optional_violation_def split: if_splits)
qed

lemma require_post:
  "post (requireSelectedSupervisorCapability root did request) w (\<lambda>r w'. w' = w \<and> (\<forall>sel. r = Inr sel \<longrightarrow>
     (\<exists>name c d cap. durableId did ''decision_id'' = Inr name
       \<and> parse_object (routing_decision_path root name) (bytes_at w (routing_decision_path root name)) = Inr d
       \<and> decision_in_force root d w
       \<and> capabilityId (jget ''capability_id'' request) = Inr c
       \<and> selected_among (Str c) (elems (jpath [''discovery'', ''capabilities''] d)) = Inr (Some cap)
       \<and> jpath [''selected_route'', ''selected_capability''] d = Str c
       \<and> (truthy (jget ''kind'' request) \<longrightarrow> strict_eq (jget ''kind'' request) (jget ''kind'' cap))
       \<and> sel = Obj [(''decision'', d), (''capability'', cap), (''selected_route'', jget ''selected_route'' d)])))"
  unfolding requireSelectedSupervisorCapability_def readSupervisorRoutingDecision_def
  by (simp add: wp Let_def decision_in_force_def jdot_eq_Inr split: option.splits)

text \<open>An optional capability is handed out only under a decision that is on disk and valid
  against the current objective and policy, that does not take the direct route, that selected
  exactly the requested capability, and whose discovery found it available; the kind asked for
  is the kind discovered, and asking changes nothing.\<close>

theorem capability_use_needs_selection:
  assumes "requireSelectedSupervisorCapability root did request w = (Inr sel, w')"
  shows "w' = w \<and> (\<exists>name c. durableId did ''decision_id'' = Inr name
    \<and> parse_object (routing_decision_path root name) (bytes_at w (routing_decision_path root name)) = Inr (jget ''decision'' sel)
    \<and> decision_in_force root (jget ''decision'' sel) w
    \<and> jpath [''decision'', ''selected_route'', ''execution_route''] sel \<noteq> Str DIRECT_SOURCE_ROUTE
    \<and> capabilityId (jget ''capability_id'' request) = Inr c
    \<and> jpath [''decision'', ''selected_route'', ''selected_capability''] sel = Str c
    \<and> jget ''capability'' sel \<in> set (elems (jpath [''decision'', ''discovery'', ''capabilities''] sel))
    \<and> jpath [''capability'', ''capability_id''] sel = Str c
    \<and> truthy (jpath [''capability'', ''available''] sel)
    \<and> (truthy (jget ''kind'' request) \<longrightarrow> jget ''kind'' request = jpath [''capability'', ''kind''] sel))"
proof -
  from postD [OF require_post assms] obtain name c d cap where
      d: "w' = w" "durableId did ''decision_id'' = Inr name"
        "parse_object (routing_decision_path root name) (bytes_at w (routing_decision_path root name)) = Inr d"
        "decision_in_force root d w" "capabilityId (jget ''capability_id'' request) = Inr c"
        "jpath [''selected_route'', ''selected_capability''] d = Str c"
        "truthy (jget ''kind'' request) \<longrightarrow> strict_eq (jget ''kind'' request) (jget ''kind'' cap)"
      and found: "selected_among (Str c) (elems (jpath [''discovery'', ''capabilities''] d)) = Inr (Some cap)"
      and sel: "sel = Obj [(''decision'', d), (''capability'', cap), (''selected_route'', jget ''selected_route'' d)]"
    by auto
  have "jget ''kind'' request = jget ''kind'' cap" if "truthy (jget ''kind'' request)"
    using d(7) that by (blast dest: strict_eq_imp_eq)
  with d selected_amongD [OF found] in_force_available [OF d(4) found d(6)] sel show ?thesis by simp
qed

text \<open>The instructions of a skill are read only under a decision in force that selected the
  skill, and only from a path that is now a regular file with the device, inode, size and
  modification time recorded at discovery.\<close>

theorem skill_instructions_unchanged_since_discovery:
  assumes "loadSelectedSupervisorSkillInstructions lstat root did skill w = (Inr r, w')"
  shows "w' = w \<and> (\<exists>d cap st. decision_in_force root d w
    \<and> cap \<in> set (elems (jpath [''discovery'', ''capabilities''] d))
    \<and> jpath [''selected_route'', ''selected_capability''] d = jget ''capability_id'' cap
    \<and> jget ''kind'' cap = Str ''skill''
    \<and> lstat (js_string (jget ''instruction_path'' cap)) = Inr st \<and> regular_file st
    \<and> jpath [''availability_evidence'', ''device''] cap = Num (st_dev st)
    \<and> jpath [''availability_evidence'', ''inode''] cap = Num (st_ino st)
    \<and> jpath [''availability_evidence'', ''size''] cap = Num (st_size st)
    \<and> jpath [''availability_evidence'', ''modified_ms''] cap = Num (st_mtime st)
    \<and> bytes_at w (js_string (jget ''instruction_path'' cap)) = Some (str_of (jget ''instructions'' r)))"
proof -
  from assms obtain sel w1 where
      sel: "requireSelectedSupervisorCapability root did (Obj [(''capability_id'', skill), (''kind'', Str ''skill'')]) w = (Inr sel, w1)"
      and load: "load_instructions lstat skill sel w1 = (Inr r, w')"
    by (auto simp: loadSelectedSupervisorSkillInstructions_def elim!: bind_io_InrE)
  from postD [OF require_post sel] obtain name c d cap where
      d: "parse_object (routing_decision_path root name) (bytes_at w (routing_decision_path root name)) = Inr d"
        "decision_in_force root d w" "jpath [''selected_route'', ''selected_capability''] d = Str c"
        "jget ''kind'' cap = Str ''skill''"
      and found: "selected_among (Str c) (elems (jpath [''discovery'', ''capabilities''] d)) = Inr (Some cap)"
      and s: "sel = Obj [(''decision'', d), (''capability'', cap), (''selected_route'', jget ''selected_route'' d)]"
    by auto
  let ?ev = "jget ''availability_evidence'' cap"
  have "w1 = w" using postD [OF require_post sel] by simp
  with load s obtain st where
      st: "lstat (js_string (jget ''instruction_path'' cap)) = Inr st" "regular_file st" "w' = w"
        "bytes_at w (js_string (jget ''instruction_path'' cap)) = Some (str_of (jget ''instructions'' r))"
      and same: "canonicalJson (stat_evidence st) = canonicalJson ?ev"
    by (auto simp: load_instructions_def Let_def io_Inr_iff probeInstructionPath_def probed_def readFile_def split: sum.splits if_splits option.splits)
  have "jwf ?ev" using selected_amongD [OF found] parse_object_jwf [OF d(1)] by (blast intro: jwf_elems jwf_jpath jwf_jget)
  then have "durable (jget k ?ev) = durable (jget k (stat_evidence st))" for k
    using same_text_get [OF same [symmetric] _ _ same_text_Undef [OF same [symmetric]]] by (auto simp: stat_evidence_def)
  from this [of "''device''"] this [of "''inode''"] this [of "''size''"] this [of "''modified_ms''"]
  have "jget ''device'' ?ev = Num (st_dev st)" "jget ''inode'' ?ev = Num (st_ino st)"
      "jget ''size'' ?ev = Num (st_size st)" "jget ''modified_ms'' ?ev = Num (st_mtime st)"
    by (simp_all add: stat_evidence_def)
  with st d selected_amongD [OF found] show ?thesis
    by (intro conjI exI [of _ d] exI [of _ cap] exI [of _ st]) simp_all
qed

section \<open>Selecting a route\<close>

lemma bytes_at_put_upd: "bytes_at (put_file p b w) = (bytes_at w)(p \<mapsto> b)"
  by (rule ext) simp

lemma bytes_at_env [simp]:
  "bytes_at (w\<lparr>ticks := n\<rparr>) = bytes_at w" "bytes_at (w\<lparr>drawn := n\<rparr>) = bytes_at w" "bytes_at (w\<lparr>dirs := ds\<rparr>) = bytes_at w"
  by (rule ext, simp)+

lemma map_err_pred: "map_err f xs = Inr ys \<Longrightarrow> (\<And>x y. x \<in> set xs \<Longrightarrow> f x = Inr y \<Longrightarrow> P y) \<Longrightarrow> \<forall>y\<in>set ys. P y"
  unfolding map_err_Inr list_all2_conv_all_nth by (metis in_set_conv_nth)

lemma jwf_probe: "probeInstructionPath lstat path = Inr pr \<Longrightarrow> jwf pr"
  by (auto simp: probeInstructionPath_def probed_def stat_evidence_def split: if_splits sum.splits)

lemma jwf_normalized: "normalizeAdvertisement lstat item = Inr kv \<Longrightarrow> jwf item \<Longrightarrow> jwf (snd kv)"
  by (auto simp: normalizeAdvertisement_def err_Inr_iff Let_def intro!: jwf_coalesce jwf_jget dest: jwf_probe)

lemma foldl_append_subset: "set (foldl (\<lambda>cs x. if P cs x then cs else cs @ [x]) cs xs) \<subseteq> set cs \<union> set xs"
proof (induction xs arbitrary: cs)
  case (Cons a xs)
  show ?case using Cons.IH [of cs] Cons.IH [of "cs @ [a]"] by auto
qed simp

lemma new_map_pred:
  assumes "\<forall>kv\<in>set es. P (snd kv)"
  shows "\<forall>kv\<in>set (new_map es). P (snd kv)"
proof -
  have u: "\<forall>kv\<in>set m. P (snd kv) \<Longrightarrow> P v \<Longrightarrow> \<forall>kv\<in>set (AList.update k v m). P (snd kv)" for m k v
    by (induction m) auto
  have "\<forall>kv\<in>set m. P (snd kv) \<Longrightarrow>
      \<forall>kv\<in>set (foldl (\<lambda>m e. AList.update (fst e) (snd e) m) m es). P (snd kv)" for m
    using assms
  proof (induction es arbitrary: m)
    case (Cons e es)
    have "\<forall>kv\<in>set (AList.update (fst e) (snd e) m). P (snd kv)"
      using Cons.prems by (intro u) simp_all
    with Cons show ?case by simp
  qed simp
  from this [of "[]"] show ?thesis by (simp add: new_map_def)
qed

lemma merged_pred:
  assumes "\<forall>kv\<in>set m. P (snd kv)" "\<forall>ck\<in>set DEFAULT_CAPABILITIES. P (default_capability ck)"
  shows "\<forall>c\<in>set (merged_capabilities m). P c"
proof
  fix c assume "c \<in> set (merged_capabilities m)"
  then have "c \<in> set (map (\<lambda>ck. case map_of m (fst ck) of Some v \<Rightarrow> v | None \<Rightarrow> default_capability ck) DEFAULT_CAPABILITIES)
      \<union> set (map snd m)"
    unfolding merged_capabilities_def using foldl_append_subset by fast
  then show "P c"
    using assms by (fastforce split: option.splits dest!: map_of_SomeD)
qed

lemma discover_post:
  "post (discoverSupervisorCapabilities lstat root ads) w (\<lambda>r w'. bytes_at w' = bytes_at w \<and> digest w' = digest w \<and>
     (\<forall>x. r = Inr x \<longrightarrow> uuids w' = uuids w \<and> drawn w' = Suc (drawn w) \<and>
       (\<exists>entries. map_err (normalizeAdvertisement lstat) (elems ads) = Inr entries
         \<and> jget ''capabilities'' x = Arr (merged_capabilities (new_map entries)) \<and> (jwf ads \<longrightarrow> jwf x))))"
proof (rule postI)
  fix r w' assume run: "discoverSupervisorCapabilities lstat root ads w = (r, w')"
  show "bytes_at w' = bytes_at w \<and> digest w' = digest w \<and>
     (\<forall>x. r = Inr x \<longrightarrow> uuids w' = uuids w \<and> drawn w' = Suc (drawn w) \<and>
       (\<exists>entries. map_err (normalizeAdvertisement lstat) (elems ads) = Inr entries
         \<and> jget ''capabilities'' x = Arr (merged_capabilities (new_map entries)) \<and> (jwf ads \<longrightarrow> jwf x)))"
  proof (cases "map_err (normalizeAdvertisement lstat) (elems ads)")
    case (Inr entries)
    have "\<forall>kv\<in>set entries. jwf (snd kv)" if "jwf ads"
      by (rule map_err_pred [OF Inr]) (blast intro: jwf_normalized jwf_elems that)
    then have "\<forall>c\<in>set (merged_capabilities (new_map entries)). jwf c" if "jwf ads"
      by (intro merged_pred new_map_pred) (auto simp: that default_capability_def)
    with run Inr show ?thesis
      by (auto simp: discoverSupervisorCapabilities_def guard_io_def bind_io_def split: if_splits)
  qed (use run in \<open>auto simp: discoverSupervisorCapabilities_def guard_io_def bind_io_def split: if_splits\<close>)
qed

lemma discover_frame [simp]:
  "bytes_at (snd (discoverSupervisorCapabilities lstat root ads w)) = bytes_at w"
  "digest (snd (discoverSupervisorCapabilities lstat root ads w)) = digest w"
  using discover_post [of lstat root ads w] by (simp_all add: post_def)

lemma discover_Inr:
  assumes "fst (discoverSupervisorCapabilities lstat root ads w) = Inr x"
  shows "uuids (snd (discoverSupervisorCapabilities lstat root ads w)) = uuids w"
    and "drawn (snd (discoverSupervisorCapabilities lstat root ads w)) = Suc (drawn w)"
    and "jwf ads \<Longrightarrow> jwf x" and "is_arr (jget ''capabilities'' x)"
  using discover_post [of lstat root ads w] assms by (auto simp: post_def)

lemma at_last_jwf: "at_last v = Inr x \<Longrightarrow> jwf v \<Longrightarrow> jwf x"
  by (cases v) (auto split: if_splits)

lemma subject_post:
  "post (decisionSubject root input) w (\<lambda>r w'. w' = w \<and> (\<forall>x. r = Inr x \<longrightarrow> jwf input \<longrightarrow> jwf x))"
proof (rule postI)
  fix r w' assume "decisionSubject root input w = (r, w')"
  then show "w' = w \<and> (\<forall>x. r = Inr x \<longrightarrow> jwf input \<longrightarrow> jwf x)"
    unfolding decisionSubject_def
    by (auto simp: bind_io_def readOptional_run at_last_jwf jdot_eq_Inr
        split: if_splits sum.splits dest!: parse_object_jwf intro!: jwf_coalesce jwf_jget dest: at_last_jwf)
qed

lemma subject_frame [simp]: "snd (decisionSubject root input w) = w"
  using subject_post [of root input w] by (simp add: post_def)

lemma subject_jwf: "fst (decisionSubject root input w) = Inr x \<Longrightarrow> jwf input \<Longrightarrow> jwf x"
  using subject_post [of root input w] by (simp add: post_def)

lemma post_discover [wp]: "post (discoverSupervisorCapabilities lstat root ads) w Q \<longleftrightarrow>
    Q (fst (discoverSupervisorCapabilities lstat root ads w)) (snd (discoverSupervisorCapabilities lstat root ads w))"
  by (simp add: post_def)

lemma post_subject [wp]: "post (decisionSubject root input) w Q \<longleftrightarrow> Q (fst (decisionSubject root input w)) w"
  by (simp add: post_def)

lemma jwf_route_for: "route_for req caps c = Inr r \<Longrightarrow> \<forall>x\<in>set caps. jwf x \<Longrightarrow> jwf req \<Longrightarrow> jwf r"
  by (auto simp: route_for_def err_Inr_iff Let_def jwf_routes split: if_splits option.splits
      intro!: jwf_routes dest!: selected_amongD)

lemma jwf_request:
  "jwf v \<Longrightarrow> jwf (coalesce (jget k v) (Str s))" "jwf v \<Longrightarrow> jwf (coalesce (jget k v) (Arr []))"
  by (simp_all add: jwf_coalesce jwf_jget)

lemma jwf_routing_decision:
  assumes "jwf subject" "jwf input" "jwf discovery" "jwf req" "jwf route" "jwf policy"
  shows "jwf (routing_decision did subject input discovery req route s1 s2 policy sha t)"
  using assms by (simp add: routing_decision_def jwf_coalesce jwf_jget)

lemma jwf_selection:
  assumes "fst (discoverSupervisorCapabilities lstat root (coalesce (jget ''advertised_capabilities'' input) (Arr [])) w) = Inr disc"
    and "parse_object pp bb = Inr policy"
    and "route_for (coalesce (jget ''requested_route'' input) (Str r0)) (elems (jget ''capabilities'' disc)) c = Inr route"
    and "fst (decisionSubject root input w2) = Inr subject" and "jwf input"
  shows "jwf (routing_decision did subject input disc (coalesce (jget ''requested_route'' input) (Str r0)) route s1 s2 policy sha t)"
proof -
  have disc: "jwf disc" by (rule discover_Inr(3) [OF assms(1)]) (simp add: assms(5) jwf_request)
  have "jwf x" if "x \<in> set (elems (jget ''capabilities'' disc))" for x
    using that disc by (blast intro: jwf_elems jwf_jget)
  then have "jwf route" using assms(3,5) by (intro jwf_route_for [OF assms(3)]) (simp_all add: jwf_request)
  then show ?thesis
    using assms disc by (intro jwf_routing_decision) (auto intro: subject_jwf parse_object_jwf simp: jwf_request)
qed

lemma routing_decision_fields [simp]:
  "jget ''decision_id'' (routing_decision did subject input discovery req route s1 s2 policy sha t) = Str did"
  "jget ''discovery'' (routing_decision did subject input discovery req route s1 s2 policy sha t) = discovery"
  "jget ''selected_route'' (routing_decision did subject input discovery req route s1 s2 policy sha t) = route"
  "jget ''schema'' (routing_decision did subject input discovery req route s1 s2 policy sha t) = Str SUPERVISOR_DECISION_SCHEMA"
  "jget ''subject'' (routing_decision did subject input discovery req route s1 s2 policy sha t) = subject"
  "jpath [''classification_inputs'', ''static_category_match_authority''] (routing_decision did subject input discovery req route s1 s2 policy sha t) = Str ''non_authoritative''"
  "jget ''intelligence_or_tooling_rationale'' (routing_decision did subject input discovery req route s1 s2 policy sha t) = Str s1"
  "jget ''direct_inspection_insufficiency_rationale'' (routing_decision did subject input discovery req route s1 s2 policy sha t) = Str s2"
  "jget ''selected_execution_route'' (routing_decision did subject input discovery req route s1 s2 policy sha t) = jget ''execution_route'' route"
  "jget ''selected_tool'' (routing_decision did subject input discovery req route s1 s2 policy sha t) = jget ''selected_tool'' route"
  "jget ''selected_skill'' (routing_decision did subject input discovery req route s1 s2 policy sha t) = jget ''selected_skill'' route"
  "jget ''policy_sha256'' (routing_decision did subject input discovery req route s1 s2 policy sha t) = Str sha"
  by (simp_all add: routing_decision_def)

lemma persist_post [wp]:
  "post (persistSupervisorRoutingDecision root d) w Q \<longleftrightarrow>
     Q (Inr ()) (put_file (routing_decision_path root (js_string (jget ''decision_id'' d))) (canonicalJson d)
       (w\<lparr>dirs := List.insert (p_supervisorRouting (paths root)) (dirs w)\<rparr>))"
  by (simp add: persistSupervisorRoutingDecision_def wp)

lemma select_post:
  "post (selectSupervisorRoute lstat root input) w (\<lambda>r w'. digest w' = digest w
     \<and> (\<forall>e. r = Inl e \<longrightarrow> bytes_at w' = bytes_at w)
     \<and> (\<forall>d. r = Inr d \<longrightarrow> decision_in_force root d w
         \<and> jget ''decision_id'' d = Str (''supervisor-gearbox-'' @ uuids w (Suc (drawn w)))
         \<and> bytes_at w' = (bytes_at w)(routing_decision_path root (str_of (jget ''decision_id'' d)) \<mapsto> canonicalJson d)
         \<and> (jwf input \<longrightarrow> jwf d)
         \<and> route_for (coalesce (jget ''requested_route'' input) (Str DIRECT_SOURCE_ROUTE))
             (elems (jpath [''discovery'', ''capabilities''] d)) (jget ''requested_capability'' input)
             = Inr (jget ''selected_route'' d)))"
  unfolding selectSupervisorRoute_def Let_def
  by (simp add: wp decision_in_force_def discover_Inr subject_jwf bytes_at_put_upd
     split: option.splits del: bind_now bind_sha256;
   intro allI impI; rule jwf_selection; assumption)

text \<open>A route selection that returns has written exactly one file, its decision, and that
  decision is in force; the granted route is the one computed for the requested route and
  capability. A selection that throws leaves every file as it was.\<close>

theorem selection_records_valid_decision:
  assumes "selectSupervisorRoute lstat root input w = (r, w')"
  shows "case r of
      Inl e \<Rightarrow> bytes_at w' = bytes_at w
    | Inr d \<Rightarrow> decision_in_force root d w
        \<and> bytes_at w' = (bytes_at w)(routing_decision_path root (str_of (jget ''decision_id'' d)) \<mapsto> canonicalJson d)
        \<and> route_for (coalesce (jget ''requested_route'' input) (Str DIRECT_SOURCE_ROUTE))
            (elems (jpath [''discovery'', ''capabilities''] d)) (jget ''requested_capability'' input)
            = Inr (jget ''selected_route'' d)"
  using postD [OF select_post assms] by (auto split: sum.splits)

section \<open>Computed routes validate\<close>

lemma optionalRoute_fields [simp]:
  "jget ''schema'' (optionalRoute er cap) = Str SUPERVISOR_ROUTE_SCHEMA"
  "jget ''execution_route'' (optionalRoute er cap) = er"
  "is_arr (jget ''tool_allowlist'' (optionalRoute er cap))" "is_arr (jget ''skill_allowlist'' (optionalRoute er cap))"
  by (auto simp: optionalRoute_def disabledRoute_def Let_def jget_jsets)

lemma disabledRoute_fields [simp]:
  "jget ''schema'' disabledRoute = Str SUPERVISOR_ROUTE_SCHEMA"
  "jget ''execution_route'' disabledRoute = Str DIRECT_SOURCE_ROUTE"
  "is_arr (jget ''tool_allowlist'' disabledRoute)" "is_arr (jget ''skill_allowlist'' disabledRoute)"
  by (simp_all add: disabledRoute_def)

lemma disabledRoute_tools:
  "is_prim (jget ''selected_tool'' disabledRoute)" "is_prim (jget ''selected_skill'' disabledRoute)"
  by (simp_all add: disabledRoute_def)

lemma optionalRoute_tools:
  "is_prim (jget ''capability_id'' cap) \<Longrightarrow> is_prim (jget ''selected_tool'' (optionalRoute er cap))"
  "is_prim (jget ''capability_id'' cap) \<Longrightarrow> is_prim (jget ''selected_skill'' (optionalRoute er cap))"
  by (auto simp: optionalRoute_def disabledRoute_def Let_def jget_jsets)

lemma route_for_cases:
  assumes "route_for req caps c = Inr r" "in_strs execution_routes req"
  obtains (direct) "req = Str DIRECT_SOURCE_ROUTE" "r = disabledRoute"
  | (optional) cap k where "r = optionalRoute req cap" "selected_among (Str k) caps = Inr (Some cap)"
      "jget ''capability_id'' cap = Str k" "truthy (jget ''available'' cap)" "req \<noteq> Str DIRECT_SOURCE_ROUTE"
      "k \<in> set EXTERNAL_DOCUMENTATION_CAPABILITIES \<longleftrightarrow> req = Str EXTERNAL_DOCUMENTATION_ROUTE"
proof (cases "req = Str DIRECT_SOURCE_ROUTE")
  case True
  with assms show ?thesis by (intro direct) (simp_all add: route_for_def)
next
  case False
  with assms obtain k cap where "capabilityId c = Inr k" "selected_among (Str k) caps = Inr (Some cap)"
      "truthy (jget ''available'' cap)" "r = optionalRoute req cap"
      "k \<in> set EXTERNAL_DOCUMENTATION_CAPABILITIES \<longleftrightarrow> req = Str EXTERNAL_DOCUMENTATION_ROUTE"
    by (auto simp: route_for_def err_Inr_iff Let_def split: option.splits)
  with False selected_amongD [OF this(2)] show ?thesis by (intro optional) auto
qed

lemma route_for_validates:
  assumes "route_for req caps c = Inr r" "in_strs execution_routes req"
  shows "route_errors r (Arr caps) = Inr []"
  using assms
proof (cases rule: route_for_cases)
  case direct
  then show ?thesis by (simp add: route_errors_def direct_violation_def disabledRoute_def)
next
  case (optional cap k)
  then have "\<not> nullish r" using is_obj_not_nullish [OF is_obj_routes(2)] by simp
  with optional show ?thesis
    by (auto simp: route_errors_def optional_violation_def exactOptionalShape_def jdot_def)
qed

lemma normalized_safe: "normalizeAdvertisement lstat item = Inr kv \<Longrightarrow> capability_unsafe (snd kv) = Inr False"
  by (auto simp: normalizeAdvertisement_def err_Inr_iff Let_def capability_unsafe_def probeInstructionPath_def probed_def
      split: if_splits sum.splits)

text \<open>The kind of every default is an optional kind.\<close>

lemma default_safe: "ck \<in> set DEFAULT_CAPABILITIES \<Longrightarrow> capability_unsafe (default_capability ck) = Inr False"
  by (auto simp: DEFAULT_CAPABILITIES_def default_capability_def capability_unsafe_def OPTIONAL_KINDS_def)

lemma discovered_safe:
  assumes "fst (discoverSupervisorCapabilities lstat root ads w) = Inr x"
  shows "\<forall>c\<in>set (elems (jget ''capabilities'' x)). capability_unsafe c = Inr False"
proof -
  from discover_post [of lstat root ads w] assms obtain entries where
      e: "map_err (normalizeAdvertisement lstat) (elems ads) = Inr entries"
      and x: "jget ''capabilities'' x = Arr (merged_capabilities (new_map entries))"
    by (auto simp: post_def)
  have "\<forall>kv\<in>set entries. capability_unsafe (snd kv) = Inr False"
    by (rule map_err_pred [OF e]) (rule normalized_safe)
  from merged_pred [OF new_map_pred [OF this]] show ?thesis by (simp add: x default_safe)
qed

text \<open>
  The validation at the end of \<open>selectSupervisorRoute\<close> can only object to the subject: a
  computed decision meets every other condition by construction.
\<close>

lemma computed_decision_valid:
  assumes "fst (discoverSupervisorCapabilities lstat root ads w) = Inr disc"
    and "in_strs execution_routes req" and "route_for req (elems (jget ''capabilities'' disc)) c = Inr route"
    and "trim s1 \<noteq> []" "trim s2 \<noteq> []"
    and "truthy (jget ''objective_id'' subject)" "safe_int (jget ''objective_revision'' subject)"
      "truthy (jget ''objective'' subject)" "truthy (jget ''work_description'' subject)"
      "jget ''objective_id'' subject = jget ''objective_id'' o1" "is_prim (jget ''objective_id'' o1)"
      "jget ''objective_revision'' subject = jget ''current_revision'' o1" "is_prim (jget ''current_revision'' o1)"
  shows "supervisorRoutingDecisionErrors (routing_decision did subject input disc req route s1 s2 policy sha t) o1 (Str sha) = Inr []"
proof -
  from discover_post [of lstat root ads w] assms(1) have disc:
      "is_arr (jget ''capabilities'' disc)" "jget ''schema'' disc = Str SUPERVISOR_DISCOVERY_SCHEMA"
      "jget ''instruction_files_read'' disc = Arr []"
    by (auto simp: discoverSupervisorCapabilities_def guard_io_def bind_io_def split: if_splits sum.splits)
  then obtain caps where caps: "jget ''capabilities'' disc = Arr caps" by (cases "jget ''capabilities'' disc") auto
  have route: "jget ''schema'' route = Str SUPERVISOR_ROUTE_SCHEMA" "jget ''execution_route'' route = req"
      "is_arr (jget ''tool_allowlist'' route)" "is_arr (jget ''skill_allowlist'' route)"
      "is_prim (jget ''selected_tool'' route)" "is_prim (jget ''selected_skill'' route)"
    by (rule route_for_cases [OF assms(3,2)]; simp add: optionalRoute_tools disabledRoute_tools)+
  have req: "is_prim req" using assms(2) by (cases req) (simp_all add: in_strs_def)
  show ?thesis
    using assms(2,4-) disc(2,3) caps route req route_for_validates [OF assms(3,2)] discovered_safe [OF assms(1)]
    unfolding supervisorRoutingDecisionErrors_def Let_def
    by (simp add: routing_decision_fields blank_def some_err_False strict_eq_def del: jpath.simps; simp)
qed

section \<open>From selection to use\<close>

lemma find_err_map: "(\<And>x. x \<in> set xs \<Longrightarrow> g (f x) = g x) \<Longrightarrow>
    find_err g (map f xs) = (case find_err g xs of Inl e \<Rightarrow> Inl e | Inr y \<Rightarrow> Inr (map_option f y))"
  by (induction xs) (auto simp: bind_err_def split: sum.splits)

lemma some_err_map: "(\<And>x. x \<in> set xs \<Longrightarrow> g (f x) = g x) \<Longrightarrow> some_err g (map f xs) = some_err g xs"
  by (induction xs) auto

lemma selected_among_stored:
  assumes "\<forall>x\<in>set xs. jwf x" "is_prim cid"
  shows "selected_among cid (map stored xs) = (case selected_among cid xs of Inl e \<Rightarrow> Inl e | Inr y \<Rightarrow> Inr (map_option stored y))"
  unfolding selected_among_def
proof (rule find_err_map)
  fix x assume "x \<in> set xs"
  with assms show "bind_err (jdot ''capability_id'' (stored x)) (\<lambda>c. Inr (strict_eq c cid))
      = bind_err (jdot ''capability_id'' x) (\<lambda>c. Inr (strict_eq c cid))"
    by (auto simp: stored_def jdot_def jget_read_back read_back)
qed

lemma capability_unsafe_stored: "jwf x \<Longrightarrow> capability_unsafe (stored x) = capability_unsafe x"
  by (auto simp: capability_unsafe_def stored_def jdot_def read_back)

lemma optionalRoute_stored:
  assumes "jwf cap" "is_str (jget ''capability_id'' cap)" "is_str (jget ''kind'' cap)" "is_prim er" "cap \<noteq> Undef"
  shows "optionalRoute (durable er) (stored cap) = optionalRoute er cap"
proof -
  have "jget k (stored cap) = jget k cap" if "k = ''capability_id'' \<or> k = ''kind''" for k
    using that assms by (cases "jget k cap") (auto simp: stored_def read_back)
  then show ?thesis using assms(4) by (simp add: optionalRoute_def)
qed

lemma optional_violation_stored:
  assumes "optional_violation r xs = Inr False" "\<forall>x\<in>set xs. jwf x \<and> capability_unsafe x = Inr False"
    and "is_prim (jget ''execution_route'' r)" and "jwf r" "r \<noteq> Undef"
  shows "optional_violation (durable r) (map stored xs) = Inr False"
proof -
  from assms(1) obtain cap where cap: "selected_among (jget ''selected_capability'' r) xs = Inr (Some cap)"
      "truthy (jget ''available'' cap)"
      and same: "canonicalJson r = canonicalJson (optionalRoute (jget ''execution_route'' r) cap)"
    by (auto simp: optional_violation_def exactOptionalShape_def bind_err_eq_Inr jdot_eq_Inr split: option.splits if_splits)
  from selected_amongD [OF cap(1)] assms(2) have c: "cap \<in> set xs" "jwf cap" "is_str (jget ''capability_id'' cap)"
      "is_str (jget ''kind'' cap)" "cap \<noteq> Undef" "is_prim (jget ''selected_capability'' r)"
    by (auto simp: capability_unsafe_def bind_err_eq_Inr jdot_eq_Inr in_strs_def strict_eq_def)
  from selected_among_stored [of xs, OF _ c(6)] cap(1) assms(2)
  have "selected_among (jget ''selected_capability'' r) (map stored xs) = Inr (Some (stored cap))" by simp
  moreover have "truthy (jget ''available'' (stored cap))" using c cap by (simp add: stored_def read_back)
  moreover have "\<not> nullish r" using cap c(3) selected_amongD [OF cap(1)]
    by (cases r) (auto simp: strict_eq_def)
  ultimately show ?thesis
    using optionalRoute_stored [OF c(2,3,4) assms(3) c(5)] same assms(3,4) c(6)
    by (simp add: optional_violation_def exactOptionalShape_def jdot_def read_back)
qed

lemma valid_stays_valid:
  assumes valid: "supervisorRoutingDecisionErrors d o1 pol = Inr []" and wf: "jwf d" and prims: "is_prim pol"
  shows "supervisorRoutingDecisionErrors (durable d) o1 pol = Inr []"
proof -
  let ?r = "jget ''selected_route'' d" and ?caps = "jget ''capabilities'' (jget ''discovery'' d)"
  note v = valid_decisionD [OF valid]
  have wfr: "jwf ?r" "jwf ?caps" "\<forall>x\<in>set (elems ?caps). jwf x \<and> capability_unsafe x = Inr False"
    using wf v(4) jwf_elems [OF jwf_jget [OF jwf_jget [OF wf]]] by (auto intro: jwf_jget)
  have er: "is_prim (jget ''execution_route'' ?r)"
    using valid by (cases "jget ''execution_route'' ?r")
      (simp_all add: supervisorRoutingDecisionErrors_def Let_def in_strs_def)
  have r: "?r \<noteq> Undef" using v(1) by auto
  have "route_errors (durable ?r) (durable ?caps) = Inr []"
    using v(2,3) optional_violation_stored [OF _ wfr(3) er wfr(1) r] wfr er
    by (auto simp: route_errors_def direct_violation_def read_back split: if_splits)
  moreover have "some_err capability_unsafe (elems (durable ?caps)) = Inr False"
    using wfr(3) by (auto simp: read_back some_err_False capability_unsafe_stored)
  ultimately show ?thesis
    using valid v(2) wf prims
    by (simp add: supervisorRoutingDecisionErrors_def Let_def read_back blank_def jwf_jget)
qed

lemma trim_id: "list_all (\<lambda>c. \<not> is_space c) s \<Longrightarrow> trim s = s"
proof -
  assume s: "list_all (\<lambda>c. \<not> is_space c) s"
  have "dropWhile is_space t = t" if "list_all (\<lambda>c. \<not> is_space c) t" for t
    using that by (cases t) auto
  moreover have "list_all (\<lambda>c. \<not> is_space c) (rev s)" using s by (simp add: list_all_iff)
  ultimately show ?thesis using s by (simp add: trim_def)
qed

lemma name_not_space: "alnum c \<or> name_mark c \<Longrightarrow> \<not> is_space c"
  by (auto simp: alnum_def lower_alnum_def name_mark_def is_space_def)

lemma durableId_name: "durable_name s \<Longrightarrow> durableId (Str s) field = Inr s"
proof -
  assume s: "durable_name s"
  then have "list_all (\<lambda>c. \<not> is_space c) s"
    by (cases s) (auto simp: durable_name_def list_all_iff name_not_space)
  with s trim_id show ?thesis by (auto simp: durableId_def nonempty_def durable_name_def)
qed

lemma usable_after_selection:
  assumes sel: "selectSupervisorRoute lstat root input w = (Inr d, w')" and wf: "jwf input"
    and opt: "coalesce (jget ''requested_route'' input) (Str DIRECT_SOURCE_ROUTE) \<noteq> Str DIRECT_SOURCE_ROUTE"
    and uuid: "durable_name (''supervisor-gearbox-'' @ uuids w (Suc (drawn w)))"
    and asked: "is_obj request" "jget ''capability_id'' request = jget ''requested_capability'' input"
    and kind: "\<And>c cap. capabilityId (jget ''requested_capability'' input) = Inr c \<Longrightarrow>
      selected_among (Str c) (elems (jpath [''discovery'', ''capabilities''] d)) = Inr (Some cap) \<Longrightarrow>
      truthy (jget ''kind'' request) \<Longrightarrow> strict_eq (jget ''kind'' request) (jget ''kind'' cap)"
  shows "\<exists>c cap. requireSelectedSupervisorCapability root (jget ''decision_id'' d) request w'
      = (Inr (Obj [(''decision'', durable d), (''capability'', stored cap), (''selected_route'', jget ''selected_route'' (durable d))]), w')
    \<and> capabilityId (jget ''requested_capability'' input) = Inr c
    \<and> selected_among (Str c) (elems (jpath [''discovery'', ''capabilities''] d)) = Inr (Some cap)"
proof -
  from postD [OF select_post sel] wf obtain policy o1 where
      force: "parse_object (p_objective (paths root)) (bytes_at w (p_objective (paths root))) = Inr o1"
        "bytes_at w (p_policy (paths root)) = Some policy"
        "supervisorRoutingDecisionErrors d o1 (Str (digest w policy)) = Inr []"
      and did: "jget ''decision_id'' d = Str (''supervisor-gearbox-'' @ uuids w (Suc (drawn w)))"
      and bytes: "bytes_at w' = (bytes_at w)(routing_decision_path root (''supervisor-gearbox-'' @ uuids w (Suc (drawn w))) \<mapsto> canonicalJson d)"
      and dig: "digest w' = digest w" and d: "jwf d"
      and route: "route_for (coalesce (jget ''requested_route'' input) (Str DIRECT_SOURCE_ROUTE))
            (elems (jpath [''discovery'', ''capabilities''] d)) (jget ''requested_capability'' input)
            = Inr (jget ''selected_route'' d)"
    by (auto simp: decision_in_force_def split: sum.splits option.splits)
  let ?id = "''supervisor-gearbox-'' @ uuids w (Suc (drawn w))"
  have od: "is_obj d" using did by (rule Str_member_obj)
  have valid: "supervisorRoutingDecisionErrors (durable d) o1 (Str (digest w policy)) = Inr []"
    using valid_stays_valid [OF force(3) d] by simp
  from route opt obtain c cap where c: "capabilityId (jget ''requested_capability'' input) = Inr c"
      and found: "selected_among (Str c) (elems (jpath [''discovery'', ''capabilities''] d)) = Inr (Some cap)"
      and av: "truthy (jget ''available'' cap)"
      and r: "jget ''selected_route'' d = optionalRoute (coalesce (jget ''requested_route'' input) (Str DIRECT_SOURCE_ROUTE)) cap"
    by (auto simp: route_for_def err_Inr_iff Let_def split: option.splits)
  have wfe: "\<forall>x\<in>set (elems (jpath [''discovery'', ''capabilities''] d)). jwf x"
    using d by (blast intro: jwf_elems jwf_jpath)
  have found': "selected_among (Str c) (elems (jpath [''discovery'', ''capabilities''] (durable d))) = Inr (Some (stored cap))"
    using selected_among_stored [OF wfe, of "Str c"] found d by (simp add: read_back jwf_jget)
  have cap: "jget ''capability_id'' cap = Str c" "is_obj cap"
    using selected_amongD [OF found] Str_member_obj by auto
  have t: "truthy (stored cap)" using cap(2) by (cases cap) (simp_all add: stored_def kinds_read_back)
  have "jget ''selected_capability'' (jget ''selected_route'' d) = Str c" using r cap(1) by simp
  with d have sc: "jpath [''selected_route'', ''selected_capability''] (durable d) = Str c"
    by (simp add: read_back jwf_jget)
  have p1: "bytes_at w' (p_objective (paths root)) = bytes_at w (p_objective (paths root))"
      and p2: "bytes_at w' (p_policy (paths root)) = Some policy"
      and p3: "parse_object (routing_decision_path root ?id) (bytes_at w' (routing_decision_path root ?id)) = Inr (durable d)"
    using bytes force(2) d od by (simp_all add: routing_decision_path_def json_in_def)
  let ?g = "Obj [(''decision'', durable d), (''capability'', stored cap), (''selected_route'', jget ''selected_route'' (durable d))]"
  have "cap \<in> set (elems (jpath [''discovery'', ''capabilities''] d))" using selected_amongD [OF found] by simp
  then have "jget ''kind'' (stored cap) = durable (jget ''kind'' cap)"
    using wfe cap(2) by (cases cap) (auto simp: stored_def jget_read_back)
  then have k: "truthy (jget ''kind'' request) \<Longrightarrow> strict_eq (jget ''kind'' request) (jget ''kind'' (stored cap))"
    using kind [OF c found] by (simp add: read_back)
  have "jdot ''capability_id'' request = Inr (jget ''requested_capability'' input)"
    using asked is_obj_not_nullish by (simp add: jdot_def)
  then have "requireSelectedSupervisorCapability root (Str ?id) request w' = (Inr ?g, w')"
    using durableId_name [OF uuid, of "''decision_id''"] p1 p2 p3 force(1) valid c found' sc t dig k
    unfolding requireSelectedSupervisorCapability_def readSupervisorRoutingDecision_def
    by (simp add: bind_io_def del: jpath.simps)
  with did c found show ?thesis by auto
qed

text \<open>C32: round trip of a routing decision. After a selection of an optional route, with an
  identifier of the usual characters, the capability that was asked for is handed out under the
  new decision, as long as the decision is the only file written since.\<close>

theorem selected_capability_is_usable:
  assumes "selectSupervisorRoute lstat root input w = (Inr d, w')" and "jwf input"
    and "coalesce (jget ''requested_route'' input) (Str DIRECT_SOURCE_ROUTE) \<noteq> Str DIRECT_SOURCE_ROUTE"
    and "durable_name (''supervisor-gearbox-'' @ uuids w (Suc (drawn w)))"
  shows "\<exists>granted. requireSelectedSupervisorCapability root (jget ''decision_id'' d)
      (Obj [(''capability_id'', jget ''requested_capability'' input)]) w' = (Inr granted, w')
    \<and> jget ''decision'' granted = durable d"
  using usable_after_selection [OF assms, of "Obj [(''capability_id'', jget ''requested_capability'' input)]"] by auto

section \<open>Witnesses\<close>

definition demo_lstat :: "string \<Rightarrow> err + file_stat" where
  "demo_lstat p = (if p = ''/s/SKILL.md'' then Inr \<lparr>st_is_file = True, st_is_symlink = False, st_dev = 1, st_ino = 7,
     st_size = 5, st_mtime = 9\<rparr> else Inl (Coded ''ENOENT'' p))"

definition demo_objective :: jv where
  "demo_objective = Obj [(''current_revision'', Num 1), (''history'', Arr [Obj [(''objective'', Str ''Ship'')]]),
     (''objective_id'', Str ''o1'')]"

definition demo_policy :: jv where
  "demo_policy = Obj [(''gearbox'', Obj [(''required'', JBool True)]), (''version'', Num 1)]"

definition routing_input :: jv where
  "routing_input = Obj [
     (''advertised_capabilities'', Arr [Obj [(''capability_id'', Str ''review''), (''kind'', Str ''skill''),
        (''instruction_path'', Str ''/s/SKILL.md'')]]),
     (''requested_route'', Str EXPLICIT_OPTIONAL_ROUTE),
     (''requested_capability'', Str ''review''),
     (''intelligence_or_tooling_rationale'', Str ''a''),
     (''direct_inspection_insufficiency_rationale'', Str ''b''),
     (''work_description'', Str ''w'')]"

definition routing_world :: world where
  "routing_world = \<lparr>files = [(''/r/.opsle/objective.json'', canonicalJson demo_objective),
     (''/r/.opsle/policy.json'', canonicalJson demo_policy), (''/s/SKILL.md'', ''steps'')],
     dirs = [], clock = (\<lambda>n. ''t''), ticks = 0, uuids = (\<lambda>n. ''u''), drawn = 0, digest = (\<lambda>s. ''h'')\<rparr>"

lemma routing_world_files:
  "bytes_at routing_world ''/r/.opsle/objective.json'' = Some (canonicalJson demo_objective)"
  "bytes_at routing_world ''/r/.opsle/policy.json'' = Some (canonicalJson demo_policy)"
  "bytes_at routing_world ''/s/SKILL.md'' = Some ''steps''"
  by (simp_all add: routing_world_def bytes_at_def)

lemma demo_durable: "durable demo_objective = demo_objective" "durable demo_policy = demo_policy"
  by code_simp+

definition routing_subject :: jv where
  "routing_subject = Obj [(''task_id'', Null), (''task_objective'', Null), (''objective_id'', Str ''o1''),
     (''objective_revision'', Num 1), (''objective'', Str ''Ship''), (''work_description'', Str ''w'')]"

lemma routing_disk:
  "parse_object (root @ ''/.opsle/objective.json'') (Some (canonicalJson demo_objective)) = Inr demo_objective"
  "parse_object (root @ ''/.opsle/policy.json'') (Some (canonicalJson demo_policy)) = Inr demo_policy"
proof -
  have "jwf demo_objective" "jwf demo_policy" "is_obj demo_objective" "is_obj demo_policy" by code_simp+
  with demo_durable show
    "parse_object (root @ ''/.opsle/objective.json'') (Some (canonicalJson demo_objective)) = Inr demo_objective"
    "parse_object (root @ ''/.opsle/policy.json'') (Some (canonicalJson demo_policy)) = Inr demo_policy"
    by simp_all
qed

lemma demo_subject:
  assumes "bytes_at w = bytes_at routing_world"
  shows "decisionSubject ''/r'' routing_input w = (Inr routing_subject, w)"
  using assms routing_world_files routing_disk [of "''/r''"]
  by (simp add: decisionSubject_def bind_io_def routing_input_def demo_objective_def routing_subject_def nonempty_def
      guard_err_def trim_def is_space_def)

definition review_capability :: jv where
  "review_capability = Obj [
     (''capability_id'', Str ''review''), (''kind'', Str ''skill''), (''advertised'', JBool True),
     (''available'', JBool True), (''instruction_path'', Str ''/s/SKILL.md''),
     (''availability_evidence'', Obj [(''path_type'', Str ''regular_file''), (''device'', Num 1), (''inode'', Num 7),
        (''size'', Num 5), (''modified_ms'', Num 9)]),
     (''instruction_file_read'', JBool False)]"

lemma demo_normalized:
  "map_err (normalizeAdvertisement demo_lstat) (elems (coalesce (jget ''advertised_capabilities'' routing_input) (Arr [])))
    = Inr [(''review'', review_capability)]"
  by code_simp

lemma demo_route:
  "route_for (coalesce (jget ''requested_route'' routing_input) (Str DIRECT_SOURCE_ROUTE))
      (merged_capabilities (new_map [(''review'', review_capability)])) (jget ''requested_capability'' routing_input)
    = Inr (optionalRoute (Str EXPLICIT_OPTIONAL_ROUTE) review_capability)"
  by code_simp

lemma demo_rationales:
  "rationale (coalesce (jget ''requested_route'' routing_input) (Str DIRECT_SOURCE_ROUTE)) routing_input
     ''intelligence_or_tooling_rationale'' direct_default = Inr ''a''"
  "rationale (coalesce (jget ''requested_route'' routing_input) (Str DIRECT_SOURCE_ROUTE)) routing_input
     ''direct_inspection_insufficiency_rationale'' sufficient_default = Inr ''b''"
  by code_simp+

lemma demo_discovery:
  obtains disc where
    "discoverSupervisorCapabilities demo_lstat ''/r'' (coalesce (jget ''advertised_capabilities'' routing_input) (Arr [])) routing_world
      = (Inr disc, routing_world\<lparr>drawn := 1, ticks := 1\<rparr>)"
    "jget ''capabilities'' disc = Arr (merged_capabilities (new_map [(''review'', review_capability)]))"
proof -
  have "is_arr (coalesce (jget ''advertised_capabilities'' routing_input) (Arr []))" by (simp add: routing_input_def)
  with demo_normalized that show ?thesis
    by (simp add: discoverSupervisorCapabilities_def bind_io_def routing_world_def)
qed

lemma routing_runs:
  obtains d w' where "selectSupervisorRoute demo_lstat ''/r'' routing_input routing_world = (Inr d, w')"
    and "jpath [''discovery'', ''capabilities''] d = Arr (merged_capabilities (new_map [(''review'', review_capability)]))"
proof -
  let ?ads = "coalesce (jget ''advertised_capabilities'' routing_input) (Arr [])"
  let ?w1 = "routing_world\<lparr>drawn := 1, ticks := 1\<rparr>"
  obtain disc where disc: "discoverSupervisorCapabilities demo_lstat ''/r'' ?ads routing_world = (Inr disc, ?w1)"
      and caps: "jget ''capabilities'' disc = Arr (merged_capabilities (new_map [(''review'', review_capability)]))"
    by (rule demo_discovery)
  have bytes: "bytes_at ?w1 = bytes_at routing_world" by (rule ext) (simp add: bytes_at_def)
  have req: "in_strs execution_routes (coalesce (jget ''requested_route'' routing_input) (Str DIRECT_SOURCE_ROUTE))"
    by code_simp
  have input: "is_obj routing_input" by (simp add: routing_input_def)
  have pol: "jpath [''gearbox'', ''required''] demo_policy = JBool True" by (simp add: demo_policy_def)
  have d1: "fst (discoverSupervisorCapabilities demo_lstat ''/r'' ?ads routing_world) = Inr disc" by (simp add: disc)
  have r1: "route_for (coalesce (jget ''requested_route'' routing_input) (Str DIRECT_SOURCE_ROUTE)) (elems (jget ''capabilities'' disc))
      (jget ''requested_capability'' routing_input) = Inr (optionalRoute (Str EXPLICIT_OPTIONAL_ROUTE) review_capability)"
    by (simp add: caps demo_route)
  have ok: "supervisorRoutingDecisionErrors (routing_decision did routing_subject routing_input disc
      (coalesce (jget ''requested_route'' routing_input) (Str DIRECT_SOURCE_ROUTE))
      (optionalRoute (Str EXPLICIT_OPTIONAL_ROUTE) review_capability) ''a'' ''b'' p sha t) demo_objective (Str sha) = Inr []" for did p sha t
    by (rule computed_decision_valid [OF d1 req r1])
      (simp_all add: routing_subject_def demo_objective_def trim_def is_space_def max_safe_def)
  have dc: "jpath [''discovery'', ''capabilities''] (routing_decision did routing_subject routing_input disc req' route s1 s2 p sha t)
      = Arr (merged_capabilities (new_map [(''review'', review_capability)]))" for did req' route s1 s2 p sha t
    by (simp add: caps)
  show ?thesis
    using that dc input pol req disc caps ok demo_route demo_rationales demo_subject [OF bytes] bytes
      routing_disk [of "''/r''"] routing_world_files
    unfolding selectSupervisorRoute_def Let_def
    by (simp add: bind_io_def guard_io_def persistSupervisorRoutingDecision_def del: jpath.simps)
qed

text \<open>The world after that selection.\<close>

lemma jwf_routing_input: "jwf routing_input"
  by code_simp

lemma routing_usable:
  obtains d w' where "selectSupervisorRoute demo_lstat ''/r'' routing_input routing_world = (Inr d, w')"
    and "requireSelectedSupervisorCapability ''/r'' (jget ''decision_id'' d)
      (Obj [(''capability_id'', Str ''review''), (''kind'', Str ''skill'')]) w'
      = (Inr (Obj [(''decision'', durable d), (''capability'', stored review_capability),
           (''selected_route'', jget ''selected_route'' (durable d))]), w')"
    and "decision_in_force ''/r'' d routing_world" and "jwf d" and "bytes_at w' ''/s/SKILL.md'' = Some ''steps''"
proof -
  obtain d w' where sel: "selectSupervisorRoute demo_lstat ''/r'' routing_input routing_world = (Inr d, w')"
      and caps: "jpath [''discovery'', ''capabilities''] d = Arr (merged_capabilities (new_map [(''review'', review_capability)]))"
    by (rule routing_runs)
  have opt: "coalesce (jget ''requested_route'' routing_input) (Str DIRECT_SOURCE_ROUTE) \<noteq> Str DIRECT_SOURCE_ROUTE"
      "durable_name (''supervisor-gearbox-'' @ uuids routing_world (Suc (drawn routing_world)))"
    by code_simp+
  have cid: "capabilityId (jget ''requested_capability'' routing_input) = Inr ''review''" by code_simp
  have found: "selected_among (Str ''review'') (merged_capabilities (new_map [(''review'', review_capability)])) = Inr (Some review_capability)"
    by code_simp
  let ?req = "Obj [(''capability_id'', Str ''review''), (''kind'', Str ''skill'')]"
  have "jget ''requested_capability'' routing_input = Str ''review''" by (simp add: routing_input_def)
  moreover have "jget ''kind'' review_capability = Str ''skill''" by (simp add: review_capability_def)
  ultimately have "\<exists>c cap. requireSelectedSupervisorCapability ''/r'' (jget ''decision_id'' d) ?req w'
      = (Inr (Obj [(''decision'', durable d), (''capability'', stored cap), (''selected_route'', jget ''selected_route'' (durable d))]), w')
    \<and> capabilityId (jget ''requested_capability'' routing_input) = Inr c
    \<and> selected_among (Str c) (elems (jpath [''discovery'', ''capabilities''] d)) = Inr (Some cap)"
    using cid found caps by (intro usable_after_selection [OF sel jwf_routing_input opt]) auto
  with cid found caps have "requireSelectedSupervisorCapability ''/r'' (jget ''decision_id'' d) ?req w'
      = (Inr (Obj [(''decision'', durable d), (''capability'', stored review_capability),
           (''selected_route'', jget ''selected_route'' (durable d))]), w')" by auto
  moreover have "bytes_at w' ''/s/SKILL.md'' = Some ''steps''"
    using postD [OF select_post sel] routing_world_files by (auto simp: routing_decision_path_def json_in_def)
  ultimately show ?thesis using postD [OF select_post sel] sel that jwf_routing_input by auto
qed

theorem selection_records_valid_decision_witness:
  "\<exists>d w'. selectSupervisorRoute demo_lstat ''/r'' routing_input routing_world = (Inr d, w')
     \<and> decision_in_force ''/r'' d routing_world"
proof -
  obtain d w' where sel: "selectSupervisorRoute demo_lstat ''/r'' routing_input routing_world = (Inr d, w')"
    by (rule routing_runs)
  with selection_records_valid_decision [OF sel] show ?thesis by auto
qed

theorem selected_capability_is_usable_witness:
  "\<exists>d w' granted. selectSupervisorRoute demo_lstat ''/r'' routing_input routing_world = (Inr d, w')
     \<and> requireSelectedSupervisorCapability ''/r'' (jget ''decision_id'' d)
      (Obj [(''capability_id'', jget ''requested_capability'' routing_input)]) w' = (Inr granted, w')"
proof -
  obtain d w' where sel: "selectSupervisorRoute demo_lstat ''/r'' routing_input routing_world = (Inr d, w')"
    by (rule routing_runs)
  have "coalesce (jget ''requested_route'' routing_input) (Str DIRECT_SOURCE_ROUTE) \<noteq> Str DIRECT_SOURCE_ROUTE"
      "durable_name (''supervisor-gearbox-'' @ uuids routing_world (Suc (drawn routing_world)))"
    by code_simp+
  from selected_capability_is_usable [OF sel jwf_routing_input this] sel show ?thesis by auto
qed

theorem routing_least_privilege_witness:
  "\<exists>d b. decision_in_force ''/r'' d routing_world \<and> jpath [''selected_route'', ''web'', ''enabled''] d = JBool b"
proof -
  obtain d where d: "decision_in_force ''/r'' d routing_world" "jwf d" by (rule routing_usable)
  then obtain o1 pol where "supervisorRoutingDecisionErrors d o1 pol = Inr []"
    by (auto simp: decision_in_force_def split: sum.splits option.splits)
  from routing_least_privilege [OF this d(2), of "''web''" "''web''"] d show ?thesis
    by (auto simp: route_switches_def)
qed

theorem capability_use_needs_selection_witness:
  "\<exists>d w' granted. requireSelectedSupervisorCapability ''/r'' (jget ''decision_id'' d)
      (Obj [(''capability_id'', Str ''review''), (''kind'', Str ''skill'')]) w' = (Inr granted, w')
    \<and> decision_in_force ''/r'' (jget ''decision'' granted) w'"
proof -
  obtain d w' granted where g: "requireSelectedSupervisorCapability ''/r'' (jget ''decision_id'' d)
      (Obj [(''capability_id'', Str ''review''), (''kind'', Str ''skill'')]) w' = (Inr granted, w')"
    by (rule routing_usable)
  from capability_use_needs_selection [OF g] g show ?thesis by blast
qed

lemma demo_evidence:
  "jpath [''instruction_path''] (stored review_capability) = Str ''/s/SKILL.md''"
  "jget ''evidence'' (probed True (stat_evidence \<lparr>st_is_file = True, st_is_symlink = False, st_dev = 1, st_ino = 7, st_size = 5, st_mtime = 9\<rparr>))
     = jget ''availability_evidence'' review_capability"
  "jget ''availability_evidence'' (stored review_capability) = durable (jget ''availability_evidence'' review_capability)"
proof -
  have "jwf review_capability" by code_simp
  moreover have "review_capability \<noteq> Undef" by (simp add: review_capability_def)
  ultimately show "jpath [''instruction_path''] (stored review_capability) = Str ''/s/SKILL.md''"
      "jget ''availability_evidence'' (stored review_capability) = durable (jget ''availability_evidence'' review_capability)"
    by (simp_all add: stored_def jget_read_back review_capability_def)
qed (simp add: probed_def stat_evidence_def regular_file_def review_capability_def)

theorem skill_instructions_unchanged_since_discovery_witness:
  "\<exists>d w' r. loadSelectedSupervisorSkillInstructions demo_lstat ''/r'' (jget ''decision_id'' d) (Str ''review'') w' = (Inr r, w')
     \<and> (\<exists>d. decision_in_force ''/r'' d w')"
proof -
  obtain d w' where req: "requireSelectedSupervisorCapability ''/r'' (jget ''decision_id'' d)
      (Obj [(''capability_id'', Str ''review''), (''kind'', Str ''skill'')]) w'
      = (Inr (Obj [(''decision'', durable d), (''capability'', stored review_capability),
           (''selected_route'', jget ''selected_route'' (durable d))]), w')"
      and skill: "bytes_at w' ''/s/SKILL.md'' = Some ''steps''"
    by (rule routing_usable)
  have "probeInstructionPath demo_lstat (Str ''/s/SKILL.md'') = Inr (probed True (stat_evidence
      \<lparr>st_is_file = True, st_is_symlink = False, st_dev = 1, st_ino = 7, st_size = 5, st_mtime = 9\<rparr>))"
    by (simp add: probeInstructionPath_def demo_lstat_def regular_file_def)
  with req skill demo_evidence obtain r where
      "loadSelectedSupervisorSkillInstructions demo_lstat ''/r'' (jget ''decision_id'' d) (Str ''review'') w' = (Inr r, w')"
    by (simp add: loadSelectedSupervisorSkillInstructions_def load_instructions_def bind_io_def guard_io_def readFile_def
        Let_def probed_def)
  with skill_instructions_unchanged_since_discovery [OF this] show ?thesis by blast
qed

end
