(* ===== verification/Schema.thy ===== *)
theory Schema imports Events ReadBack begin

text \<open>
  The version header of a repository's durable state (src/durable-schema.js): the manifest
  of the runtime, the header's validation, the migration, and \<open>ensureDurableCompatibility\<close>,
  which every command runs first. \<open>hook\<close> is the code's \<open>afterDurableWrite\<close>; the path of the
  manifest is an argument; roots are absolute (\<open>resolve\<close> is the identity on them).
\<close>

lemmas bind_runs = bind_now bind_id_new bind_sha256 bind_exists bind_existsDir bind_mkdirp bind_writeJson bind_appendEvent
  ret_apply throw_apply lift_io_apply

definition DURABLE_COMPATIBILITY_SCHEMA :: string where
  "DURABLE_COMPATIBILITY_SCHEMA = ''opsle.durable-supervisor.compatibility/v1''"

definition DURABLE_SCHEMA_VERSION :: int where
  "DURABLE_SCHEMA_VERSION = 2"

definition classifiedError :: "string \<Rightarrow> string \<Rightarrow> err" where
  "classifiedError c m = Coded c (c @ '': '' @ m)"

text \<open>\<open>[...new Set(xs)]\<close>: the first of equal elements is kept; objects are never equal.\<close>

fun js_dedupe :: "jv list \<Rightarrow> jv list \<Rightarrow> jv list" where
  "js_dedupe seen [] = []"
| "js_dedupe seen (x # xs) = (if is_prim x \<and> x \<in> set seen then js_dedupe seen xs else x # js_dedupe (x # seen) xs)"

section \<open>The manifest\<close>

definition manifest_ok :: "jv \<Rightarrow> string \<Rightarrow> bool" where
  "manifest_ok manifest fingerprint \<longleftrightarrow> jget ''version'' manifest = Num DURABLE_SCHEMA_VERSION
     \<and> is_arr (jget ''identifiers'' manifest)
     \<and> canonicalJson (jget ''identifiers'' manifest)
        = canonicalJson (Arr (sort_key js_string (js_dedupe [] (elems (jget ''identifiers'' manifest)))))
     \<and> jget ''fingerprint_sha256'' manifest = Str fingerprint"

definition parse_json :: "string \<Rightarrow> err + jv" where
  "parse_json s = (case jparse s of None \<Rightarrow> Inl (Err ''Unexpected token in JSON'') | Some v \<Rightarrow> Inr v)"

definition durableSchemaManifest :: "string \<Rightarrow> jv wio" where
  "durableSchemaManifest manifestPath =
     bind_io (readFile manifestPath) (\<lambda>text.
     bind_io (lift_io (parse_json text)) (\<lambda>manifest.
     bind_io (lift_io (jdot ''identifiers'' manifest)) (\<lambda>identifiers.
     bind_io (sha256 (canonicalJson identifiers)) (\<lambda>fingerprint.
     guard_io (\<not> manifest_ok manifest fingerprint) (Err ''durable schema manifest is inconsistent'') (
     ret manifest)))))"

section \<open>The header\<close>

definition compatibilityPath :: "string \<Rightarrow> string" where
  "compatibilityPath root = p_compatibility (paths root)"

definition readDurableJson :: "string \<Rightarrow> jv wio" where
  "readDurableJson p = try_io (readJson p)
     (\<lambda>e. throw (classifiedError ''CORRUPT'' (''malformed durable JSON at '' @ p @ '': '' @ err_message e)))"

definition legacyInterruptedHeader :: "jv \<Rightarrow> bool" where
  "legacyInterruptedHeader header \<longleftrightarrow> jget ''schema'' header = Str DURABLE_COMPATIBILITY_SCHEMA
     \<and> jget ''durable_schema_version'' header = Num 1
     \<and> jget ''schema_fingerprint_sha256'' header = Null
     \<and> is_str (jget ''migrated_at'' header)
     \<and> join_with '','' (sort (keys_of header))
        = join_with '','' (sort [''durable_schema_version'', ''migrated_at'', ''schema'', ''schema_fingerprint_sha256''])"

definition validateHeader :: "jv \<Rightarrow> jv \<Rightarrow> err + jv" where
  "validateHeader header manifest =
     guard_err (jget ''schema'' header \<noteq> Str DURABLE_COMPATIBILITY_SCHEMA
         \<or> \<not> pos_safe (jget ''durable_schema_version'' header)
         \<or> \<not> hex64 (jget ''schema_fingerprint_sha256'' header)
         \<or> \<not> is_str (jget ''migrated_at'' header))
       (classifiedError ''CORRUPT'' ''malformed durable compatibility header'') (
     guard_err (int_of (jget ''durable_schema_version'' header) > DURABLE_SCHEMA_VERSION)
       (classifiedError ''UPGRADE_REQUIRED'' (''repository durable schema v''
          @ js_string (jget ''durable_schema_version'' header) @ '' is newer than runtime v'' @ int_str DURABLE_SCHEMA_VERSION)) (
     guard_err (jget ''durable_schema_version'' header = Num DURABLE_SCHEMA_VERSION
         \<and> \<not> strict_eq (jget ''schema_fingerprint_sha256'' header) (jget ''fingerprint_sha256'' manifest))
       (classifiedError ''CORRUPT'' ''durable schema fingerprint does not match its declared version'') (
     Inr header)))"

section \<open>Migration\<close>

fun check_core :: "string list \<Rightarrow> unit wio" where
  "check_core [] = ret ()"
| "check_core (p # ps) =
     bind_io (existsSync p) (\<lambda>there.
     guard_io (\<not> there) (classifiedError ''CORRUPT'' (''missing durable state required for migration: '' @ p)) (
     bind_io (readDurableJson p) (\<lambda>_. check_core ps)))"

definition validateCoreState :: "string \<Rightarrow> unit wio" where
  "validateCoreState root = (let p = paths root in check_core [p_supervisor p, p_state p, p_objective p, p_policy p])"

definition migrateToCurrent :: "(string \<Rightarrow> unit wio) \<Rightarrow> string \<Rightarrow> unit wio" where
  "migrateToCurrent hook root =
     bind_io (validateCoreState root) (\<lambda>_.
     bind_io (existsDir (p_runnerRequests (paths root))) (\<lambda>there.
     if there then ret ()
     else
       bind_io (mkdirp (p_runnerRequests (paths root))) (\<lambda>_.
       hook ''runner-requests-directory'')))"

definition current_header :: "jv \<Rightarrow> string \<Rightarrow> jv" where
  "current_header manifest t = Obj [
     (''schema'', Str DURABLE_COMPATIBILITY_SCHEMA),
     (''durable_schema_version'', Num DURABLE_SCHEMA_VERSION),
     (''schema_fingerprint_sha256'', jget ''fingerprint_sha256'' manifest),
     (''migrated_at'', Str t)]"

definition write_header :: "(string \<Rightarrow> unit wio) \<Rightarrow> string \<Rightarrow> jv \<Rightarrow> jv wio" where
  "write_header hook root manifest =
     bind_io (migrateToCurrent hook root) (\<lambda>_.
     bind_io now (\<lambda>t.
     bind_io (writeJson (compatibilityPath root) (current_header manifest t)) (\<lambda>_.
     bind_io (hook ''compatibility-header-v2'') (\<lambda>_.
     bind_io (readDurableJson (compatibilityPath root)) (\<lambda>header.
     lift_io (validateHeader header manifest))))))"

definition ensureDurableCompatibility :: "(string \<Rightarrow> unit wio) \<Rightarrow> string \<Rightarrow> string \<Rightarrow> jv wio" where
  "ensureDurableCompatibility hook manifestPath root =
     bind_io (durableSchemaManifest manifestPath) (\<lambda>manifest.
     bind_io (existsSync (compatibilityPath root)) (\<lambda>there.
     if there then
       bind_io (readDurableJson (compatibilityPath root)) (\<lambda>header.
       if \<not> legacyInterruptedHeader header then
         bind_io (lift_io (validateHeader header manifest)) (\<lambda>validated.
         if jget ''durable_schema_version'' validated = Num DURABLE_SCHEMA_VERSION then ret validated
         else throw (classifiedError ''CORRUPT'' (''unsupported historical durable schema v''
           @ js_string (jget ''durable_schema_version'' validated) @ '' fingerprint'')))
       else write_header hook root manifest)
     else write_header hook root manifest))"

definition assertSchemaEvolution :: "jv \<Rightarrow> jv \<Rightarrow> bool wio" where
  "assertSchemaEvolution previous current =
     bind_io (lift_io (jdot ''identifiers'' previous)) (\<lambda>old.
     bind_io (sha256 (canonicalJson old)) (\<lambda>previousFingerprint.
     bind_io (lift_io (jdot ''identifiers'' current)) (\<lambda>new.
     bind_io (sha256 (canonicalJson new)) (\<lambda>currentFingerprint.
     guard_io (previousFingerprint \<noteq> currentFingerprint
         \<and> strict_eq (jget ''version'' previous) (jget ''version'' current))
       (Err ''durable schema identifiers changed without a durable schema version change'') (
     ret True)))))"

section \<open>What a run does\<close>

definition no_hook :: "string \<Rightarrow> unit wio" where
  "no_hook boundary = ret ()"

definition core_valid :: "string \<Rightarrow> world \<Rightarrow> bool" where
  "core_valid root w \<longleftrightarrow> list_all (\<lambda>p. \<not> isl (parse_object p (bytes_at w p)))
     [p_supervisor (paths root), p_state (paths root), p_objective (paths root), p_policy (paths root)]"

lemma readDurableJson_post [wp]: "post (readDurableJson p) w Q \<longleftrightarrow> Q (case parse_object p (bytes_at w p) of
    Inl e \<Rightarrow> Inl (classifiedError ''CORRUPT'' (''malformed durable JSON at '' @ p @ '': '' @ err_message e)) | Inr v \<Rightarrow> Inr v) w"
  by (auto simp: readDurableJson_def wp split: sum.splits)

lemma check_core_post:
  "post (check_core ps) w (\<lambda>r w'. w' = w \<and> (isl r \<longleftrightarrow> \<not> list_all (\<lambda>p. \<not> isl (parse_object p (bytes_at w p))) ps))"
proof (induction ps)
  case (Cons p ps)
  then show ?case
    by (auto simp: wp parse_object_None split: sum.splits dest: parse_object_present elim: post_weaken
        simp del: bind_runs)
qed (simp add: wp del: bind_runs)

lemma core_post [wp]: "post (validateCoreState root) w Q \<longleftrightarrow> Q (fst (validateCoreState root w)) w"
  using check_core_post [of "[p_supervisor (paths root), p_state (paths root), p_objective (paths root), p_policy (paths root)]" w]
  by (simp add: validateCoreState_def Let_def post_def)

lemma core_isl: "isl (fst (validateCoreState root w)) \<longleftrightarrow> \<not> core_valid root w"
  using check_core_post [of "[p_supervisor (paths root), p_state (paths root), p_objective (paths root), p_policy (paths root)]" w]
  by (simp add: validateCoreState_def core_valid_def Let_def post_def)


text \<open>A header the runtime accepts as its own.\<close>

definition header_current :: "string \<Rightarrow> jv \<Rightarrow> world \<Rightarrow> bool" where
  "header_current root manifest w \<longleftrightarrow>
     (case parse_object (compatibilityPath root) (bytes_at w (compatibilityPath root)) of Inl e \<Rightarrow> False
      | Inr h \<Rightarrow> validateHeader h manifest = Inr h \<and> jget ''durable_schema_version'' h = Num DURABLE_SCHEMA_VERSION)"

definition manifest_on_disk :: "string \<Rightarrow> world \<Rightarrow> err + jv" where
  "manifest_on_disk mp w = fst (durableSchemaManifest mp w)"

lemma manifest_post [wp]: "post (durableSchemaManifest mp) w Q \<longleftrightarrow> Q (manifest_on_disk mp w) w"
proof -
  have "post (durableSchemaManifest mp) w (\<lambda>r w'. w' = w)"
    unfolding durableSchemaManifest_def by (simp add: wp del: bind_runs)
  then show ?thesis by (simp add: post_def manifest_on_disk_def)
qed

lemma validateHeader_Inr: "validateHeader h m = Inr h' \<Longrightarrow> h' = h"
  by (simp add: validateHeader_def err_Inr_iff)

lemma legacy_not_valid: "legacyInterruptedHeader h \<Longrightarrow> jget ''durable_schema_version'' h \<noteq> Num DURABLE_SCHEMA_VERSION"
  by (simp add: legacyInterruptedHeader_def DURABLE_SCHEMA_VERSION_def)

lemma header_reads_back:
  assumes "jwf manifest"
  shows "parse_object q (Some (canonicalJson (current_header manifest t))) = Inr (durable (current_header manifest t))"
    and "jget ''durable_schema_version'' (durable (current_header manifest t)) = Num DURABLE_SCHEMA_VERSION"
    and "jget ''schema_fingerprint_sha256'' (durable (current_header manifest t)) = durable (jget ''fingerprint_sha256'' manifest)"
proof -
  have "jwf (current_header manifest t)" using assms by (simp add: current_header_def jwf_jget)
  then show "parse_object q (Some (canonicalJson (current_header manifest t))) = Inr (durable (current_header manifest t))"
      "jget ''durable_schema_version'' (durable (current_header manifest t)) = Num DURABLE_SCHEMA_VERSION"
      "jget ''schema_fingerprint_sha256'' (durable (current_header manifest t)) = durable (jget ''fingerprint_sha256'' manifest)"
    by (simp_all add: jget_read_back) (simp_all add: current_header_def)
qed

lemma validateHeader_current:
  "validateHeader h m = Inr h' \<Longrightarrow> jget ''durable_schema_version'' h = Num DURABLE_SCHEMA_VERSION \<Longrightarrow>
    jget ''schema_fingerprint_sha256'' h = jget ''fingerprint_sha256'' m"
  by (auto simp: validateHeader_def err_Inr_iff dest: strict_eq_imp_eq)

lemma manifest_facts:
  assumes "manifest_on_disk mp w = Inr manifest"
  shows "jwf manifest" "is_str (jget ''fingerprint_sha256'' manifest)"
  using assms
  by (auto simp: manifest_on_disk_def durableSchemaManifest_def bind_io_def readFile_def guard_io_def parse_json_def
      manifest_ok_def intro: jpure_jwf jparse_pure split: option.splits sum.splits if_splits)

lemma write_header_post:
  assumes "jwf manifest" "is_str (jget ''fingerprint_sha256'' manifest)"
  shows "post (write_header no_hook root manifest) w (\<lambda>r w'.
      (\<forall>p. p \<noteq> compatibilityPath root \<longrightarrow> bytes_at w' p = bytes_at w p) \<and>
      (\<forall>h. r = Inr h \<longrightarrow> header_current root manifest w'
        \<and> jget ''schema_fingerprint_sha256'' h = jget ''fingerprint_sha256'' manifest))"
  unfolding write_header_def migrateToCurrent_def no_hook_def
  using header_reads_back [OF assms(1)] assms(2) validateHeader_current
  by (cases "jget ''fingerprint_sha256'' manifest") (auto simp: wp header_current_def simp del: bind_runs dest!: validateHeader_Inr)

text \<open>\<open>ensureDurableCompatibility\<close> returns the header that is on disk afterwards, of the
  current version and with the fingerprint of the runtime's manifest; every file but the header
  is as before, and a repository that already has a current header is not written at all.\<close>

theorem ensure_establishes_current_header:
  assumes "ensureDurableCompatibility no_hook mp root w = (Inr h, w')" and "manifest_on_disk mp w = Inr manifest"
  shows "header_current root manifest w' \<and> jget ''schema_fingerprint_sha256'' h = jget ''fingerprint_sha256'' manifest
    \<and> (\<forall>p. p \<noteq> compatibilityPath root \<longrightarrow> bytes_at w' p = bytes_at w p)
    \<and> (header_current root manifest w \<longrightarrow> w' = w)"
proof -
  have written: "header_current root manifest w1 \<and> jget ''schema_fingerprint_sha256'' h = jget ''fingerprint_sha256'' manifest
      \<and> (\<forall>p. p \<noteq> compatibilityPath root \<longrightarrow> bytes_at w1 p = bytes_at w p)"
    if "write_header no_hook root manifest w = (Inr h, w1)" for w1
    using postD [OF write_header_post [OF manifest_facts [OF assms(2)]] that] by simp
  show ?thesis
  proof (cases "\<exists>h. parse_object (compatibilityPath root) (bytes_at w (compatibilityPath root)) = Inr h \<and> \<not> legacyInterruptedHeader h")
    case True
    then obtain h0 where h0: "parse_object (compatibilityPath root) (bytes_at w (compatibilityPath root)) = Inr h0"
        "\<not> legacyInterruptedHeader h0" by blast
    have "post (ensureDurableCompatibility no_hook mp root) w (\<lambda>r w'. w' = w \<and> (r = Inr h \<longrightarrow> h = h0
        \<and> validateHeader h0 manifest = Inr h0 \<and> jget ''durable_schema_version'' h0 = Num DURABLE_SCHEMA_VERSION))"
      using assms(2) h0 parse_object_present [OF h0(1)] unfolding ensureDurableCompatibility_def
      by (auto simp: wp simp del: bind_runs dest: validateHeader_Inr)
    from postD [OF this assms(1)] h0 validateHeader_current show ?thesis by (auto simp: header_current_def)
  next
    case False
    then have "\<not> header_current root manifest w"
      using legacy_not_valid by (auto simp: header_current_def split: sum.splits)
    moreover have ran: "post (ensureDurableCompatibility no_hook mp root) w (\<lambda>r w'. r = Inr h \<longrightarrow>
        write_header no_hook root manifest w = (r, w'))"
      using assms(2) False unfolding ensureDurableCompatibility_def
      by (auto simp: wp simp del: bind_runs split: sum.splits intro!: postI)
    ultimately show ?thesis using written postD [OF ran assms(1)] by blast
  qed
qed


text \<open>A repository whose durable state was written by a newer runtime is refused with
  \<open>UPGRADE_REQUIRED\<close> and not touched.\<close>

theorem newer_state_is_refused:
  assumes "manifest_on_disk mp w = Inr manifest"
    and "parse_object (compatibilityPath root) (bytes_at w (compatibilityPath root)) = Inr h"
    and "jget ''schema'' h = Str DURABLE_COMPATIBILITY_SCHEMA" "hex64 (jget ''schema_fingerprint_sha256'' h)"
      "is_str (jget ''migrated_at'' h)" "jget ''durable_schema_version'' h = Num v"
    and "DURABLE_SCHEMA_VERSION < v" "v \<le> max_safe"
  shows "\<exists>m. ensureDurableCompatibility hook mp root w = (Inl (Coded ''UPGRADE_REQUIRED'' m), w)"
proof -
  have nl: "\<not> legacyInterruptedHeader h"
    using assms(6,7) by (simp add: legacyInterruptedHeader_def DURABLE_SCHEMA_VERSION_def)
  have v: "0 < v" "\<not> v \<le> DURABLE_SCHEMA_VERSION" using assms(7) by (simp_all add: DURABLE_SCHEMA_VERSION_def)
  let ?e = "classifiedError ''UPGRADE_REQUIRED'' (''repository durable schema v''
      @ js_string (Num v) @ '' is newer than runtime v'' @ int_str DURABLE_SCHEMA_VERSION)"
  have vh: "validateHeader h manifest = Inl ?e"
    unfolding validateHeader_def using assms(3-6,8) v by (simp only: guard_err_def pos_safe_Num int_of.simps) auto
  obtain b where b: "bytes_at w (compatibilityPath root) = Some b" using parse_object_present [OF assms(2)] by auto
  have "post (ensureDurableCompatibility hook mp root) w (\<lambda>r w'. w' = w \<and> r = Inl ?e)"
    using assms(1,2) b nl vh unfolding ensureDurableCompatibility_def
    by (simp add: wp del: bind_runs append.simps)
  then have "ensureDurableCompatibility hook mp root w = (Inl ?e, w)"
    by (cases "ensureDurableCompatibility hook mp root w") (simp add: post_def del: append.simps)
  then show ?thesis unfolding classifiedError_def by blast
qed

section \<open>Interrupted migrations\<close>

text \<open>A hook that changes nothing: it returns, or it stops the run at a write boundary.\<close>

definition crash_hook :: "(string \<Rightarrow> unit wio) \<Rightarrow> bool" where
  "crash_hook hook \<longleftrightarrow> (\<forall>b w. snd (hook b w) = w)"

definition migratable :: "string \<Rightarrow> string \<Rightarrow> world \<Rightarrow> bool" where
  "migratable mp root w \<longleftrightarrow> core_valid root w \<and> (bytes_at w (compatibilityPath root) = None \<or>
     (case parse_object (compatibilityPath root) (bytes_at w (compatibilityPath root)) of Inl e \<Rightarrow> False
      | Inr h \<Rightarrow> legacyInterruptedHeader h))"

lemma crash_hook_post [wp]: "crash_hook hook \<Longrightarrow> post (hook b) w Q \<longleftrightarrow> Q (fst (hook b w)) w"
  by (simp add: crash_hook_def post_def)

lemma no_hook_crash: "crash_hook no_hook"
  by (simp add: crash_hook_def no_hook_def)

lemma header_validates:
  assumes "jwf m" "is_str (jget ''fingerprint_sha256'' m)" "hex64 (jget ''fingerprint_sha256'' m)"
  shows "validateHeader (durable (current_header m t)) m = Inr (durable (current_header m t))"
proof -
  have "jwf (current_header m t)" using assms by (simp add: current_header_def jwf_jget)
  then have "jget k (durable (current_header m t)) = durable (jget k (current_header m t))" for k
    by (simp add: jget_read_back)
  with assms(2,3) show ?thesis
    by (cases "jget ''fingerprint_sha256'' m")
      (auto simp: validateHeader_def guard_err_def current_header_def DURABLE_SCHEMA_VERSION_def pos_safe_def max_safe_def)
qed

definition ready :: "string \<Rightarrow> string \<Rightarrow> jv \<Rightarrow> world \<Rightarrow> bool" where
  "ready mp root m w \<longleftrightarrow> manifest_on_disk mp w = Inr m \<and> (migratable mp root w \<or> header_current root m w)"

lemma ensure_succeeds:
  assumes "ready mp root m w" and "hex64 (jget ''fingerprint_sha256'' m)"
  shows "\<exists>h w'. ensureDurableCompatibility no_hook mp root w = (Inr h, w')"
proof -
  from assms(1) have m: "manifest_on_disk mp w = Inr m" by (simp add: ready_def)
  note f = manifest_facts [OF m]
  have core: "core_valid root w \<Longrightarrow> fst (validateCoreState root w) = Inr ()"
    using core_isl [of root w] by (cases "fst (validateCoreState root w)") auto
  have wr: "post (write_header no_hook root m) w (\<lambda>r w'. \<not> isl r)" if "core_valid root w"
    using core [OF that] header_validates [OF f assms(2)] header_reads_back [OF f(1)]
    unfolding write_header_def migrateToCurrent_def by (simp add: wp no_hook_def del: bind_runs)
  have "post (ensureDurableCompatibility no_hook mp root) w (\<lambda>r w'. \<not> isl r)"
  proof (cases "header_current root m w")
    case True
    then show ?thesis
      using m legacy_not_valid unfolding ensureDurableCompatibility_def
      by (auto simp: wp header_current_def simp del: bind_runs split: sum.splits dest: parse_object_present)
  next
    case False
    with assms(1) have c: "core_valid root w" "bytes_at w (compatibilityPath root) = None
        \<or> (\<exists>h. parse_object (compatibilityPath root) (bytes_at w (compatibilityPath root)) = Inr h \<and> legacyInterruptedHeader h)"
      by (auto simp: ready_def migratable_def split: sum.splits)
    then show ?thesis
      using m wr [OF c(1)] unfolding ensureDurableCompatibility_def
      by (auto simp: wp simp del: bind_runs dest: parse_object_present)
  qed
  then show ?thesis
    by (cases "ensureDurableCompatibility no_hook mp root w"; cases "fst (ensureDurableCompatibility no_hook mp root w)")
      (auto simp: post_def)
qed


lemma manifest_frame:
  "bytes_at w' mp = bytes_at w mp \<Longrightarrow> digest w' = digest w \<Longrightarrow> manifest_on_disk mp w' = manifest_on_disk mp w"
  by (auto simp: manifest_on_disk_def durableSchemaManifest_def bind_io_def readFile_def guard_io_def
      split: option.splits sum.splits)

lemma core_frame:
  "(\<And>p. p \<noteq> compatibilityPath root \<Longrightarrow> bytes_at w' p = bytes_at w p) \<Longrightarrow> core_valid root w' = core_valid root w"
  by (simp add: core_valid_def compatibilityPath_def)

text \<open>An interrupted header write leaves the header in place; anything earlier leaves no header.\<close>

lemma crash_keeps_ready:
  assumes "ready mp root m w" "crash_hook hook" "mp \<noteq> compatibilityPath root" "hex64 (jget ''fingerprint_sha256'' m)"
  shows "post (ensureDurableCompatibility hook mp root) w (\<lambda>r w'. ready mp root m w')"
proof -
  from assms(1) have m: "manifest_on_disk mp w = Inr m" by (simp add: ready_def)
  note f = manifest_facts [OF m]
  have same: "ready mp root m w'" if "bytes_at w' = bytes_at w" "digest w' = digest w" for w'
    using assms(1) that manifest_frame [of w' mp w] core_frame [of root w' w]
    by (simp add: ready_def migratable_def header_current_def)
  have written: "ready mp root m w'" if "bytes_at w' = (bytes_at w)(compatibilityPath root \<mapsto> canonicalJson (current_header m t))"
      "digest w' = digest w" for w' t
    using m that assms(3) manifest_frame [of w' mp w] header_reads_back [OF f(1)] header_validates [OF f assms(4)]
    by (simp add: ready_def header_current_def)
  have env: "ready mp root m w" "ready mp root m (w\<lparr>dirs := ds\<rparr>)" for ds
    by (rule same; (rule ext)?; simp)+
  have head: "ready mp root m (put_file (compatibilityPath root) (canonicalJson (current_header m t)) (w\<lparr>ticks := n\<rparr>))"
      "ready mp root m (put_file (compatibilityPath root) (canonicalJson (current_header m t)) (w\<lparr>dirs := ds, ticks := n\<rparr>))" for ds n t
    by (rule written [of _ t]; (rule ext)?; simp)+
  have wr: "post (write_header hook root m) w (\<lambda>r w'. ready mp root m w')"
    unfolding write_header_def migrateToCurrent_def using assms(2)
    by (simp add: wp env head del: bind_runs)
  then show ?thesis
    using m same [of w] unfolding ensureDurableCompatibility_def by (simp add: wp del: bind_runs)
qed

fun crashed_runs :: "(string \<Rightarrow> unit wio) list \<Rightarrow> string \<Rightarrow> string \<Rightarrow> world \<Rightarrow> world" where
  "crashed_runs [] mp root w = w"
| "crashed_runs (h # hs) mp root w = crashed_runs hs mp root (snd (ensureDurableCompatibility h mp root w))"

lemma crashed_runs_ready:
  assumes "mp \<noteq> compatibilityPath root" "hex64 (jget ''fingerprint_sha256'' m)"
  shows "ready mp root m w \<Longrightarrow> \<forall>h\<in>set hooks. crash_hook h \<Longrightarrow> ready mp root m (crashed_runs hooks mp root w)"
proof (induction hooks arbitrary: w)
  case (Cons h hs)
  from crash_keeps_ready [OF Cons.prems(1) _ assms] Cons show ?case by (simp add: post_def)
qed simp


section \<open>Witnesses\<close>

definition demo_manifest :: jv where
  "demo_manifest = Obj [(''fingerprint_sha256'', Str (replicate 64 (CHR ''a''))), (''identifiers'', Arr [Str ''i'']),
     (''version'', Num 2)]"

definition small_record :: jv where
  "small_record = Obj [(''a'', Num 1)]"

definition schema_world :: "(string \<times> string) list \<Rightarrow> world" where
  "schema_world extra = \<lparr>files = [(''/m.json'', canonicalJson demo_manifest),
     (''/r/.opsle/supervisor.json'', canonicalJson small_record), (''/r/.opsle/state.json'', canonicalJson small_record),
     (''/r/.opsle/objective.json'', canonicalJson small_record), (''/r/.opsle/policy.json'', canonicalJson small_record)] @ extra,
     dirs = [], clock = (\<lambda>n. ''t''), ticks = 0, uuids = (\<lambda>n. ''u''), drawn = 0,
     digest = (\<lambda>s. replicate 64 (CHR ''a''))\<rparr>"

lemma demo_manifest_facts: "jwf demo_manifest" "durable demo_manifest = demo_manifest" "jwf small_record"
    "manifest_ok demo_manifest (replicate 64 (CHR ''a''))" "hex64 (jget ''fingerprint_sha256'' demo_manifest)"
  by code_simp+

lemma demo_manifest_on_disk: "manifest_on_disk ''/m.json'' (schema_world extra) = Inr demo_manifest"
proof -
  have "jparse (canonicalJson demo_manifest) = Some demo_manifest"
    using jparse_canonicalJson [OF demo_manifest_facts(1)] demo_manifest_facts(2) by (simp add: demo_manifest_def)
  then show ?thesis
    using demo_manifest_facts(4)
    by (simp add: manifest_on_disk_def durableSchemaManifest_def bind_io_def readFile_def schema_world_def bytes_at_def
        parse_json_def jdot_def guard_io_def) (simp add: demo_manifest_def)
qed

lemma schema_world_ready: "ready ''/m.json'' ''/r'' demo_manifest (schema_world [])"
proof -
  have "\<not> isl (parse_object p (Some (canonicalJson small_record)))" for p
    using demo_manifest_facts(3) by (simp add: small_record_def)
  then show ?thesis
    using demo_manifest_on_disk by (simp add: ready_def migratable_def core_valid_def schema_world_def bytes_at_def compatibilityPath_def)
qed

theorem ensure_establishes_current_header_witness:
  "\<exists>h w'. ensureDurableCompatibility no_hook ''/m.json'' ''/r'' (schema_world []) = (Inr h, w')
     \<and> header_current ''/r'' demo_manifest w'"
proof -
  obtain h w' where run: "ensureDurableCompatibility no_hook ''/m.json'' ''/r'' (schema_world []) = (Inr h, w')"
    using ensure_succeeds [OF schema_world_ready demo_manifest_facts(5)] by blast
  with ensure_establishes_current_header [OF run demo_manifest_on_disk] show ?thesis by blast
qed

definition newer_header :: jv where
  "newer_header = Obj [(''durable_schema_version'', Num 3), (''migrated_at'', Str ''t''),
     (''schema'', Str DURABLE_COMPATIBILITY_SCHEMA), (''schema_fingerprint_sha256'', Str (replicate 64 (CHR ''a'')))]"

theorem newer_state_is_refused_witness:
  "\<exists>m. ensureDurableCompatibility no_hook ''/m.json'' ''/r''
     (schema_world [(''/r/.opsle/compatibility.json'', canonicalJson newer_header)])
     = (Inl (Coded ''UPGRADE_REQUIRED'' m), schema_world [(''/r/.opsle/compatibility.json'', canonicalJson newer_header)])"
proof (rule newer_state_is_refused [OF demo_manifest_on_disk, where h = newer_header and v = 3])
  have "jwf newer_header" "durable newer_header = newer_header" by code_simp+
  then show "parse_object (compatibilityPath ''/r'') (bytes_at (schema_world [(''/r/.opsle/compatibility.json'', canonicalJson newer_header)])
      (compatibilityPath ''/r'')) = Inr newer_header"
    by (simp add: schema_world_def bytes_at_def compatibilityPath_def) (simp add: newer_header_def)
  show "hex64 (jget ''schema_fingerprint_sha256'' newer_header)" by code_simp
qed (simp_all add: newer_header_def DURABLE_SCHEMA_VERSION_def max_safe_def)

definition stop_hook :: "string \<Rightarrow> unit wio" where
  "stop_hook b = throw (Err ''stopped'')"


end
