(* ===== verification/State.thy ===== *)
theory State imports Routing Schema Dates begin

text \<open>
  The lifecycle state of a supervisor (src/state.js): the effective requirements matrix, the
  derived next action, \<open>setRequirements\<close>, \<open>updateState\<close>, \<open>policyHash\<close> and
  \<open>initialize\<close>. What initialization learns from git and from external commands is an argument.
\<close>

definition BOOTSTRAP_SCHEMA :: string where
  "BOOTSTRAP_SCHEMA = opsle_schema @ ''.bootstrap/v1''"

definition VALID_SUPERVISOR_STATES :: "string list" where
  "VALID_SUPERVISOR_STATES = [''ACTIVE'', ''DORMANT'', ''PAUSED'']"

definition VALID_CHILD_STATES :: "string list" where
  "VALID_CHILD_STATES = [''NONE'', ''QUEUED'', ''LAUNCHING'', ''RUNNING'', ''COMPLETED'', ''FAILED'',
     ''STALLED'', ''CANCELLED'', ''UNKNOWN'']"

definition REVIEW_MODES :: "string list" where
  "REVIEW_MODES = [''off'', ''manual'', ''risk_based'', ''always'']"

definition SATISFIED_REQUIREMENT_STATES :: "string list" where
  "SATISFIED_REQUIREMENT_STATES = [''VERIFIED'', ''DEFERRED_WITH_JUSTIFICATION'', ''NOT_APPLICABLE_WITH_JUSTIFICATION'']"

definition NEXT_UNSATISFIED_REQUIREMENT_ACTION :: string where
  "NEXT_UNSATISFIED_REQUIREMENT_ACTION = ''Select the next unsatisfied requirement slice.''"

section \<open>The requirements matrix\<close>

definition requirement_bad :: "jv \<Rightarrow> jv \<Rightarrow> bool" where
  "requirement_bad allowed item \<longleftrightarrow> \<not> is_str (jget ''id'' item) \<or> \<not> truthy (jget ''id'' item)
     \<or> \<not> jincludes (elems allowed) (jget ''state'' item)"

definition matrix_malformed :: "jv \<Rightarrow> string option \<Rightarrow> bool" where
  "matrix_malformed matrix specSha \<longleftrightarrow>
     jget ''schema'' matrix \<noteq> Str (opsle_schema @ ''.requirements/v1'')
     \<or> jget ''specification'' matrix \<noteq> Str ''.opsle/specification.md''
     \<or> \<not> hex64 (jget ''specification_sha256'' matrix)
     \<or> map_option Str specSha \<noteq> Some (jget ''specification_sha256'' matrix)
     \<or> \<not> is_arr (jget ''allowed_states'' matrix)
     \<or> elems (jget ''allowed_states'' matrix) = []
     \<or> \<not> is_arr (jget ''requirements'' matrix)
     \<or> list_ex (requirement_bad (jget ''allowed_states'' matrix)) (elems (jget ''requirements'' matrix))
     \<or> \<not> distinct (map (jget ''id'') (elems (jget ''requirements'' matrix)))"

text \<open>The digest of a file, \<open>None\<close> when it is missing.\<close>

definition optionalSha :: "string \<Rightarrow> string option wio" where
  "optionalSha p = bind_io (existsSync p) (\<lambda>there. if there then bind_io (fileSha256 p) (\<lambda>d. ret (Some d)) else ret None)"

definition checked_matrix :: "string \<Rightarrow> jv \<Rightarrow> jv wio" where
  "checked_matrix root matrix =
     (if truthy matrix then
        bind_io (optionalSha (p_specification (paths root))) (\<lambda>sha.
        guard_io (matrix_malformed matrix sha) (Err ''malformed effective requirements matrix'') (ret matrix))
      else ret matrix)"

definition effective_of :: "string \<Rightarrow> jv \<Rightarrow> jv \<Rightarrow> jv wio" where
  "effective_of root bootstrap matrix =
     (if truthy bootstrap then
        guard_io (jget ''schema'' bootstrap \<noteq> Str BOOTSTRAP_SCHEMA
            \<or> \<not> in_strs [''none'', ''matrix''] (jpath [''requirements'', ''mode''] bootstrap))
          (Err ''contradictory requirements authority'') (
        if jpath [''requirements'', ''mode''] bootstrap = Str ''none'' then ret Null
        else guard_io (\<not> truthy matrix) (Err ''requirement-driven authority is missing its matrix'')
          (checked_matrix root matrix))
      else checked_matrix root matrix)"

text \<open>An option the caller passes stands for what would otherwise be read from disk.\<close>

definition effectiveRequirementMatrix :: "string \<Rightarrow> jv option \<Rightarrow> jv option \<Rightarrow> jv wio" where
  "effectiveRequirementMatrix root bootstrapOption matrixOption =
     bind_io (case bootstrapOption of Some b \<Rightarrow> ret b | None \<Rightarrow> readOptional (p_bootstrap (paths root))) (\<lambda>bootstrap.
     bind_io (case matrixOption of Some m \<Rightarrow> ret m | None \<Rightarrow> readOptional (p_requirements (paths root))) (\<lambda>matrix.
     effective_of root bootstrap matrix))"

text \<open>\<open>v.filter(f)\<close>: a \<open>TypeError\<close> unless \<open>v\<close> is an array.\<close>

definition array_of :: "jv \<Rightarrow> err + jv list" where
  "array_of v = (case v of Arr xs \<Rightarrow> Inr xs | _ \<Rightarrow> Inl TypeErr)"

definition unsatisfiedRequirements :: "jv \<Rightarrow> err + jv list" where
  "unsatisfiedRequirements matrix =
     bind_err (array_of (coalesce (jget ''requirements'' matrix) (Arr []))) (\<lambda>reqs.
     filter_err (\<lambda>r. bind_err (jdot ''state'' r) (\<lambda>s. Inr (\<not> in_strs SATISFIED_REQUIREMENT_STATES s))) reqs)"

definition evaluate_completion :: jv where
  "evaluate_completion = Str ''Evaluate objective completion against accepted task evidence.''"

definition derivePendingNextAction :: "jv \<Rightarrow> jv \<Rightarrow> jv \<Rightarrow> err + jv" where
  "derivePendingNextAction state matrix fallback =
     (let unset = nullish fallback \<or> fallback = Str NEXT_UNSATISFIED_REQUIREMENT_ACTION in
      if truthy (jget ''active_task_id'' state) \<or> truthy (jget ''active_attempt_id'' state) then Inr fallback
      else if jpath [''pause'', ''active''] state = JBool True then Inr (Str ''Awaiting operator objective.'')
      else if \<not> truthy matrix then
        (if jget ''phase'' state = Str ''COMPLETE'' then Inr Null
         else if unset then Inr evaluate_completion
         else Inr fallback)
      else bind_err (unsatisfiedRequirements matrix) (\<lambda>unsatisfied.
        if jget ''phase'' state = Str ''COMPLETE'' \<and> unsatisfied = [] then Inr Null
        else if unsatisfied = [] \<and> unset then Inr evaluate_completion
        else if nullish fallback \<and> unsatisfied \<noteq> [] then Inr (Str NEXT_UNSATISFIED_REQUIREMENT_ACTION)
        else Inr fallback))"

definition currentObjective :: "jv \<Rightarrow> err + jv" where
  "currentObjective objective =
     (if \<not> truthy objective \<or> jget ''current_revision'' objective = Num 0 \<or> nullish (jget ''history'' objective) then Inr Null
      else
        bind_err (array_of (jget ''history'' objective)) (\<lambda>history.
        bind_err (find_err (\<lambda>item. bind_err (jdot ''revision'' item)
          (\<lambda>r. Inr (strict_eq r (jget ''current_revision'' objective)))) history) (\<lambda>found.
        Inr (case found of None \<Rightarrow> Null | Some item \<Rightarrow> item))))"

section \<open>Updates\<close>

definition satisfied_with :: "jv \<Rightarrow> jv list \<Rightarrow> jv \<Rightarrow> jv list \<Rightarrow> string \<Rightarrow> jv \<Rightarrow> jv" where
  "satisfied_with state own justification evidence t requirement = jsets [
     (''state'', state),
     (''evidence'', Arr (js_dedupe [] (own @ evidence))),
     (''justification'', justification),
     (''updated_at'', Str t)] requirement"

fun update_first :: "(jv \<Rightarrow> bool) \<Rightarrow> (jv \<Rightarrow> jv) \<Rightarrow> jv list \<Rightarrow> jv list" where
  "update_first P f [] = []"
| "update_first P f (x # xs) = (if P x then f x # xs else x # update_first P f xs)"

fun set_each :: "jv \<Rightarrow> string list \<Rightarrow> jv \<Rightarrow> jv list \<Rightarrow> jv \<Rightarrow> jv wio" where
  "set_each matrix [] state evidence justification = ret matrix"
| "set_each matrix (rid # ids) state evidence justification =
     (let reqs = elems (jget ''requirements'' matrix); match = (\<lambda>item. jget ''id'' item = Str rid) in
      case filter match reqs of
        [] \<Rightarrow> throw (Err (''unknown requirement: '' @ rid))
      | requirement # rest \<Rightarrow>
          bind_io (lift_io (spread_list (jget ''evidence'' requirement))) (\<lambda>own.
          bind_io now (\<lambda>t.
          set_each (jset ''requirements'' (Arr (update_first match (satisfied_with state own justification evidence t) reqs)) matrix)
            ids state evidence justification)))"

definition setRequirements :: "string \<Rightarrow> string list \<Rightarrow> jv \<Rightarrow> jv list \<Rightarrow> jv \<Rightarrow> unit wio" where
  "setRequirements root ids state evidence justification =
     bind_io (effectiveRequirementMatrix root None None) (\<lambda>matrix.
     if \<not> truthy matrix then
       (if ids = [] then ret () else throw (Err ''repository has no effective requirements matrix''))
     else
       bind_io (lift_io (includes_call (jget ''allowed_states'' matrix) state)) (\<lambda>allowed.
       guard_io (\<not> allowed) (Err (''invalid requirement state: '' @ js_string state)) (
       bind_io (set_each matrix ids state evidence justification) (\<lambda>updated.
       writeJson (p_requirements (paths root)) updated))))"

definition updateState :: "string \<Rightarrow> jv \<Rightarrow> jv wio" where
  "updateState root patch =
     bind_io (readJson (p_state (paths root))) (\<lambda>state.
     bind_io now (\<lambda>t.
     let next = jset ''updated_at'' (Str t) (jspread state patch) in
     guard_io (\<not> in_strs VALID_SUPERVISOR_STATES (jget ''supervisor_state'' next))
       (Err (''invalid supervisor state: '' @ js_string (jget ''supervisor_state'' next))) (
     bind_io (writeJson (p_state (paths root)) next) (\<lambda>_.
     ret next))))"

definition policyHash :: "string \<Rightarrow> string wio" where
  "policyHash root = bind_io (readFile (p_policy (paths root))) sha256"

section \<open>initialize\<close>

text \<open>What initialization learns outside the durable state: the worktree's cleanliness (\<open>Null\<close>
  when git fails), the git metadata, and the identities of the commands.\<close>

record surroundings =
  worktree_clean :: jv
  git_remote :: jv
  git_head :: jv
  git_branch :: jv
  command_identity :: "string \<Rightarrow> jv"

definition bootstrap_record :: "bool \<Rightarrow> string \<Rightarrow> string \<Rightarrow> jv" where
  "bootstrap_record hasRequirements t actor = Obj [
     (''schema'', Str BOOTSTRAP_SCHEMA),
     (''requirements'', if hasRequirements then Obj [(''mode'', Str ''matrix''), (''path'', Str ''.opsle/requirements.json''),
          (''specification_path'', Str ''.opsle/specification.md'')]
        else Obj [(''mode'', Str ''none''), (''path'', Null), (''specification_path'', Null)]),
     (''initialized_at'', Str t),
     (''initialized_by'', Str actor)]"

definition supervisor_record :: "surroundings \<Rightarrow> string \<Rightarrow> string \<Rightarrow> string \<Rightarrow> jv" where
  "supervisor_record env root sid t = Obj [
     (''schema'', Str (opsle_schema @ ''.supervisor/v1'')),
     (''repository'', Str root),
     (''repository_remote'', git_remote env),
     (''supervisor_id'', Str sid),
     (''generation'', Num 1),
     (''session_id'', Null),
     (''authority_status'', Str ''AUTHORITATIVE''),
     (''created_at'', Str t),
     (''recovered_at'', Null),
     (''last_durable_event'', Null)]"

definition policy_record :: "string \<Rightarrow> string \<Rightarrow> jv" where
  "policy_record t actor = Obj [
     (''schema'', Str (opsle_schema @ ''.policy/v1'')),
     (''version'', Num 1),
     (''changed_at'', Str t),
     (''changed_by'', Str actor),
     (''providers'', Obj [
        (''codex'', Obj [(''enabled'', JBool True), (''model'', Str ''gpt-5.6-sol''), (''reasoning_effort'', Str ''high'')]),
        (''claude'', Obj [(''enabled'', JBool False), (''model'', Null), (''reasoning_effort'', Null)])]),
     (''review'', Obj [(''mode'', Str ''off''), (''reviewer'', Null)]),
     (''affected_verification'', Obj [(''authority'', Str ''advisory_only'')]),
     (''gearbox'', Obj [(''required'', JBool True)]),
     (''model_polling'', Obj [(''permitted'', JBool False)])]"

definition revision_record :: "string \<Rightarrow> string \<Rightarrow> string \<Rightarrow> jv" where
  "revision_record text t actor = Obj [
     (''revision'', Num 1),
     (''objective'', Str text),
     (''changed_by'', Str actor),
     (''effective_at'', Str t)]"

text \<open>The initial objective is \<open>None\<close> when no text was given.\<close>

definition objective_record :: "string \<Rightarrow> (string \<times> string) option \<Rightarrow> string \<Rightarrow> jv" where
  "objective_record oid initial actor = Obj [
     (''schema'', Str (opsle_schema @ ''.objective/v2'')),
     (''objective_id'', Str oid),
     (''current_revision'', Num (if initial = None then 0 else 1)),
     (''history'', Arr (case initial of None \<Rightarrow> []
        | Some (text, t) \<Rightarrow> [revision_record text t actor]))]"

definition state_record :: "bool \<Rightarrow> string \<Rightarrow> jv" where
  "state_record hasObjective t = Obj [
     (''schema'', Str (opsle_schema @ ''.state/v1'')),
     (''supervisor_state'', Str ''ACTIVE''),
     (''phase'', Str (if hasObjective then ''ACTIVE'' else ''INITIALIZED'')),
     (''pause'', Obj [(''active'', JBool False), (''after_current'', JBool False), (''reason'', Null), (''changed_at'', Null)]),
     (''active_task_id'', Null),
     (''active_attempt_id'', Null),
     (''latest_accepted_task_id'', Null),
     (''latest_unresolved_issue'', Null),
     (''pending_next_action'', Str (if hasObjective then ''Establish bounded work for objective revision 1.''
        else ''Set the repository objective.'')),
     (''updated_at'', Str t)]"

definition audit_record :: "surroundings \<Rightarrow> string \<Rightarrow> string \<Rightarrow> string \<Rightarrow> jv" where
  "audit_record env root t actor = Obj [
     (''schema'', Str (opsle_schema @ ''.repository-audit/v1'')),
     (''repository'', Str root),
     (''remote'', git_remote env),
     (''head'', git_head env),
     (''branch'', git_branch env),
     (''clean_before_bootstrap'', worktree_clean env),
     (''sibling_repositories_modified'', JBool False),
     (''discovered_runtime'', Obj [
        (''node'', command_identity env ''node''),
        (''git'', command_identity env ''git''),
        (''codex'', command_identity env ''codex'')]),
     (''inspected_at'', Str t),
     (''actor'', Str actor)]"

fun mkdirs :: "string list \<Rightarrow> unit wio" where
  "mkdirs [] = ret ()"
| "mkdirs (d # ds) = bind_io (mkdirp d) (\<lambda>_. mkdirs ds)"

definition opsle_dirs :: "string \<Rightarrow> string list" where
  "opsle_dirs root = (let p = paths root in [p_tasks p, p_attempts p, p_claims p, p_events p, p_raw p, p_compact p,
     p_supervisorRouting p, p_runnerRequests p])"

definition initial_objective :: "string option \<Rightarrow> string option" where
  "initial_objective objectiveText = (case objectiveText of None \<Rightarrow> None
     | Some s \<Rightarrow> if trim s = [] then None else Some (trim s))"

definition commit_initial :: "string \<Rightarrow> string \<Rightarrow> string \<Rightarrow> jv \<Rightarrow> jv \<Rightarrow> jv \<Rightarrow> jv \<Rightarrow> jv \<Rightarrow> jv \<Rightarrow> jv wio" where
  "commit_initial manifestPath root actor bootstrap supervisor policy objective state audit =
     (let p = paths root in
     bind_io (writeJson (p_bootstrap p) bootstrap) (\<lambda>_.
     bind_io (writeJson (p_supervisor p) supervisor) (\<lambda>_.
     bind_io (writeJson (p_policy p) policy) (\<lambda>_.
     bind_io (writeJson (p_objective p) objective) (\<lambda>_.
     bind_io (writeJson (p_state p) state) (\<lambda>_.
     bind_io (writeJson (p_audit p) audit) (\<lambda>_.
     bind_io (ensureDurableCompatibility no_hook manifestPath root) (\<lambda>compatibility.
     bind_io (emit root ''SUPERVISOR_INITIALIZED'' (Obj [(''actor'', Str actor), (''repository'', Str root)])) (\<lambda>event.
     let recorded = jset ''last_durable_event'' (jget ''event_id'' event) supervisor in
     bind_io (writeJson (p_supervisor p) recorded) (\<lambda>_.
     ret (Obj [(''bootstrap'', bootstrap), (''supervisor'', recorded), (''policy'', policy), (''objective'', objective),
       (''state'', state), (''audit'', audit), (''compatibility'', compatibility)])))))))))))"

definition initialize :: "surroundings \<Rightarrow> string \<Rightarrow> string \<Rightarrow> string \<Rightarrow> string option \<Rightarrow> jv wio" where
  "initialize env manifestPath root actor objectiveText =
     (let p = paths root; initial = initial_objective objectiveText in
     bind_io (existsSync (p_specification p)) (\<lambda>hasSpecification.
     bind_io (existsSync (p_requirements p)) (\<lambda>hasRequirements.
     guard_io (hasSpecification \<noteq> hasRequirements)
       (Err ''pre-seeded specification and requirements matrix must either both exist or both be absent'') (
     bind_io (if hasRequirements then readJson (p_requirements p) else ret Null) (\<lambda>matrix.
     guard_io (hasRequirements \<and> (\<not> is_arr (jget ''allowed_states'' matrix) \<or> \<not> is_arr (jget ''requirements'' matrix)))
       (Err ''invalid pre-seeded requirements matrix'') (
     bind_io now (\<lambda>t0.
     let bootstrap = bootstrap_record hasRequirements t0 actor in
     bind_io (mkdirs (opsle_dirs root)) (\<lambda>_.
     bind_io (readOptional (p_supervisor p)) (\<lambda>existing.
     guard_io (jget ''authority_status'' existing = Str ''AUTHORITATIVE'')
       (Err (''authoritative supervisor already exists: '' @ js_string (jget ''supervisor_id'' existing))) (
     bind_io (id_new ''supervisor'') (\<lambda>sid.
     bind_io now (\<lambda>t1.
     let supervisor = supervisor_record env root sid t1 in
     bind_io now (\<lambda>t2.
     let policy = policy_record t2 actor in
     bind_io (id_new ''objective'') (\<lambda>oid.
     bind_io (case initial of None \<Rightarrow> ret None | Some text \<Rightarrow> bind_io now (\<lambda>t. ret (Some (text, t)))) (\<lambda>revision.
     let objective = objective_record oid revision actor in
     bind_io now (\<lambda>t3.
     let state = state_record (initial \<noteq> None) t3 in
     bind_io now (\<lambda>t4.
     let audit = audit_record env root t4 actor in
     commit_initial manifestPath root actor bootstrap supervisor policy objective state audit)))))))))))))))))"

end
