(* ===== verification/Frames.thy ===== *)
theory Frames imports State begin

text \<open>
  Which files a program leaves alone: \<open>keeps p m\<close> says that \<open>m\<close> never changes the file \<open>p\<close>, whether it
  returns or throws.  The collection \<open>keeping\<close> decides it through the code.
\<close>

named_theorems keeping "files that an operation leaves alone"

definition keeps :: "string \<Rightarrow> 'a wio \<Rightarrow> bool" where
  "keeps p m \<longleftrightarrow> (\<forall>w. bytes_at (snd (m w)) p = bytes_at w p)"

lemma keepsD: "keeps p m \<Longrightarrow> m w = (r, w') \<Longrightarrow> bytes_at w' p = bytes_at w p"
  by (metis keeps_def snd_conv)

lemma keeps_control [keeping]:
  "keeps p (ret x)" "keeps p (throw e)" "keeps p (lift_io r)"
  "(\<And>x. keeps p m \<Longrightarrow> keeps p (f x)) \<Longrightarrow> keeps p m \<Longrightarrow> keeps p (bind_io m f)"
  "keeps p m \<Longrightarrow> keeps p (guard_io c e m)"
  "(c \<Longrightarrow> keeps p m) \<Longrightarrow> (\<not> c \<Longrightarrow> keeps p m') \<Longrightarrow> keeps p (if c then m else m')"
  "keeps p m \<Longrightarrow> (\<And>e. keeps p (h e)) \<Longrightarrow> keeps p (try_io m h)"
  by (auto simp: keeps_def bind_io_def guard_io_def try_io_def split: prod.splits sum.splits) (metis snd_conv)+

lemma keeps_split [keeping]:
  "(\<And>a b. keeps p (h a b)) \<Longrightarrow> keeps p (case ab of (a, b) \<Rightarrow> h a b)"
  "(o1 = None \<Longrightarrow> keeps p m) \<Longrightarrow> (\<And>x. o1 = Some x \<Longrightarrow> keeps p (f x)) \<Longrightarrow> keeps p (case o1 of None \<Rightarrow> m | Some x \<Rightarrow> f x)"
  "(\<And>e. keeps p (g e)) \<Longrightarrow> (\<And>x. keeps p (f x)) \<Longrightarrow> keeps p (case s of Inl e \<Rightarrow> g e | Inr x \<Rightarrow> f x)"
  by (auto split: prod.splits option.splits sum.splits)

lemma keeps_map_io [keeping]: "(\<And>x. keeps p (f x)) \<Longrightarrow> keeps p (map_io f xs)"
  by (induction xs) (auto intro: keeping)

lemma keeps_reads [keeping]:
  "keeps p (existsSync q)" "keeps p (readJson q)" "keeps p (readOptional q)" "keeps p (readFile q)" "keeps p (fileSha256 q)"
  "keeps p (existsDir q)" "keeps p (readdirJson q)" "keeps p (sha256 s)" "keeps p now" "keeps p (id_new s)" "keeps p (mkdirp q)"
  by (auto simp: keeps_def readFile_def fileSha256_def readOptional_run readdirJson_def split: option.splits)

lemma keeps_mkdirs [keeping]: "keeps p (mkdirs ds)"
  by (induction ds) (simp_all only: mkdirs.simps, (intro keeping | assumption)+)

lemma keeps_writes [keeping]:
  "p \<noteq> q \<Longrightarrow> keeps p (writeJson q v)" "p \<noteq> q \<Longrightarrow> keeps p (atomicWrite q b)"
  "p \<noteq> q \<Longrightarrow> keeps p (atomicCreateJson q v)" "p \<noteq> q \<Longrightarrow> keeps p (atomicCompareAndSwapJson q e v)"
  "\<not> journal_path root p \<Longrightarrow> keeps p (emit root ty d)"
  by (auto simp: keeps_def atomicWrite_def atomicCreateJson_def atomicCompareAndSwapJson_def Let_def split: option.splits)

lemma keeps_updateState [keeping]: "p \<noteq> p_state (paths root) \<Longrightarrow> keeps p (updateState root patch)"
  unfolding updateState_def Let_def by (intro keeping)

text \<open>A program that only reads leaves the world as it is.\<close>

named_theorems reads "operations that leave the world as it is"

definition reads_only :: "('w, 'a) io \<Rightarrow> bool" where
  "reads_only m \<longleftrightarrow> (\<forall>w. snd (m w) = w)"

lemma reads_basic [reads]:
  "reads_only (ret x)" "reads_only (throw e)" "reads_only (lift_io r)"
  "reads_only (readJson p)" "reads_only (existsSync p)" "reads_only (existsDir d)" "reads_only (readdirJson d)"
  "reads_only (fileSha256 p)" "reads_only (readOptional p)" "reads_only (readFile p)" "reads_only (sha256 s)"
  by (auto simp: reads_only_def readdirJson_def fileSha256_def readFile_def readOptional_run split: option.splits)

lemma reads_bind [reads]:
  assumes "reads_only m" "\<And>x. reads_only (f x)"
  shows "reads_only (bind_io m f)"
  unfolding reads_only_def
proof
  fix w
  obtain r where "m w = (r, w)" using assms(1) by (cases "m w") (auto simp: reads_only_def dest: spec [of _ w])
  then show "snd (bind_io m f w) = w" using assms(2) by (cases r) (auto simp: bind_io_def reads_only_def)
qed

lemma reads_try [reads]:
  assumes "reads_only m" "\<And>e. reads_only (h e)"
  shows "reads_only (try_io m h)"
  unfolding reads_only_def
proof
  fix w
  obtain r where "m w = (r, w)" using assms(1) by (cases "m w") (auto simp: reads_only_def dest: spec [of _ w])
  then show "snd (try_io m h w) = w" using assms(2) by (cases r) (auto simp: try_io_def reads_only_def)
qed

lemma reads_control [reads]:
  "reads_only m \<Longrightarrow> reads_only (guard_io c e m)"
  "reads_only m \<Longrightarrow> reads_only m' \<Longrightarrow> reads_only (if c then m else m')"
  by (simp_all add: reads_only_def guard_io_def)

lemma post_reads: "reads_only m \<Longrightarrow> post m w Q \<longleftrightarrow> Q (fst (m w)) w"
  by (simp add: post_def reads_only_def)

lemma reads_onlyD: "reads_only m \<Longrightarrow> m w = (r, w') \<Longrightarrow> w' = w"
  by (metis reads_only_def snd_conv)

lemma reads_map_io [reads]:
  assumes "\<And>x. reads_only (f x)"
  shows "reads_only (map_io f xs)"
proof (induction xs)
  case (Cons x xs)
  then show ?case unfolding map_io.simps using assms by (intro reads)
qed (unfold map_io.simps, intro reads)

text \<open>A run that succeeds step by step, with what holds of the world in between.\<close>

lemma bind_succeeds:
  assumes "\<exists>x w1. m w = (Inr x, w1) \<and> P w1" and "\<And>x w1. P w1 \<Longrightarrow> \<exists>y w'. f x w1 = (Inr y, w')"
  shows "\<exists>y w'. bind_io m f w = (Inr y, w')"
  using assms by (auto simp: bind_io_def)

lemma post_keeps: "keeps p m \<Longrightarrow> post m w (\<lambda>r w'. bytes_at w' p = bytes_at w p)"
  by (simp add: post_def keeps_def)

end
