(* ===== verification/Validate.thy ===== *)
theory Validate imports Frames begin

text \<open>
  \<open>validateDurableState\<close> (src/state.js), section by section: each section yields the
  messages it pushes, and the validation runs them in order.
\<close>

section \<open>Collecting messages\<close>

type_synonym messages = "string list wio"

definition say :: "bool \<Rightarrow> string \<Rightarrow> messages" where
  "say c m = ret (if c then [m] else [])"

fun collect :: "messages list \<Rightarrow> messages" where
  "collect [] = ret []"
| "collect (c # cs) = bind_io c (\<lambda>es. bind_io (collect cs) (\<lambda>fs. ret (es @ fs)))"

definition both :: "string list \<Rightarrow> messages \<Rightarrow> messages" where
  "both es m = bind_io m (\<lambda>fs. ret (es @ fs))"

section \<open>Requirements and policy\<close>

definition bootstrap_messages :: "jv \<Rightarrow> string list" where
  "bootstrap_messages bootstrap =
     (if truthy bootstrap \<and> jget ''schema'' bootstrap \<noteq> Str BOOTSTRAP_SCHEMA then [''invalid bootstrap schema''] else []) @
     (if truthy bootstrap \<and> \<not> in_strs [''none'', ''matrix''] (jpath [''requirements'', ''mode''] bootstrap)
      then [''invalid bootstrap requirements mode''] else [])"

definition matrix_messages :: "string \<Rightarrow> jv \<Rightarrow> messages" where
  "matrix_messages root matrix =
     (let p = paths root; allowed = jget ''allowed_states'' matrix; reqs = jget ''requirements'' matrix in
     if \<not> truthy matrix then ret []
     else
       bind_io (existsSync (p_requirements p)) (\<lambda>hasMatrix.
       bind_io (optionalSha (p_specification p)) (\<lambda>spec.
       both (if \<not> hasMatrix \<or> spec = None
             then [''requirement-driven repository must contain both specification and requirements matrix''] else [])
       (if \<not> is_arr allowed \<or> \<not> is_arr reqs then ret [''invalid requirements matrix'']
        else
          bind_io (lift_io (map_err (jdot ''id'') (elems reqs))) (\<lambda>ids.
          ret ((if length (js_dedupe [] ids) \<noteq> length ids then [''requirements must contain unique IDs''] else [])
            @ concat (map (\<lambda>item. if jincludes (elems allowed) (jget ''state'' item) then []
                 else [''invalid requirement state: '' @ js_string (jget ''id'' item)]) (elems reqs))
            @ (case spec of None \<Rightarrow> [''requirements matrix specification is missing'']
               | Some sha \<Rightarrow> if jget ''specification_sha256'' matrix \<noteq> Str sha then [''specification hash mismatch''] else []))))))) "

text \<open>\<open>v === null || typeof v === 'string'\<close>\<close>

definition null_or_str :: "jv \<Rightarrow> bool" where
  "null_or_str v \<longleftrightarrow> v = Null \<or> is_str v"

definition provider_bad :: "jv \<Rightarrow> bool" where
  "provider_bad configured \<longleftrightarrow> \<not> is_bool (jget ''enabled'' configured)
     \<or> \<not> null_or_str (jget ''model'' configured) \<or> \<not> null_or_str (jget ''reasoning_effort'' configured)"

definition policy_messages :: "jv \<Rightarrow> string list" where
  "policy_messages policy =
     (if in_strs REVIEW_MODES (jpath [''review'', ''mode''] policy) then [] else [''invalid review mode'']) @
     concat (map (\<lambda>provider. if provider_bad (jpath [''providers'', provider] policy)
       then [''invalid '' @ provider @ '' provider configuration''] else []) [''codex'', ''claude''])"

section \<open>Objective and lifecycle\<close>

fun revision_messages :: "nat \<Rightarrow> jv list \<Rightarrow> err + string list" where
  "revision_messages i [] = Inr []"
| "revision_messages i (revision # rest) =
     bind_err (jdot ''revision'' revision) (\<lambda>r.
     bind_err (revision_messages (Suc i) rest) (\<lambda>ms.
     Inr ((if r \<noteq> Num (int i + 1) then [''objective revision ordering mismatch at '' @ nat_str (i + 1)] else [])
       @ (if blank (jget ''objective'' revision) then [''objective revision '' @ js_string r @ '' must contain text''] else [])
       @ ms)))"

definition objective_messages :: "jv \<Rightarrow> err + string list" where
  "objective_messages objective =
     (let history = elems (jget ''history'' objective) in
     if \<not> is_arr (jget ''history'' objective) then Inr [''objective history must be an array'']
     else if history = [] then
       Inr (if jget ''current_revision'' objective \<noteq> Num 0
           \<or> jget ''schema'' objective \<noteq> Str (opsle_schema @ ''.objective/v2'')
         then [''empty objective history requires neutral objective schema''] else [])
     else
       bind_err (revision_messages 0 history) (\<lambda>ms.
       Inr (ms @ (if \<not> strict_eq (jget ''current_revision'' objective) (jget ''revision'' (last history))
         then [''current objective revision must be the latest history revision''] else []))))"

definition lifecycle_messages :: "string \<Rightarrow> jv \<Rightarrow> jv \<Rightarrow> jv \<Rightarrow> jv \<Rightarrow> err + string list" where
  "lifecycle_messages root supervisor state objective matrix =
     (let phase = jget ''phase'' state; paused = (jpath [''pause'', ''active''] state = JBool True);
          afterCurrent = (jpath [''pause'', ''after_current''] state = JBool True) in
     bind_err (currentObjective objective) (\<lambda>current.
     bind_err (if phase = Str ''COMPLETE'' then unsatisfiedRequirements matrix else Inr []) (\<lambda>unsatisfied.
     gather [
       complain (jget ''repository'' supervisor \<noteq> Str root) ''repository identity mismatch'',
       complain (jget ''authority_status'' supervisor \<noteq> Str ''AUTHORITATIVE'') ''no authoritative supervisor'',
       complain (\<not> in_strs VALID_SUPERVISOR_STATES (jget ''supervisor_state'' state)) ''invalid supervisor state'',
       complain (nullish (jget ''active_task_id'' state) \<noteq> nullish (jget ''active_attempt_id'' state))
         ''active task and attempt must be present together'',
       complain (jget ''supervisor_state'' state = Str ''PAUSED'' \<and> \<not> paused) ''paused supervisor requires active pause authority'',
       complain (\<not> paused \<and> (afterCurrent \<or> jget ''supervisor_state'' state = Str ''PAUSED''))
         ''inactive pause authority is contradictory'',
       complain (afterCurrent \<and> \<not> truthy (jget ''active_attempt_id'' state)) ''pause-after-current requires active work'',
       complain (phase = Str ''INITIALIZED'' \<and> truthy current) ''initialized phase contradicts a current objective'',
       complain (phase \<noteq> Str ''INITIALIZED'' \<and> \<not> truthy current) ''active lifecycle requires a current objective'',
       complain (phase = Str ''COMPLETE'' \<and> (truthy (jget ''active_task_id'' state) \<or> truthy (jget ''latest_unresolved_issue'' state)))
         ''complete state cannot retain active work or unresolved issues'',
       complain (phase = Str ''COMPLETE'' \<and> unsatisfied = [] \<and> jget ''pending_next_action'' state \<noteq> Null)
         ''complete state with no unsatisfied requirements must not have a pending next action''])))"

section \<open>Routing decisions and attempts\<close>

fun each_file :: "(string \<Rightarrow> messages) \<Rightarrow> string list \<Rightarrow> messages" where
  "each_file f [] = ret []"
| "each_file f (x # xs) = bind_io (f x) (\<lambda>es. bind_io (each_file f xs) (\<lambda>fs. ret (es @ fs)))"

definition each_json :: "string \<Rightarrow> (string \<Rightarrow> messages) \<Rightarrow> messages" where
  "each_json d f = bind_io (readdirJson d) (each_file f)"

definition if_dir :: "string \<Rightarrow> messages \<Rightarrow> messages" where
  "if_dir d m = bind_io (existsDir d) (\<lambda>there. if there then m else ret [])"

definition routing_messages :: "string \<Rightarrow> messages" where
  "routing_messages root = (let d = p_supervisorRouting (paths root) in
     if_dir d (each_json d (\<lambda>f.
       bind_io (readJson (d @ ''/'' @ f)) (\<lambda>decision.
       bind_io (lift_io (supervisorRoutingDecisionErrors decision Undef Undef)) (\<lambda>errors.
       ret (map (\<lambda>e. ''invalid supervisor routing decision in '' @ f @ '': '' @ e) errors))))))"

definition snapshot_schema :: "string \<Rightarrow> string" where
  "snapshot_schema v = ''opsle.durable-supervisor.delegation-policy-snapshot/'' @ v"

definition codex_tool_ok :: "bool \<Rightarrow> jv \<Rightarrow> jv \<Rightarrow> bool" where
  "codex_tool_ok currentContract route decision \<longleftrightarrow> jget ''selected_route'' decision \<noteq> Str ''codex''
     \<or> (jpath [''provider'', ''name''] route = Str ''codex''
        \<and> jget ''execution_class'' route = Str ''bounded_implementation''
        \<and> (jget ''selected_tool'' route = Str ''none'' \<or> (\<not> currentContract \<and> nullish (jget ''selected_tool'' route)))
        \<and> is_arr (jget ''tool_allowlist'' route)
        \<and> elems (jget ''tool_allowlist'' route) = [])"

definition deterministic_tool_ok :: "bool \<Rightarrow> jv \<Rightarrow> jv \<Rightarrow> bool" where
  "deterministic_tool_ok currentContract route decision \<longleftrightarrow> jget ''selected_route'' decision \<noteq> Str ''deterministic''
     \<or> (let tool = jget ''tool'' (jidx 0 (jget ''tool_allowlist'' route)) in
        jget ''provider'' route = Null
        \<and> jget ''execution_class'' route = Str ''deterministic_command''
        \<and> is_arr (jget ''tool_allowlist'' route)
        \<and> length (elems (jget ''tool_allowlist'' route)) = 1
        \<and> is_str tool
        \<and> (jget ''selected_tool'' route = tool \<or> (\<not> currentContract \<and> nullish (jget ''selected_tool'' route))))"

definition empty_arr :: "jv \<Rightarrow> bool" where
  "empty_arr v \<longleftrightarrow> is_arr v \<and> elems v = []"

definition route_closed :: "jv \<Rightarrow> bool" where
  "route_closed route \<longleftrightarrow> is_arr (jget ''skill_allowlist'' route)
     \<and> jpath [''web'', ''enabled''] route = JBool False \<and> jpath [''web'', ''mode''] route = Str ''disabled''
     \<and> jpath [''mcp'', ''enabled''] route = JBool False \<and> empty_arr (jpath [''mcp'', ''server_allowlist''] route)
     \<and> jpath [''plugins'', ''enabled''] route = JBool False \<and> empty_arr (jpath [''plugins'', ''plugin_allowlist''] route)
     \<and> jpath [''subagents'', ''enabled''] route = JBool False
     \<and> jpath [''review'', ''enabled''] route = JBool False \<and> jpath [''review'', ''mode''] route = Str ''off''
     \<and> nullish (jpath [''review'', ''reviewer''] route)
     \<and> jpath [''fallback'', ''enabled''] route = JBool False
     \<and> empty_arr (jpath [''fallback'', ''provider_allowlist''] route)"

definition exact_route_ok :: "jv \<Rightarrow> jv \<Rightarrow> bool" where
  "exact_route_ok attempt snapshot \<longleftrightarrow>
     (let route = jget ''selected_route'' snapshot; decision = jget ''gearbox_decision'' snapshot;
          currentContract = ends_with ''/v3'' (str_of (jget ''schema'' snapshot)) in
      jget ''schema'' route = Str (if currentContract then ''opsle.durable-supervisor.exact-child-route/v2''
         else ''opsle.durable-supervisor.exact-child-route/v1'')
      \<and> jget ''schema'' decision = Str (if currentContract then ''opsle.durable-supervisor.gearbox-decision/v3''
         else ''opsle.durable-supervisor.gearbox-decision/v2'')
      \<and> in_strs [''codex'', ''deterministic''] (jget ''selected_route'' decision)
      \<and> canonicalJson route = canonicalJson (jget ''selected_route_config'' decision)
      \<and> strict_eq (jget ''selected_route'' decision) (jget ''gearbox_route'' attempt)
      \<and> strict_eq (jget ''policy_sha256'' snapshot) (jget ''operator_policy_sha256'' decision)
      \<and> codex_tool_ok currentContract route decision
      \<and> deterministic_tool_ok currentContract route decision
      \<and> route_closed route)"

definition attempt_messages :: "string \<Rightarrow> string \<Rightarrow> messages" where
  "attempt_messages root f =
     bind_io (readJson (p_attempts (paths root) @ ''/'' @ f)) (\<lambda>attempt.
     bind_io (existsSync (json_in (p_tasks (paths root)) (js_string (jget ''task_id'' attempt)))) (\<lambda>hasTask.
     let snapshot = jget ''policy_snapshot'' attempt; schema = jget ''schema'' snapshot in
     ret ((if in_strs VALID_CHILD_STATES (jget ''child_state'' attempt) then [] else [''invalid child state in '' @ f])
       @ (if hasTask then [] else [''orphan attempt '' @ js_string (jget ''attempt_id'' attempt)])
       @ (if \<not> in_strs [snapshot_schema ''v1'', snapshot_schema ''v2'', snapshot_schema ''v3''] schema
          then [''invalid policy snapshot schema in '' @ f]
          else if (ends_with ''/v2'' (str_of schema) \<or> ends_with ''/v3'' (str_of schema)) \<and> \<not> exact_route_ok attempt snapshot
          then [''invalid exact selected route in '' @ f] else []))))"

section \<open>Wake records\<close>

definition binding_schema :: "string \<Rightarrow> string" where
  "binding_schema v = ''opsle.durable-supervisor.codex-session-binding'' @ v"

definition binding_messages :: "jv \<Rightarrow> jv \<Rightarrow> string list" where
  "binding_messages supervisor binding =
     (let schema = jget ''schema'' binding; revision_ok = pos_safe (jget ''binding_revision'' binding) in
     (if in_strs [binding_schema ''/v1'', binding_schema ''/v2'', binding_schema ''/v3'', binding_schema ''-invalid/v1''] schema
      then [] else [''invalid Codex session binding schema'']) @
     (if strict_eq (jget ''supervisor_id'' binding) (jget ''supervisor_id'' supervisor) then []
      else [''Codex session binding supervisor identity mismatch'']) @
     (if schema = Str (binding_schema ''/v3'') \<and> (jget ''state'' binding \<noteq> Str ''CURRENT'' \<or> \<not> revision_ok)
      then [''invalid current ephemeral Codex session binding revision''] else []) @
     (if schema = Str (binding_schema ''-invalid/v1'')
        \<and> (jget ''state'' binding \<noteq> Str ''INVALID'' \<or> \<not> revision_ok \<or> \<not> nullish (jget ''codex_session_uuid'' binding)
           \<or> \<not> nullish (jget ''rollout'' binding) \<or> \<not> nullish (jget ''host'' binding))
      then [''invalid fail-closed Codex session binding pointer''] else []))"

definition consumption_bad :: "jv \<Rightarrow> bool" where
  "consumption_bad c \<longleftrightarrow> jget ''schema'' c \<noteq> Str ''opsle.durable-supervisor.wake-consumption/v1''
     \<or> \<not> truthy (jget ''event_id'' c) \<or> \<not> truthy (jget ''delivery_id'' c)
     \<or> \<not> safe_int (jget ''supervisor_generation'' c)
     \<or> \<not> hex64 (jget ''request_sha256'' c) \<or> \<not> hex64 (jget ''delivery_receipt_fence_sha256'' c)"

definition lease_bad :: "jv \<Rightarrow> bool" where
  "lease_bad lease \<longleftrightarrow> jget ''schema'' lease \<noteq> Str ''opsle.durable-supervisor.activation-lease/v1''
     \<or> \<not> pos_safe (jget ''fencing_token'' lease)"

definition wake_messages :: "string \<Rightarrow> jv \<Rightarrow> messages" where
  "wake_messages root supervisor =
     (let wake = p_opsle (paths root) @ ''/wake''; binding = wake @ ''/codex-session-binding.json'';
          consumptions = wake @ ''/consumptions''; lease = wake @ ''/activation-lease.json'';
          decisions = wake @ ''/activation-decisions'' in
     collect [
       bind_io (existsSync binding) (\<lambda>there.
         if there then bind_io (readJson binding) (\<lambda>b. ret (binding_messages supervisor b)) else ret []),
       if_dir consumptions (each_json consumptions (\<lambda>f.
         bind_io (readJson (consumptions @ ''/'' @ f)) (\<lambda>c.
         say (consumption_bad c) (''invalid wake consumption evidence: '' @ f)))),
       bind_io (existsSync lease) (\<lambda>there.
         if there then bind_io (readJson lease) (\<lambda>l. say (lease_bad l) ''invalid activation lease'') else ret []),
       if_dir decisions (each_json decisions (\<lambda>f.
         bind_io (readJson (decisions @ ''/'' @ f)) (\<lambda>d.
         say (jget ''schema'' d \<noteq> Str ''opsle.durable-supervisor.activation-decision/v1'')
           (''invalid activation decision in '' @ f))))])"

section \<open>The whole validation\<close>

definition verdict_of :: "string list \<Rightarrow> jv" where
  "verdict_of errors = Obj [(''valid'', JBool (errors = [])), (''errors'', Arr (map Str errors))]"

definition missing_messages :: "string list \<Rightarrow> messages" where
  "missing_messages ps = each_file (\<lambda>p. bind_io (existsSync p) (\<lambda>there. say (\<not> there) (''missing '' @ p))) ps"

definition loaded_messages :: "string \<Rightarrow> messages" where
  "loaded_messages root =
     (let p = paths root in
     bind_io (readOptional (p_bootstrap p)) (\<lambda>bootstrap.
     bind_io (readOptional (p_requirements p)) (\<lambda>rawMatrix.
     bind_io (readJson (p_state p)) (\<lambda>state.
     bind_io (try_io (bind_io (effectiveRequirementMatrix root (Some bootstrap) (Some rawMatrix)) (\<lambda>m. ret (m, [])))
       (\<lambda>e. ret (Null, [err_message e]))) (\<lambda>(matrix, failed).
     both (bootstrap_messages bootstrap @ failed) (
     bind_io (matrix_messages root matrix) (\<lambda>ms.
     bind_io (readJson (p_policy p)) (\<lambda>policy.
     bind_io (readJson (p_objective p)) (\<lambda>objective.
     bind_io (lift_io (objective_messages objective)) (\<lambda>os.
     bind_io (readJson (p_supervisor p)) (\<lambda>supervisor.
     bind_io (lift_io (lifecycle_messages root supervisor state objective matrix)) (\<lambda>ls.
     both (ms @ policy_messages policy @ os @ ls) (
     collect [
       routing_messages root,
       each_json (p_attempts p) (attempt_messages root),
       wake_messages root supervisor])))))))))))))"

definition validateDurableState :: "string \<Rightarrow> jv wio" where
  "validateDurableState root =
     (let p = paths root in
     bind_io (missing_messages [p_objective p, p_policy p, p_supervisor p, p_state p]) (\<lambda>missing.
     if missing \<noteq> [] then ret (verdict_of missing)
     else bind_io (loaded_messages root) (\<lambda>errors. ret (verdict_of errors))))"

section \<open>Validation only reads\<close>

lemma reads_messages [reads]:
  "reads_only m \<Longrightarrow> reads_only (both es m)" "reads_only (say c t)" "reads_only m \<Longrightarrow> reads_only (if_dir d m)"
  "reads_only (optionalSha p)"
  unfolding both_def say_def if_dir_def optionalSha_def by (intro reads; assumption)+

lemma reads_each [reads]: "(\<And>x. reads_only (f x)) \<Longrightarrow> reads_only (each_file f xs)"
  by (induction xs) (simp_all add: reads del: ret_apply)

lemma reads_each_json [reads]: "(\<And>x. reads_only (f x)) \<Longrightarrow> reads_only (each_json d f)"
  unfolding each_json_def by (intro reads)

lemma reads_matrix [reads]:
  "reads_only (checked_matrix root m)" "reads_only (matrix_messages root m)"
  unfolding checked_matrix_def matrix_messages_def Let_def by (intro reads)+

lemma reads_effective_of [reads]: "reads_only (effective_of root b m)"
  unfolding effective_of_def by (intro reads)

lemma reads_effective [reads]: "reads_only (effectiveRequirementMatrix root (Some b) (Some m))"
  unfolding effectiveRequirementMatrix_def option.case by (intro reads)

lemma reads_sections [reads]:
  "reads_only (routing_messages root)" "reads_only (attempt_messages root f)" "reads_only (wake_messages root s)"
  "reads_only (missing_messages ps)"
  unfolding routing_messages_def attempt_messages_def wake_messages_def missing_messages_def Let_def collect.simps
  by (intro reads)+

lemma reads_loaded [reads]: "reads_only (loaded_messages root)"
  unfolding loaded_messages_def Let_def collect.simps case_prod_unfold by (intro reads)

text \<open>Validating the durable state changes nothing: no file, no directory, not even the
  identifiers or times drawn.\<close>

theorem validation_only_reads: "snd (validateDurableState root w) = w"
proof -
  have "reads_only (validateDurableState root)" unfolding validateDurableState_def Let_def by (intro reads)
  then show ?thesis by (simp add: reads_only_def)
qed

section \<open>What a valid verdict guarantees\<close>

lemma post_sections [wp]:
  "post (matrix_messages root m) w Q \<longleftrightarrow> Q (fst (matrix_messages root m w)) w"
  "post (effectiveRequirementMatrix root (Some b) (Some m)) w R \<longleftrightarrow> R (fst (effectiveRequirementMatrix root (Some b) (Some m) w)) w"
  "post (routing_messages root) w Q \<longleftrightarrow> Q (fst (routing_messages root w)) w"
  "post (each_json d (attempt_messages root)) w Q \<longleftrightarrow> Q (fst (each_json d (attempt_messages root) w)) w"
  "post (wake_messages root s) w Q \<longleftrightarrow> Q (fst (wake_messages root s w)) w"
  "post (missing_messages ps) w Q \<longleftrightarrow> Q (fst (missing_messages ps w)) w"
  by (rule post_reads; intro reads)+

lemma post_both [wp]: "post (both es m) w Q \<longleftrightarrow> post m w (\<lambda>r w1. (\<forall>e. r = Inl e \<longrightarrow> Q (Inl e) w1) \<and> (\<forall>fs. r = Inr fs \<longrightarrow> Q (Inr (es @ fs)) w1))"
  unfolding both_def by (simp add: wp del: bind_runs)

definition loaded_clean :: "string \<Rightarrow> world \<Rightarrow> bool" where
  "loaded_clean root w \<longleftrightarrow> (\<exists>policy objective supervisor state matrix.
     parse_object (p_policy (paths root)) (bytes_at w (p_policy (paths root))) = Inr policy
     \<and> parse_object (p_objective (paths root)) (bytes_at w (p_objective (paths root))) = Inr objective
     \<and> parse_object (p_supervisor (paths root)) (bytes_at w (p_supervisor (paths root))) = Inr supervisor
     \<and> parse_object (p_state (paths root)) (bytes_at w (p_state (paths root))) = Inr state
     \<and> policy_messages policy = [] \<and> objective_messages objective = Inr []
     \<and> lifecycle_messages root supervisor state objective matrix = Inr []
     \<and> fst (routing_messages root w) = Inr []
     \<and> fst (each_json (p_attempts (paths root)) (attempt_messages root) w) = Inr []
     \<and> fst (wake_messages root supervisor w) = Inr [])"

lemma loaded_clean:
  "post (loaded_messages root) w (\<lambda>r w'. r = Inr [] \<longrightarrow> loaded_clean root w)"
  unfolding loaded_messages_def Let_def collect.simps loaded_clean_def case_prod_unfold
  by (simp add: wp del: bind_runs paths_select; blast)

lemma each_file_nil:
  assumes "\<And>x. reads_only (f x)" and "fst (each_file f xs w) = Inr []" and "x \<in> set xs"
  shows "fst (f x w) = Inr []"
  using assms(2,3)
proof (induction xs)
  case (Cons y ys)
  obtain r where r: "f y w = (r, w)"
    using assms(1) [of y] by (cases "f y w") (auto simp: reads_only_def dest: spec [of _ w])
  obtain s where s: "each_file f ys w = (s, w)"
    using reads_each [of f ys, OF assms(1)] by (cases "each_file f ys w") (auto simp: reads_only_def dest: spec [of _ w])
  from Cons show ?case by (cases r; cases s) (auto simp: bind_io_def r s)
qed simp

lemma each_json_nil:
  assumes "\<And>x. reads_only (f x)" and "fst (each_json d f w) = Inr []" and "x \<in> set (json_names d w)"
  shows "fst (f x w) = Inr []"
  using assms(2) by (intro each_file_nil [OF assms(1) _ assms(3)])
    (auto simp: each_json_def bind_io_def readdirJson_def split: if_splits)

lemma revision_messages_nil:
  "revision_messages i xs = Inr [] \<Longrightarrow> j < length xs \<Longrightarrow> jget ''revision'' (xs ! j) = Num (int (i + j) + 1)"
proof (induction i xs arbitrary: j rule: revision_messages.induct)
  case (2 i x xs)
  then show ?case
    by (cases j) (auto simp: bind_err_eq_Inr jdot_eq_Inr split: if_splits)
qed simp

text \<open>C39: a repository that validates is coherent: one authoritative supervisor for this very
  repository; a task is active exactly when an attempt is; a paused supervisor is paused by an
  active pause; a complete state holds no active task and no unresolved issue; objective revisions
  are numbered from 1 without gaps and the current one is the last; every attempt is in a known
  child state and belongs to a task on disk.\<close>

theorem valid_state_is_coherent:
  assumes "validateDurableState root w = (Inr v, w')" and "jget ''valid'' v = JBool True"
  shows "\<exists>supervisor state objective.
      parse_object (p_supervisor (paths root)) (bytes_at w (p_supervisor (paths root))) = Inr supervisor
    \<and> parse_object (p_state (paths root)) (bytes_at w (p_state (paths root))) = Inr state
    \<and> parse_object (p_objective (paths root)) (bytes_at w (p_objective (paths root))) = Inr objective
    \<and> jget ''authority_status'' supervisor = Str ''AUTHORITATIVE'' \<and> jget ''repository'' supervisor = Str root
    \<and> (nullish (jget ''active_task_id'' state) \<longleftrightarrow> nullish (jget ''active_attempt_id'' state))
    \<and> (jget ''supervisor_state'' state = Str ''PAUSED'' \<longrightarrow> jpath [''pause'', ''active''] state = JBool True)
    \<and> (jget ''phase'' state = Str ''COMPLETE'' \<longrightarrow>
         \<not> truthy (jget ''active_task_id'' state) \<and> \<not> truthy (jget ''latest_unresolved_issue'' state))
    \<and> (\<forall>j < length (elems (jget ''history'' objective)).
         jget ''revision'' (elems (jget ''history'' objective) ! j) = Num (int j + 1))
    \<and> jget ''current_revision'' objective = Num (int (length (elems (jget ''history'' objective))))
    \<and> (\<forall>f \<in> set (json_names (p_attempts (paths root)) w). \<exists>attempt.
         parse_object (p_attempts (paths root) @ ''/'' @ f) (bytes_at w (p_attempts (paths root) @ ''/'' @ f)) = Inr attempt
         \<and> in_strs VALID_CHILD_STATES (jget ''child_state'' attempt)
         \<and> bytes_at w (json_in (p_tasks (paths root)) (js_string (jget ''task_id'' attempt))) \<noteq> None)"
proof -
  have "post (validateDurableState root) w (\<lambda>r w'. r = Inr v \<longrightarrow> loaded_clean root w)"
    unfolding validateDurableState_def Let_def
    using loaded_clean [of root w] assms(2)
    by (auto simp: wp post_reads [OF reads_loaded] verdict_of_def simp del: bind_runs)
  from postD [OF this assms(1)] obtain policy objective supervisor state matrix where
      disk: "parse_object (p_objective (paths root)) (bytes_at w (p_objective (paths root))) = Inr objective"
        "parse_object (p_supervisor (paths root)) (bytes_at w (p_supervisor (paths root))) = Inr supervisor"
        "parse_object (p_state (paths root)) (bytes_at w (p_state (paths root))) = Inr state"
      and obj: "objective_messages objective = Inr []"
      and life: "lifecycle_messages root supervisor state objective matrix = Inr []"
      and att: "fst (each_json (p_attempts (paths root)) (attempt_messages root) w) = Inr []"
    by (auto simp: loaded_clean_def)
  have revisions: "\<forall>j < length (elems (jget ''history'' objective)).
         jget ''revision'' (elems (jget ''history'' objective) ! j) = Num (int j + 1)"
      "jget ''current_revision'' objective = Num (int (length (elems (jget ''history'' objective))))"
  proof -
    let ?h = "elems (jget ''history'' objective)"
    have "revision_messages 0 ?h = Inr []"
      using obj by (auto simp: objective_messages_def Let_def bind_err_eq_Inr split: if_splits)
    then show numbered: "\<forall>j < length ?h. jget ''revision'' (?h ! j) = Num (int j + 1)"
      using revision_messages_nil [of 0 ?h] by simp
    show "jget ''current_revision'' objective = Num (int (length ?h))"
    proof (cases "?h = []")
      case False
      then have "jget ''revision'' (last ?h) = Num (int (length ?h))"
        using numbered by (simp add: last_conv_nth of_nat_diff Suc_leI)
      with obj False show ?thesis
        by (auto simp: objective_messages_def Let_def bind_err_eq_Inr split: if_splits)
    qed (use obj in \<open>auto simp: objective_messages_def split: if_splits\<close>)
  qed
  have attempts: "\<exists>attempt. parse_object (p_attempts (paths root) @ ''/'' @ f) (bytes_at w (p_attempts (paths root) @ ''/'' @ f)) = Inr attempt
         \<and> in_strs VALID_CHILD_STATES (jget ''child_state'' attempt)
         \<and> bytes_at w (json_in (p_tasks (paths root)) (js_string (jget ''task_id'' attempt))) \<noteq> None"
    if "f \<in> set (json_names (p_attempts (paths root)) w)" for f
    using each_json_nil [OF reads_sections(2) att that]
    by (auto simp: attempt_messages_def Let_def bind_io_def split: sum.splits if_splits)
  have "jget ''authority_status'' supervisor = Str ''AUTHORITATIVE'' \<and> jget ''repository'' supervisor = Str root
    \<and> (nullish (jget ''active_task_id'' state) \<longleftrightarrow> nullish (jget ''active_attempt_id'' state))
    \<and> (jget ''supervisor_state'' state = Str ''PAUSED'' \<longrightarrow> jpath [''pause'', ''active''] state = JBool True)
    \<and> (jget ''phase'' state = Str ''COMPLETE'' \<longrightarrow>
         \<not> truthy (jget ''active_task_id'' state) \<and> \<not> truthy (jget ''latest_unresolved_issue'' state))"
    using life by (auto simp: lifecycle_messages_def Let_def bind_err_eq_Inr split: if_splits)
  with disk revisions attempts show ?thesis by blast
qed

end
