(* ===== verification/Initial.thy ===== *)
theory Initial imports Validate begin

text \<open>
  Initialization meets validation: a repository that \<open>initialize\<close> has set up validates.
\<close>

section \<open>What is in a directory\<close>

lemma starts_with_split: "starts_with p s \<Longrightarrow> s = p @ drop (length p) s"
  by (metis append_take_drop_id starts_with_def)

lemma json_name_file:
  assumes "n \<in> set (json_names d w)"
  shows "bytes_at w (d @ ''/'' @ n) \<noteq> None"
proof -
  from assms obtain p b where pb: "(p, b) \<in> set (files w)" "starts_with (d @ ''/'') p" "n = drop (length d + 1) p"
    by (auto simp: json_names_def)
  from starts_with_split [OF pb(2)] pb(3) have "p = d @ ''/'' @ n" by simp
  with pb(1) have "d @ ''/'' @ n \<in> fst ` set (files w)" by force
  then show ?thesis by (simp add: bytes_at_def map_of_eq_None_iff)
qed

lemma no_json_names: "(\<And>n. bytes_at w (d @ ''/'' @ n) = None) \<Longrightarrow> json_names d w = []"
  using json_name_file [of _ d w] by (metis all_not_in_conv set_empty2)

section \<open>Effects of the parts of initialize\<close>

definition with_dirs :: "string list \<Rightarrow> world \<Rightarrow> world" where
  "with_dirs ds w = w\<lparr>dirs := foldl (\<lambda>acc d. List.insert d acc) (dirs w) ds\<rparr>"

lemma mkdirs_post [wp]: "post (mkdirs ds) w Q \<longleftrightarrow> Q (Inr ()) (with_dirs ds w)"
  by (induction ds arbitrary: w) (simp_all add: wp with_dirs_def del: bind_runs)

lemma with_dirs_simps [simp]:
  "bytes_at (with_dirs ds w) = bytes_at w" "set (dirs (with_dirs ds w)) = set ds \<union> set (dirs w)"
proof -
  show "bytes_at (with_dirs ds w) = bytes_at w" by (simp add: with_dirs_def)
  have "set (foldl (\<lambda>acc d. List.insert d acc) xs ds) = set ds \<union> set xs" for xs
    by (induction ds arbitrary: xs) auto
  then show "set (dirs (with_dirs ds w)) = set ds \<union> set (dirs w)" by (simp add: with_dirs_def)
qed

lemma ensure_frame:
  "post (ensureDurableCompatibility no_hook mp root) w (\<lambda>r w'. (\<forall>p. p \<noteq> compatibilityPath root \<longrightarrow> bytes_at w' p = bytes_at w p)
     \<and> set (dirs w) \<subseteq> set (dirs w'))"
  unfolding ensureDurableCompatibility_def write_header_def migrateToCurrent_def no_hook_def
  by (simp add: wp del: bind_runs; auto)

lemma ensure_run [simp]:
  "p \<noteq> compatibilityPath root \<Longrightarrow> bytes_at (snd (ensureDurableCompatibility no_hook mp root w)) p = bytes_at w p"
  "d \<in> set (dirs w) \<Longrightarrow> d \<in> set (dirs (snd (ensureDurableCompatibility no_hook mp root w)))"
  using ensure_frame [of mp root w] by (auto simp: post_def)

lemma post_ensure [wp]: "post (ensureDurableCompatibility no_hook mp root) w Q
    \<longleftrightarrow> Q (fst (ensureDurableCompatibility no_hook mp root w)) (snd (ensureDurableCompatibility no_hook mp root w))"
  by (simp add: post_def)

section \<open>The world after initialize\<close>

definition durable_names :: "string list" where
  "durable_names = [''/.opsle/bootstrap.json'', ''/.opsle/supervisor.json'', ''/.opsle/policy.json'', ''/.opsle/objective.json'',
     ''/.opsle/state.json'', ''/.opsle/evidence/repository-audit.json'', ''/.opsle/compatibility.json'', ''/.opsle/events.jsonl'']"

definition initialized :: "surroundings \<Rightarrow> string \<Rightarrow> string \<Rightarrow> string option \<Rightarrow> world \<Rightarrow> world \<Rightarrow> bool" where
  "initialized env root actor text w w' \<longleftrightarrow> (\<exists>t0 t1 t2 t3 sid oid t ev.
     bytes_at w' (root @ ''/.opsle/bootstrap.json'') = Some (canonicalJson (bootstrap_record False t0 actor))
     \<and> bytes_at w' (root @ ''/.opsle/supervisor.json'')
         = Some (canonicalJson (jset ''last_durable_event'' (Str ev) (supervisor_record env root sid t1)))
     \<and> bytes_at w' (root @ ''/.opsle/policy.json'') = Some (canonicalJson (policy_record t2 actor))
     \<and> bytes_at w' (root @ ''/.opsle/objective.json'')
         = Some (canonicalJson (objective_record oid (map_option (\<lambda>s. (s, t)) (initial_objective text)) actor))
     \<and> bytes_at w' (root @ ''/.opsle/state.json'') = Some (canonicalJson (state_record (initial_objective text \<noteq> None) t3))
     \<and> root @ ''/.opsle/children'' \<in> set (dirs w')
     \<and> (\<forall>s. s \<notin> set durable_names \<longrightarrow> \<not> starts_with ''/.opsle/events/'' s \<longrightarrow> bytes_at w' (root @ s) = bytes_at w (root @ s)))"

lemma event_id_of_emit:
  "fst (emit root ty (Obj [(''actor'', a), (''repository'', b)]) w) = Inr e \<Longrightarrow> \<exists>ev. jget ''event_id'' e = Str ev"
  by (auto simp: emit_def bind_readOptional event_record_def Let_def split: if_splits sum.splits)

lemma commit_post:
  "post (commit_initial mp root actor bootstrap supervisor policy objective state audit) w (\<lambda>r w'. \<not> isl r \<longrightarrow> (\<exists>ev.
     bytes_at w' (root @ ''/.opsle/bootstrap.json'') = Some (canonicalJson bootstrap)
     \<and> bytes_at w' (root @ ''/.opsle/supervisor.json'') = Some (canonicalJson (jset ''last_durable_event'' (Str ev) supervisor))
     \<and> bytes_at w' (root @ ''/.opsle/policy.json'') = Some (canonicalJson policy)
     \<and> bytes_at w' (root @ ''/.opsle/objective.json'') = Some (canonicalJson objective)
     \<and> bytes_at w' (root @ ''/.opsle/state.json'') = Some (canonicalJson state)
     \<and> set (dirs w) \<subseteq> set (dirs w')
     \<and> (\<forall>s. s \<notin> set durable_names \<longrightarrow> \<not> starts_with ''/.opsle/events/'' s \<longrightarrow> bytes_at w' (root @ s) = bytes_at w (root @ s))))"
  unfolding commit_initial_def Let_def
  by (simp add: wp compatibilityPath_def durable_names_def starts_with_def del: bind_runs canonicalJson_durable;
      intro allI impI; elim exE; drule event_id_of_emit; elim exE; intro conjI exI; (simp; fail)?; auto)

lemma initialize_post:
  assumes "bytes_at w (root @ ''/.opsle/requirements.json'') = None"
  shows "post (initialize env mp root actor text) w (\<lambda>r w'. \<not> isl r \<longrightarrow> initialized env root actor text w w')"
proof -
  have commit: "post (commit_initial mp root actor (bootstrap_record False t0 actor) (supervisor_record env root sid t1)
      (policy_record t2 actor) (objective_record oid rev actor) (state_record b t3) audit) w1
      (\<lambda>r w'. \<not> isl r \<longrightarrow> initialized env root actor text w w')"
    if "bytes_at w1 = bytes_at w" "root @ ''/.opsle/children'' \<in> set (dirs w1)"
      "\<exists>t. rev = map_option (\<lambda>s. (s, t)) (initial_objective text)" "b = (initial_objective text \<noteq> None)"
    for w1 t0 t1 t2 t3 rev b sid oid audit
    by (rule post_weaken [OF commit_post]) (use that in \<open>auto simp: initialized_def durable_names_def; blast\<close>)
  show ?thesis
    unfolding initialize_def Let_def
    by (cases "initial_objective text";
        simp only: wp option.case if_True if_False not_False_eq_True;
        simp add: assms del: bind_runs;
        intro conjI impI allI; rule commit; (rule ext)?; simp add: opsle_dirs_def Let_def)
qed

section \<open>It validates\<close>

lemma trim_idem: "trim (trim s) = trim s"
proof -
  define u where "u = dropWhile is_space s"
  define v where "v = rev (dropWhile is_space (rev u))"
  have pre: "\<exists>z. u = v @ z" unfolding v_def by (metis rev_append rev_rev_ident takeWhile_dropWhile_id)
  have "dropWhile is_space v = v"
  proof (cases v)
    case (Cons c cs)
    with pre obtain z where "u = c # cs @ z" by auto
    then have "\<not> is_space c" unfolding u_def by (metis dropWhile_eq_Cons_conv)
    with Cons show ?thesis by simp
  qed simp
  then show ?thesis by (simp add: trim_def v_def u_def)
qed

lemma initial_not_blank: "initial_objective text = Some s \<Longrightarrow> trim s \<noteq> []"
  by (auto simp: initial_objective_def trim_idem split: option.splits if_splits)

lemma jwf_revision: "jwf (revision_record text t a)"
  by (simp add: revision_record_def)

lemma records_jwf:
  "jwf (bootstrap_record b t a)" "jwf (git_remote env) \<Longrightarrow> jwf (supervisor_record env root sid t)"
  "jwf (policy_record t a)" "jwf (objective_record oid rv a)" "jwf (state_record h t)"
  by (simp_all add: bootstrap_record_def supervisor_record_def policy_record_def state_record_def)
    (cases rv; auto simp: objective_record_def jwf_revision)

lemma records_obj [simp]:
  "is_obj (bootstrap_record b t a)" "is_obj (supervisor_record env root sid t)"
  "is_obj (policy_record t a)" "is_obj (objective_record oid rv a)" "is_obj (state_record h t)"
  by (simp_all add: bootstrap_record_def supervisor_record_def policy_record_def objective_record_def state_record_def)

lemma policy_clean: "policy_messages (durable (policy_record t a)) = []"
  using records_jwf(3) [of t a]
  by (simp add: policy_messages_def provider_bad_def null_or_str_def read_back jwf_jget)
    (simp add: policy_record_def REVIEW_MODES_def)

lemma stored_revision:
  "jget ''revision'' (stored (revision_record text t a)) = Num 1"
  "jget ''objective'' (stored (revision_record text t a)) = Str text"
  "nullish (stored (revision_record text t a)) = False" "truthy (stored (revision_record text t a))"
proof -
  have "jwf (revision_record text t a)" "revision_record text t a \<noteq> Undef" by (simp_all add: revision_record_def)
  then show "jget ''revision'' (stored (revision_record text t a)) = Num 1"
      "jget ''objective'' (stored (revision_record text t a)) = Str text"
      "nullish (stored (revision_record text t a)) = False" "truthy (stored (revision_record text t a))"
    by (simp_all add: stored_def jget_read_back kinds_read_back) (simp_all add: revision_record_def)
qed

lemma objective_fields:
  "jget ''history'' (durable (objective_record oid rv a))
     = Arr (case rv of None \<Rightarrow> [] | Some (text, t) \<Rightarrow> [stored (revision_record text t a)])"
  "jget ''current_revision'' (durable (objective_record oid rv a)) = Num (if rv = None then 0 else 1)"
  "jget ''schema'' (durable (objective_record oid rv a)) = Str (opsle_schema @ ''.objective/v2'')"
  using records_jwf(4) [of oid rv a]
  by (simp_all add: jget_read_back) (simp_all add: objective_record_def durable_Arr stored_def [symmetric] split: option.splits)

lemma objective_reads:
  assumes "\<And>text t. rv = Some (text, t) \<Longrightarrow> trim text \<noteq> []"
  shows "objective_messages (durable (objective_record oid rv a)) = Inr []"
    and "\<exists>c. currentObjective (durable (objective_record oid rv a)) = Inr c \<and> (truthy c \<longleftrightarrow> rv \<noteq> None)"
proof -
  have o1: "truthy (durable (objective_record oid rv a))" by (rule is_obj_truthy) simp
  show "objective_messages (durable (objective_record oid rv a)) = Inr []"
    using assms by (cases rv) (auto simp: objective_messages_def objective_fields stored_revision jdot_def blank_def)
  show "\<exists>c. currentObjective (durable (objective_record oid rv a)) = Inr c \<and> (truthy c \<longleftrightarrow> rv \<noteq> None)"
    using o1 by (cases rv) (auto simp: currentObjective_def array_of_def objective_fields stored_revision jdot_def)
qed

lemma state_fields:
  "jget ''phase'' (durable (state_record h t)) = Str (if h then ''ACTIVE'' else ''INITIALIZED'')"
  "jget ''supervisor_state'' (durable (state_record h t)) = Str ''ACTIVE''"
  "jpath [''pause'', ''active''] (durable (state_record h t)) = JBool False"
  "jpath [''pause'', ''after_current''] (durable (state_record h t)) = JBool False"
  "jget ''active_task_id'' (durable (state_record h t)) = Null"
  "jget ''active_attempt_id'' (durable (state_record h t)) = Null"
  using records_jwf(5) [of h t] by (simp_all add: read_back jwf_jget) (simp_all add: state_record_def)

lemma supervisor_fields:
  assumes "jwf (git_remote env)"
  shows "jget ''repository'' (durable (jset ''last_durable_event'' (Str ev) (supervisor_record env root sid t))) = Str root"
    and "jget ''authority_status'' (durable (jset ''last_durable_event'' (Str ev) (supervisor_record env root sid t))) = Str ''AUTHORITATIVE''"
proof -
  let ?v = "jset ''last_durable_event'' (Str ev) (supervisor_record env root sid t)"
  have j: "jwf ?v" by (rule jwf_jset [OF _ records_jwf(2) [OF assms]]) simp
  have "jget ''repository'' (supervisor_record env root sid t) = Str root"
      "jget ''authority_status'' (supervisor_record env root sid t) = Str ''AUTHORITATIVE''"
    by (simp_all add: supervisor_record_def)
  then show "jget ''repository'' (durable ?v) = Str root" "jget ''authority_status'' (durable ?v) = Str ''AUTHORITATIVE''"
    by (simp_all only: jget_read_back [OF j]) simp_all
qed

lemma lifecycle_neutral:
  assumes "jget ''repository'' sv = Str root" "jget ''authority_status'' sv = Str ''AUTHORITATIVE''"
    and "jget ''phase'' st = Str (if h then ''ACTIVE'' else ''INITIALIZED'')" "jget ''supervisor_state'' st = Str ''ACTIVE''"
      "jpath [''pause'', ''active''] st = JBool False" "jpath [''pause'', ''after_current''] st = JBool False"
      "jget ''active_task_id'' st = Null" "jget ''active_attempt_id'' st = Null"
    and "currentObjective ob = Inr c" "truthy c \<longleftrightarrow> h"
  shows "lifecycle_messages root sv st ob m = Inr []"
  unfolding lifecycle_messages_def Let_def
  by (cases h; simp add: assms VALID_SUPERVISOR_STATES_def del: jpath.simps)

lemma lifecycle_clean:
  assumes "jwf (git_remote env)" and "\<And>text t. rv = Some (text, t) \<Longrightarrow> trim text \<noteq> []"
  shows "lifecycle_messages root (durable (jset ''last_durable_event'' (Str ev) (supervisor_record env root sid t1)))
    (durable (state_record (rv \<noteq> None) t)) (durable (objective_record oid rv a)) Null = Inr []"
proof -
  have "\<exists>c. currentObjective (durable (objective_record oid rv a)) = Inr c \<and> (truthy c \<longleftrightarrow> rv \<noteq> None)"
    by (rule objective_reads(2)) (rule assms(2))
  then obtain c where "currentObjective (durable (objective_record oid rv a)) = Inr c" "truthy c \<longleftrightarrow> rv \<noteq> None"
    by blast
  then show ?thesis
    by (rule lifecycle_neutral [where h = "rv \<noteq> None", OF supervisor_fields(1) [OF assms(1)] supervisor_fields(2) [OF assms(1)]
      state_fields(1) state_fields(2) state_fields(3) state_fields(4) state_fields(5) state_fields(6)])
qed

lemma bootstrap_fields:
  "jget ''schema'' (durable (bootstrap_record False t a)) = Str BOOTSTRAP_SCHEMA"
  "jpath [''requirements'', ''mode''] (durable (bootstrap_record False t a)) = Str ''none''"
  "truthy (durable (bootstrap_record False t a))"
proof -
  have "jget ''schema'' (bootstrap_record False t a) = Str BOOTSTRAP_SCHEMA"
      "jpath [''requirements'', ''mode''] (bootstrap_record False t a) = Str ''none''"
    by (simp_all add: bootstrap_record_def)
  then show "jget ''schema'' (durable (bootstrap_record False t a)) = Str BOOTSTRAP_SCHEMA"
      "jpath [''requirements'', ''mode''] (durable (bootstrap_record False t a)) = Str ''none''"
    by (simp_all only: jget_read_back [OF records_jwf(1)] jpath_read_back [OF records_jwf(1)]) simp_all
  show "truthy (durable (bootstrap_record False t a))" by (rule is_obj_truthy) simp
qed

definition no_durable_files :: "string \<Rightarrow> world \<Rightarrow> bool" where
  "no_durable_files root w \<longleftrightarrow> list_all (\<lambda>pb. \<not> starts_with (root @ ''/.opsle/'') (fst pb)) (files w)"

lemma no_durable_files: "no_durable_files root w \<Longrightarrow> bytes_at w (root @ ''/.opsle/'' @ s) = None"
proof -
  assume n: "no_durable_files root w"
  have "root @ ''/.opsle/'' @ s \<noteq> fst pb" if "pb \<in> set (files w)" for pb
  proof
    assume "root @ ''/.opsle/'' @ s = fst pb"
    then have "fst pb = (root @ ''/.opsle/'') @ s" by simp
    then have "starts_with (root @ ''/.opsle/'') (fst pb)" by (simp only: starts_with_append)
    with n that show False by (simp add: no_durable_files_def list_all_iff)
  qed
  then show ?thesis by (auto simp: bytes_at_def map_of_eq_None_iff)
qed

lemma each_json_empty: "json_names d w = [] \<Longrightarrow> dir_exists w d \<Longrightarrow> each_json d f w = (Inr [], w)"
  by (simp add: each_json_def bind_io_def readdirJson_def)

lemma if_dir_empty: "json_names d w = [] \<Longrightarrow> if_dir d (each_json d f) w = (Inr [], w)"
  by (cases "dir_exists w d") (simp_all add: if_dir_def each_json_empty)

lemma initialized_is_valid:
  assumes run: "initialize env mp root actor text w = (Inr out, w')" and fresh: "no_durable_files root w"
    and git: "jwf (git_remote env)"
  shows "\<exists>v. validateDurableState root w' = (Inr v, w') \<and> jget ''valid'' v = JBool True"
proof -
  have "bytes_at w (root @ ''/.opsle/requirements.json'') = None" using no_durable_files [OF fresh, of "''requirements.json''"] by simp
  from postD [OF initialize_post [OF this] run] have "initialized env root actor text w w'" by simp
  then obtain t0 t1 t2 t3 sid oid t ev where
      files: "bytes_at w' (root @ ''/.opsle/bootstrap.json'') = Some (canonicalJson (bootstrap_record False t0 actor))"
        "bytes_at w' (root @ ''/.opsle/supervisor.json'')
           = Some (canonicalJson (jset ''last_durable_event'' (Str ev) (supervisor_record env root sid t1)))"
        "bytes_at w' (root @ ''/.opsle/policy.json'') = Some (canonicalJson (policy_record t2 actor))"
        "bytes_at w' (root @ ''/.opsle/objective.json'')
           = Some (canonicalJson (objective_record oid (map_option (\<lambda>s. (s, t)) (initial_objective text)) actor))"
        "bytes_at w' (root @ ''/.opsle/state.json'') = Some (canonicalJson (state_record (initial_objective text \<noteq> None) t3))"
      and dirs: "root @ ''/.opsle/children'' \<in> set (dirs w')"
      and same: "\<And>s. s \<notin> set durable_names \<Longrightarrow> \<not> starts_with ''/.opsle/events/'' s \<Longrightarrow> bytes_at w' (root @ s) = bytes_at w (root @ s)"
    unfolding initialized_def by blast
  let ?rv = "map_option (\<lambda>s. (s, t)) (initial_objective text)"
  have rv: "trim s \<noteq> []" if "?rv = Some (s, u)" for s u using that initial_not_blank by auto
  have none: "bytes_at w' (root @ ''/.opsle/'' @ s) = None"
    if "''/.opsle/'' @ s \<notin> set durable_names" "\<not> starts_with ''events/'' s" for s
    using same [OF that(1)] that(2) no_durable_files [OF fresh, of s] by (simp add: starts_with_def)
  have absent: "bytes_at w' (root @ ''/.opsle/requirements.json'') = None" "bytes_at w' (root @ ''/.opsle/specification.md'') = None"
      "bytes_at w' (root @ ''/.opsle/wake/codex-session-binding.json'') = None"
      "bytes_at w' (root @ ''/.opsle/wake/activation-lease.json'') = None"
    using none [of "''requirements.json''"] none [of "''specification.md''"] none [of "''wake/codex-session-binding.json''"]
      none [of "''wake/activation-lease.json''"] by (simp_all add: durable_names_def starts_with_def)
  have names: "json_names (root @ ''/.opsle/children'') w' = []" "json_names (root @ ''/.opsle/supervisor-routing'') w' = []"
      "json_names (root @ ''/.opsle/wake/consumptions'') w' = []" "json_names (root @ ''/.opsle/wake/activation-decisions'') w' = []"
    by (rule no_json_names; use none [of "''children/'' @ n" for n] none [of "''supervisor-routing/'' @ n" for n]
        none [of "''wake/consumptions/'' @ n" for n] none [of "''wake/activation-decisions/'' @ n" for n] in
        \<open>simp add: durable_names_def starts_with_def\<close>)+
  have there: "dir_exists w' (root @ ''/.opsle/children'')" using dirs by (simp add: dir_exists_def)
  let ?sv = "jset ''last_durable_event'' (Str ev) (supervisor_record env root sid t1)"
  have jw: "jwf ?sv" by (rule jwf_jset [OF _ records_jwf(2) [OF git]]) simp
  have parse: "parse_object q (Some (canonicalJson (bootstrap_record False t0 actor))) = Inr (durable (bootstrap_record False t0 actor))"
      "parse_object q (Some (canonicalJson ?sv)) = Inr (durable ?sv)"
      "parse_object q (Some (canonicalJson (policy_record t2 actor))) = Inr (durable (policy_record t2 actor))"
      "parse_object q (Some (canonicalJson (objective_record oid ?rv actor))) = Inr (durable (objective_record oid ?rv actor))"
      "parse_object q (Some (canonicalJson (state_record (initial_objective text \<noteq> None) t3)))
         = Inr (durable (state_record (initial_objective text \<noteq> None) t3))" for q
    using jw by (intro parse_object_canonicalJson records_jwf records_obj; simp)+
  have life: "lifecycle_messages root (durable ?sv) (durable (state_record (initial_objective text \<noteq> None) t3))
      (durable (objective_record oid ?rv actor)) Null = Inr []"
  proof -
    have "lifecycle_messages root (durable ?sv) (durable (state_record (?rv \<noteq> None) t3))
        (durable (objective_record oid ?rv actor)) Null = Inr []"
      by (rule lifecycle_clean [OF git]) (rule rv)
    then show ?thesis by simp
  qed
  have obj: "objective_messages (durable (objective_record oid ?rv actor)) = Inr []"
    by (rule objective_reads(1)) (rule rv)
  have missing: "missing_messages [p_objective (paths root), p_policy (paths root), p_supervisor (paths root), p_state (paths root)] w'
      = (Inr [], w')"
    using files by (simp add: missing_messages_def say_def bind_io_def)
  have wake: "wake_messages root (durable ?sv) w' = (Inr [], w')"
    using absent names by (simp add: wake_messages_def Let_def bind_io_def if_dir_empty)
  have route: "routing_messages root w' = (Inr [], w')"
    using names by (simp add: routing_messages_def Let_def if_dir_empty)
  have att: "each_json (p_attempts (paths root)) (attempt_messages root) w' = (Inr [], w')"
    using names there by (simp add: each_json_empty)
  have mtx: "matrix_messages root Null w' = (Inr [], w')" by (simp add: matrix_messages_def)
  have boot: "effectiveRequirementMatrix root (Some (durable (bootstrap_record False t0 actor))) (Some m) w' = (Inr Null, w')" for m
    using bootstrap_fields [of t0 actor]
    by (simp add: effectiveRequirementMatrix_def effective_of_def del: jpath.simps)
  have bm: "bootstrap_messages (durable (bootstrap_record False t0 actor)) = []"
    using bootstrap_fields [of t0 actor] by (simp add: bootstrap_messages_def del: jpath.simps)
  have "loaded_messages root w' = (Inr [], w')"
    using files absent parse life obj wake route att mtx boot bm policy_clean [of t2 actor]
    unfolding loaded_messages_def Let_def
    by (simp add: bind_io_def readOptional_run try_io_def both_def del: canonicalJson_durable)
  with missing show ?thesis
    by (simp add: validateDurableState_def Let_def bind_io_def verdict_of_def del: paths_select)
qed

section \<open>It succeeds\<close>

lemma outside_opsle: "\<not> starts_with (root @ ''/.opsle/'') mp \<Longrightarrow> mp \<noteq> root @ ''/.opsle/'' @ s"
  using starts_with_append [of "root @ ''/.opsle/''" s] by (metis append.assoc)

lemma commit_succeeds:
  assumes "manifest_on_disk mp w = Inr m" "hex64 (jget ''fingerprint_sha256'' m)" "\<not> starts_with (root @ ''/.opsle/'') mp"
    and "bytes_at w (root @ ''/.opsle/compatibility.json'') = None"
    and "jwf sv" "is_obj sv" "jwf pol" "is_obj pol" "jwf ob" "is_obj ob" "jwf st" "is_obj st"
  shows "post (commit_initial mp root actor boot sv pol ob st audit) w (\<lambda>r w'. \<not> isl r)"
proof -
  define w2 where "w2 = put_file (root @ ''/.opsle/evidence/repository-audit.json'') (canonicalJson audit)
    (put_file (root @ ''/.opsle/state.json'') (canonicalJson st) (put_file (root @ ''/.opsle/objective.json'') (canonicalJson ob)
    (put_file (root @ ''/.opsle/policy.json'') (canonicalJson pol) (put_file (root @ ''/.opsle/supervisor.json'') (canonicalJson sv)
    (put_file (root @ ''/.opsle/bootstrap.json'') (canonicalJson boot) w)))))"
  note out = outside_opsle [OF assms(3)]
  have "bytes_at w2 mp = bytes_at w mp" "digest w2 = digest w"
    using out [of "''evidence/repository-audit.json''"] out [of "''state.json''"] out [of "''objective.json''"]
      out [of "''policy.json''"] out [of "''supervisor.json''"] out [of "''bootstrap.json''"] by (simp_all add: w2_def)
  then have "manifest_on_disk mp w2 = Inr m" using assms(1) manifest_frame by metis
  moreover have "migratable mp root w2"
    using assms(4-) by (simp add: migratable_def core_valid_def compatibilityPath_def w2_def del: canonicalJson_durable)
  ultimately obtain h w3 where e: "ensureDurableCompatibility no_hook mp root w2 = (Inr h, w3)"
    using ensure_succeeds [of mp root m w2] assms(2) by (auto simp: ready_def)
  have "bytes_at (snd (ensureDurableCompatibility no_hook mp root w2)) (root @ ''/.opsle/supervisor.json'')
      = bytes_at w2 (root @ ''/.opsle/supervisor.json'')"
    by (rule ensure_run(1)) (simp add: compatibilityPath_def)
  moreover have "bytes_at w2 (root @ ''/.opsle/supervisor.json'') = Some (canonicalJson sv)" by (simp add: w2_def)
  ultimately have "bytes_at w3 (p_supervisor (paths root)) = Some (canonicalJson sv)" by (simp add: e)
  then obtain ev w4 where "emit root ''SUPERVISOR_INITIALIZED'' (Obj [(''actor'', Str actor), (''repository'', Str root)]) w3 = (Inr ev, w4)"
    using emit_ok [of w3 root "''SUPERVISOR_INITIALIZED''" "Obj [(''actor'', Str actor), (''repository'', Str root)]"] assms(5,6)
    by auto
  then show ?thesis
    using e unfolding commit_initial_def Let_def w2_def by (simp add: wp del: bind_runs)
qed

lemma initialize_succeeds:
  assumes fresh: "no_durable_files root w" and git: "jwf (git_remote env)"
    and m: "manifest_on_disk mp w = Inr m" "hex64 (jget ''fingerprint_sha256'' m)" "\<not> starts_with (root @ ''/.opsle/'') mp"
  shows "post (initialize env mp root actor text) w (\<lambda>r w'. \<not> isl r)"
proof -
  have absent: "bytes_at w (root @ ''/.opsle/requirements.json'') = None" "bytes_at w (root @ ''/.opsle/specification.md'') = None"
      "bytes_at w (root @ ''/.opsle/supervisor.json'') = None" "bytes_at w (root @ ''/.opsle/compatibility.json'') = None"
    using no_durable_files [OF fresh, of "''requirements.json''"] no_durable_files [OF fresh, of "''specification.md''"]
      no_durable_files [OF fresh, of "''supervisor.json''"] no_durable_files [OF fresh, of "''compatibility.json''"] by simp_all
  have commit: "post (commit_initial mp root actor b (supervisor_record env root sid t1)
      (policy_record t2 actor) (objective_record oid rv actor) (state_record hob t3) audit) w1 (\<lambda>r w'. \<not> isl r)"
    if "bytes_at w1 = bytes_at w" "digest w1 = digest w" for w1 b t1 t2 t3 rv hob sid oid audit
    using that m absent manifest_frame [of w1 mp w]
    by (intro commit_succeeds records_jwf records_obj git) simp_all
  have d: "digest (with_dirs ds w1) = digest w1" for ds w1 by (simp add: with_dirs_def)
  show ?thesis
    unfolding initialize_def Let_def
    by (cases "initial_objective text";
        simp only: wp option.case if_True if_False not_False_eq_True;
        simp add: absent del: bind_runs;
        intro conjI impI allI; rule commit; (rule ext)?; simp add: d opsle_dirs_def Let_def)
qed

text \<open>C40: initializing a repository without durable state succeeds, with or without an initial
  objective, and the state it leaves validates.\<close>

theorem initialize_succeeds_and_validates:
  assumes "no_durable_files root w" and "jwf (git_remote env)"
    and "manifest_on_disk mp w = Inr m" "hex64 (jget ''fingerprint_sha256'' m)" "\<not> starts_with (root @ ''/.opsle/'') mp"
  shows "\<exists>out w' v. initialize env mp root actor text w = (Inr out, w')
    \<and> validateDurableState root w' = (Inr v, w') \<and> jget ''valid'' v = JBool True"
proof -
  obtain r w' where run: "initialize env mp root actor text w = (r, w')" by (cases "initialize env mp root actor text w")
  have "\<not> isl r" by (rule postD [OF initialize_succeeds [OF assms] run])
  then obtain out where "r = Inr out" by (cases r) auto
  with initialized_is_valid [of env mp root actor "text" w out w'] run assms(1,2) show ?thesis by blast
qed

section \<open>Witnesses\<close>

definition demo_env :: surroundings where
  "demo_env = \<lparr>worktree_clean = JBool True, git_remote = Null, git_head = Null, git_branch = Null, command_identity = (\<lambda>c. Null)\<rparr>"

definition fresh_world :: world where
  "fresh_world = \<lparr>files = [(''/m.json'', canonicalJson demo_manifest)], dirs = [], clock = (\<lambda>n. ''t''), ticks = 0,
     uuids = (\<lambda>n. ''u''), drawn = 0, digest = (\<lambda>s. replicate 64 (CHR ''a''))\<rparr>"

lemma fresh_world_facts:
  "no_durable_files ''/r'' fresh_world" "jwf (git_remote demo_env)" "manifest_on_disk ''/m.json'' fresh_world = Inr demo_manifest"
  "\<not> starts_with (''/r'' @ ''/.opsle/'') ''/m.json''"
proof -
  have "bytes_at fresh_world ''/m.json'' = bytes_at (schema_world []) ''/m.json''" "digest fresh_world = digest (schema_world [])"
    by (simp_all add: fresh_world_def schema_world_def bytes_at_def)
  then show "manifest_on_disk ''/m.json'' fresh_world = Inr demo_manifest"
    using manifest_frame demo_manifest_on_disk by metis
qed (simp_all add: no_durable_files_def fresh_world_def demo_env_def starts_with_def)

theorem initialize_succeeds_and_validates_witness:
  "\<exists>out w' v. initialize demo_env ''/m.json'' ''/r'' ''me'' (Some ''Ship'') fresh_world = (Inr out, w')
    \<and> validateDurableState ''/r'' w' = (Inr v, w') \<and> jget ''valid'' v = JBool True"
  by (rule initialize_succeeds_and_validates [OF fresh_world_facts(1,2,3) demo_manifest_facts(5) fresh_world_facts(4)])

lemma initialized_example:
  "\<exists>w' v. validateDurableState ''/r'' w' = (Inr v, w') \<and> jget ''valid'' v = JBool True"
proof -
  obtain r w' where run: "initialize demo_env ''/m.json'' ''/r'' ''me'' None fresh_world = (r, w')"
    by (cases "initialize demo_env ''/m.json'' ''/r'' ''me'' None fresh_world")
  have "\<not> isl r"
    by (rule postD [OF initialize_succeeds [OF fresh_world_facts(1,2,3) demo_manifest_facts(5) fresh_world_facts(4)] run])
  then obtain out where "r = Inr out" by (cases r) auto
  with initialized_is_valid [of demo_env "''/m.json''" "''/r''" "''me''" None fresh_world out w'] run fresh_world_facts(1,2)
  show ?thesis by blast
qed

theorem valid_state_is_coherent_witness:
  "\<exists>w' v supervisor objective. validateDurableState ''/r'' w' = (Inr v, w') \<and> jget ''valid'' v = JBool True
    \<and> parse_object (p_supervisor (paths ''/r'')) (bytes_at w' (p_supervisor (paths ''/r''))) = Inr supervisor
    \<and> parse_object (p_objective (paths ''/r'')) (bytes_at w' (p_objective (paths ''/r''))) = Inr objective
    \<and> jget ''authority_status'' supervisor = Str ''AUTHORITATIVE''
    \<and> jget ''current_revision'' objective = Num (int (length (elems (jget ''history'' objective))))"
proof -
  obtain w' v where v: "validateDurableState ''/r'' w' = (Inr v, w')" "jget ''valid'' v = JBool True"
    using initialized_example by blast
  with valid_state_is_coherent [OF v] show ?thesis by blast
qed

end
