(* ===== verification/Git.thy ===== *)
theory Git imports Store begin

text \<open>
  What the supervisor reads of its surroundings (src/state.js): the repository root, the git
  directory, its HEAD, packed references and origin, and the executables of PATH.  Permissions and
  child processes are fields of \<open>machine\<close>; files and directories are those of the world.
\<close>

section \<open>Paths\<close>

fun split_on :: "char \<Rightarrow> string \<Rightarrow> string list" where
  "split_on d [] = [[]]"
| "split_on d (c # cs) = (if c = d then [] # split_on d cs
     else case split_on d cs of [] \<Rightarrow> [[c]] | s # ss \<Rightarrow> (c # s) # ss)"

text \<open>The segments of a path, with \<open>.\<close> and \<open>..\<close> resolved; the accumulator is reversed.\<close>

fun resolved_segments :: "string list \<Rightarrow> string list \<Rightarrow> string list" where
  "resolved_segments acc [] = List.rev acc"
| "resolved_segments acc (s # ss) =
     (if s = [] \<or> s = ''.'' then resolved_segments acc ss
      else if s = ''..'' then resolved_segments (tl acc) ss
      else resolved_segments (s # acc) ss)"

text \<open>\<open>resolve(base, target)\<close> for an absolute \<open>base\<close>\<close>

definition resolve_path :: "string \<Rightarrow> string \<Rightarrow> string" where
  "resolve_path base target =
     (let full = (if starts_with ''/'' target then target else base @ ''/'' @ target) in
      CHR ''/'' # join_with ''/'' (resolved_segments [] (split_on (CHR ''/'') full)))"

text \<open>\<open>dirname\<close> of an absolute normal path\<close>

definition dirname :: "string \<Rightarrow> string" where
  "dirname p = (let d = List.rev (drop 1 (dropWhile (\<lambda>c. c \<noteq> CHR ''/'') (List.rev p))) in if d = [] then ''/'' else d)"

definition basename :: "string \<Rightarrow> string" where
  "basename p = List.rev (takeWhile (\<lambda>c. c \<noteq> CHR ''/'') (dropWhile (\<lambda>c. c = CHR ''/'') (List.rev p)))"

definition path_exists :: "world \<Rightarrow> string \<Rightarrow> bool" where
  "path_exists w p \<longleftrightarrow> bytes_at w p \<noteq> None \<or> dir_exists w p"

definition existsPath :: "string \<Rightarrow> bool wio" where
  "existsPath p w = (Inr (path_exists w p), w)"

lemma split_on_nonempty [simp]: "split_on d s \<noteq> []"
  by (induction s) (auto split: list.splits)

lemma join_split_on: "join_with [d] (split_on d s) = s"
proof (induction s)
  case (Cons c s)
  then show ?case by (cases "split_on d s") (auto simp: join_with_Cons)
qed simp

lemma split_on_parts: "t \<in> set (split_on d s) \<Longrightarrow> d \<notin> set t"
proof (induction s arbitrary: t)
  case (Cons c s)
  then show ?case by (cases "split_on d s") (auto split: if_splits)
qed simp

lemma dirname_shorter: "dirname p \<noteq> p \<Longrightarrow> dirname p = ''/'' \<or> length (dirname p) < length p"
proof (cases p rule: rev_cases)
  case (snoc q c)
  have "length (dropWhile (\<lambda>c. c \<noteq> CHR ''/'') (List.rev p)) \<le> length p"
    using length_dropWhile_le [of _ "List.rev p"] by simp
  with snoc show ?thesis by (auto simp: dirname_def Let_def split: if_splits)
qed (simp add: dirname_def)

section \<open>The repository root\<close>

text \<open>The loop of \<open>repositoryRoot\<close>: one step per ancestor.\<close>

function ancestor_with_git :: "world \<Rightarrow> string \<Rightarrow> string option" where
  "ancestor_with_git w candidate =
     (if path_exists w (candidate @ (if candidate = ''/'' then ''.git'' else ''/.git'')) then Some candidate
      else if dirname candidate = candidate then None
      else ancestor_with_git w (dirname candidate))"
  by auto

termination
proof (relation "measure (\<lambda>(w, c). if c = ''/'' then 0 else Suc (length c))")
  fix w candidate
  assume "dirname candidate \<noteq> candidate"
  moreover have "dirname ''/'' = ''/''" by (simp add: dirname_def)
  ultimately show "((w, dirname candidate), w, candidate) \<in> measure (\<lambda>(w, c). if c = ''/'' then 0 else Suc (length c))"
    using dirname_shorter [of candidate] by auto
qed simp

declare ancestor_with_git.simps [simp del]

definition repositoryRoot :: "string \<Rightarrow> string wio" where
  "repositoryRoot cwd w = ((case ancestor_with_git w cwd of
       Some r \<Rightarrow> Inr r | None \<Rightarrow> Inl (Err (''not inside a Git repository: '' @ cwd))), w)"

section \<open>Git metadata\<close>

definition gitDirectory :: "string \<Rightarrow> string wio" where
  "gitDirectory root =
     (let dotGit = root @ ''/.git'' in
     bind_io (existsPath dotGit) (\<lambda>there.
     guard_io (\<not> there) (Err (''missing Git metadata: '' @ root)) (
     bind_io (existsSync dotGit) (\<lambda>isFile.
     if \<not> isFile then ret dotGit
     else
       bind_io (readFile dotGit) (\<lambda>text.
       let pointer = trim text; target = drop (length ''gitdir: '') pointer in
       guard_io (\<not> starts_with ''gitdir: '' pointer) (Err (''invalid Git metadata pointer: '' @ dotGit)) (
       ret (if starts_with ''/'' target then target else resolve_path root target)))))))"

fun packed_line :: "string \<Rightarrow> string list \<Rightarrow> string option" where
  "packed_line ref [] = None"
| "packed_line ref (line # lines) =
     (if line = [] \<or> starts_with ''#'' line \<or> starts_with ''^'' line then packed_line ref lines
      else case split_on (CHR '' '') line of
        revision # name # rest \<Rightarrow> if name = ref then Some revision else packed_line ref lines
      | _ \<Rightarrow> packed_line ref lines)"

definition packedRef :: "string \<Rightarrow> string \<Rightarrow> string option wio" where
  "packedRef gitDir ref =
     (let path = gitDir @ ''/packed-refs'' in
     bind_io (existsSync path) (\<lambda>there.
     if \<not> there then ret None
     else bind_io (readFile path) (\<lambda>text. ret (packed_line ref (split_on (CHR 0x0A) text)))))"

text \<open>\<open>/^\s*\[([^\]]+)\]\s*$/\<close>: the section name.\<close>

definition section_name :: "string \<Rightarrow> string option" where
  "section_name line = (case trim line of
       c # cs \<Rightarrow> (let body = takeWhile (\<lambda>c. c \<noteq> CHR '']'') cs in
         if c = CHR ''['' \<and> body \<noteq> [] \<and> dropWhile (\<lambda>c. c \<noteq> CHR '']'') cs = '']'' then Some body else None)
     | [] \<Rightarrow> None)"

text \<open>\<open>/^\s*url\s*=\s*(.+?)\s*$/\<close>: the group; \<open>.\<close> does not match a carriage return.\<close>

definition url_value :: "string \<Rightarrow> string option" where
  "url_value line =
     (let t = dropWhile is_space line; after = dropWhile is_space (drop 3 t) in
      if \<not> starts_with ''url'' t \<or> \<not> starts_with ''='' after then None
      else let value = drop 1 after in
        if trim value \<noteq> [] then (if CHR 0x0D \<in> set (trim value) then None else Some (trim value))
        else (case filter (\<lambda>c. c \<noteq> CHR 0x0D) value of [] \<Rightarrow> None | cs \<Rightarrow> Some [last cs]))"

fun origin_line :: "bool \<Rightarrow> string list \<Rightarrow> string option" where
  "origin_line inOrigin [] = None"
| "origin_line inOrigin (line # lines) = (case section_name line of
       Some s \<Rightarrow> origin_line (s = ''remote \"origin\"'') lines
     | None \<Rightarrow> (case (if inOrigin then url_value line else None) of
         Some url \<Rightarrow> Some url
       | None \<Rightarrow> origin_line inOrigin lines))"

definition originUrl :: "string \<Rightarrow> string option wio" where
  "originUrl gitDir =
     (let path = gitDir @ ''/config'' in
     bind_io (existsSync path) (\<lambda>there.
     if \<not> there then ret None
     else bind_io (readFile path) (\<lambda>text. ret (origin_line False (split_on (CHR 0x0A) text)))))"

definition js_option :: "string option \<Rightarrow> jv" where
  "js_option s = (case s of None \<Rightarrow> Null | Some t \<Rightarrow> Str t)"

definition git_record :: "jv \<Rightarrow> string \<Rightarrow> string option \<Rightarrow> jv" where
  "git_record head branch remote = Obj [(''head'', head), (''branch'', Str branch), (''remote'', js_option remote)]"

definition gitMetadata :: "string \<Rightarrow> jv wio" where
  "gitMetadata root =
     bind_io (gitDirectory root) (\<lambda>gitDir.
     bind_io (readFile (gitDir @ ''/HEAD'')) (\<lambda>text.
     let headValue = trim text; ref = drop (length ''ref: '') headValue; refPath = gitDir @ ''/'' @ ref in
     if \<not> starts_with ''ref: '' headValue then
       bind_io (originUrl gitDir) (\<lambda>remote. ret (git_record (Str headValue) [] remote))
     else
       bind_io (existsSync refPath) (\<lambda>loose.
       bind_io (if loose then bind_io (readFile refPath) (\<lambda>t. ret (Some (trim t))) else packedRef gitDir ref) (\<lambda>head.
       bind_io (originUrl gitDir) (\<lambda>remote.
       ret (git_record (js_option head)
         (if starts_with ''refs/heads/'' ref then drop (length ''refs/heads/'') ref else []) remote))))))"

section \<open>Executables\<close>

record spawned =
  spawn_failed :: bool
  exit_status :: "int option"
  spawn_out :: string
  spawn_err :: string

record machine =
  path_variable :: string
  current_dir :: string
  can_execute :: "string \<Rightarrow> bool"
  spawn :: "string \<Rightarrow> string list \<Rightarrow> spawned"

definition executable_candidates :: "machine \<Rightarrow> string \<Rightarrow> string list" where
  "executable_candidates m command =
     (if CHR ''/'' \<in> set command then [command]
      else map (\<lambda>directory. directory @ ''/'' @ command)
        (filter (\<lambda>directory. directory \<noteq> []) (split_on (CHR '':'') (path_variable m))))"

definition resolveExecutable :: "machine \<Rightarrow> string \<Rightarrow> string option" where
  "resolveExecutable m command =
     map_option (resolve_path (current_dir m)) (find (can_execute m) (executable_candidates m command))"

definition first_line :: "spawned \<Rightarrow> string" where
  "first_line r = hd (split_on (CHR 0x0A) (trim (spawn_out r @ spawn_err r)))"

definition commandIdentity :: "machine \<Rightarrow> string \<Rightarrow> jv" where
  "commandIdentity m command = (case resolveExecutable m command of
       None \<Rightarrow> Obj [(''available'', JBool False), (''path'', Null), (''version'', Null)]
     | Some executable \<Rightarrow> (let version = spawn m executable [''--version''] in Obj [
         (''available'', JBool True),
         (''path'', Str executable),
         (''version'', if spawn_failed version \<or> first_line version = [] then Null else Str (first_line version))]))"

definition gitWorktreeClean :: "machine \<Rightarrow> string \<Rightarrow> jv" where
  "gitWorktreeClean m root =
     (let result = spawn m ''git'' [''-C'', root, ''status'', ''--porcelain'', ''--untracked-files=all''] in
      if exit_status result = Some 0 then JBool (trim (spawn_out result) = []) else Null)"

section \<open>Laws\<close>

text \<open>The root found is the nearest ancestor that holds git metadata.\<close>

inductive ancestor_of :: "string \<Rightarrow> string \<Rightarrow> bool" where
  here: "ancestor_of p p"
| up: "ancestor_of a (dirname p) \<Longrightarrow> ancestor_of a p"

lemma ancestor_found:
  "ancestor_with_git w c = Some r \<Longrightarrow>
     ancestor_of r c \<and> path_exists w (r @ (if r = ''/'' then ''.git'' else ''/.git''))"
proof (induction w c rule: ancestor_with_git.induct)
  case (1 w c)
  from 1(2) show ?case
    unfolding ancestor_with_git.simps [of w c] using 1(1)
    by (auto split: if_splits intro: ancestor_of.intros)
qed

lemma ancestor_missing:
  "ancestor_of r c \<Longrightarrow> ancestor_with_git w c = None \<Longrightarrow> \<not> path_exists w (r @ (if r = ''/'' then ''.git'' else ''/.git''))"
proof (induction rule: ancestor_of.induct)
  case (here p)
  then show ?case unfolding ancestor_with_git.simps [of w p] by (auto split: if_splits)
next
  case (up a p)
  from up(3) have "ancestor_with_git w (dirname p) = None"
    unfolding ancestor_with_git.simps [of w p] using up(3) by (auto split: if_splits)
  then show ?case by (rule up(2))
qed

lemma resolveExecutable_runs:
  assumes "resolveExecutable m command = Some p"
  shows "\<exists>candidate \<in> set (executable_candidates m command). can_execute m candidate \<and> p = resolve_path (current_dir m) candidate"
proof -
  from assms obtain c where "find (can_execute m) (executable_candidates m command) = Some c" "p = resolve_path (current_dir m) c"
    by (auto simp: resolveExecutable_def)
  then show ?thesis by (metis find_Some_iff nth_mem)
qed

lemma resolveExecutable_none:
  "resolveExecutable m command = None \<longleftrightarrow> (\<forall>candidate \<in> set (executable_candidates m command). \<not> can_execute m candidate)"
  by (auto simp: resolveExecutable_def find_None_iff)

end
