(* ===== verification/Handoff.thy ===== *)
theory Handoff imports Git Validate ClaimLaws begin

text \<open>
  Handing work to a child (src/pipeline.js): capability discovery, validation of a handoff,
  \<open>createTask\<close>, the choice of a route (\<open>routeTask\<close>) and \<open>createAttempt\<close>.
\<close>

section \<open>Discovery\<close>

definition version_of :: "machine \<Rightarrow> string option \<Rightarrow> jv" where
  "version_of m path = (case path of
       None \<Rightarrow> Null
     | Some p \<Rightarrow> (let result = spawn m p [''--version''] in
         if \<not> spawn_failed result \<and> exit_status result = Some 0 then Str (first_line result) else Null))"

definition discovered_commands :: "string list" where
  "discovered_commands = [''git'', ''node'', ''npm'', ''rg'', ''codex'', ''claude'']"

definition sibling_names :: "string list" where
  "sibling_names = [''gearbox'', ''context-firewall'', ''event-driven-agent-wakeup'', ''decision-evidence-protocol'',
     ''verifiable-agent-handoff'', ''affected-verification'', ''agent-trajectory-profiler'']"

definition command_entry :: "machine \<Rightarrow> string \<Rightarrow> jv" where
  "command_entry m name = (let path = resolveExecutable m name in Obj [
     (''available'', JBool (path \<noteq> None)),
     (''path'', js_option path),
     (''version'', version_of m path)])"

definition sibling_entry :: "string \<Rightarrow> string \<Rightarrow> jv wio" where
  "sibling_entry root name =
     (let path = resolve_path root ''..'' @ ''/'' @ name in
     bind_io (existsPath (path @ ''/.git'')) (\<lambda>there.
     bind_io (if there then bind_io (gitMetadata path) (\<lambda>g. ret (jget ''head'' g)) else ret Null) (\<lambda>revision.
     ret (Obj [(''available'', JBool there), (''path'', Str path), (''revision'', revision)]))))"

definition discovery_record :: "machine \<Rightarrow> string \<Rightarrow> jv list \<Rightarrow> jv" where
  "discovery_record m t siblings = Obj [
     (''schema'', Str ''opsle.durable-supervisor.discovery/v1''),
     (''discovered_at'', Str t),
     (''commands'', Obj (map (\<lambda>name. (name, command_entry m name)) discovered_commands)),
     (''sibling_components'', Obj (zip sibling_names siblings))]"

definition discoverCapabilities :: "machine \<Rightarrow> string \<Rightarrow> jv wio" where
  "discoverCapabilities m root =
     bind_io (map_io (sibling_entry root) sibling_names) (\<lambda>siblings.
     bind_io now (\<lambda>t.
     ret (discovery_record m t siblings)))"

section \<open>Validating a handoff\<close>

definition validateRelativePath :: "jv \<Rightarrow> err + jv" where
  "validateRelativePath value =
     (let bad = Err (''invalid authorized path: '' @ js_string value); s = str_of value in
     guard_err (\<not> is_str value \<or> s = [] \<or> starts_with ''/'' s \<or> CHR 0x00 \<in> set s) bad (
     guard_err (''..'' \<in> set (split_on (CHR ''/'') s)) bad (
     Inr value)))"

definition validateArgv :: "jv \<Rightarrow> string \<Rightarrow> err + unit" where
  "validateArgv value field =
     (if nullish value then Inr ()
      else guard_err (\<not> is_arr value \<or> elems value = []) (Err (field @ '' must be a nonempty argv array'')) (
        guard_err (\<not> is_str (hd (elems value)) \<or> str_of (hd (elems value)) = [])
          (Err (field @ ''[0] must be a nonempty command string'')) (
        guard_err (list_ex (\<lambda>a. \<not> is_str a) (elems value)) (Err (field @ '' argv entries must all be strings'')) (
        Inr ()))))"

definition validateTaskCommands :: "jv \<Rightarrow> err + jv" where
  "validateTaskCommands task =
     bind_err (jdot ''deterministic_command'' task) (\<lambda>deterministic.
     bind_err (validateArgv deterministic ''deterministic_command'') (\<lambda>_.
     bind_err (validateArgv (jget ''verification_command'' task) ''verification_command'') (\<lambda>_.
     Inr task)))"

definition required_fields :: "string list" where
  "required_fields = [''title'', ''objective'', ''scope'', ''authorization'', ''expected_deliverable'',
     ''expected_evidence'', ''acceptance_criteria'', ''prohibited_actions'', ''requirement_ids'']"

fun check_required :: "jv \<Rightarrow> string list \<Rightarrow> err + unit" where
  "check_required input [] = Inr ()"
| "check_required input (field # others) =
     bind_err (jdot field input) (\<lambda>v.
     guard_err (nullish v) (Err (''handoff missing '' @ field)) (check_required input others))"

definition validateHandoff :: "jv \<Rightarrow> err + jv" where
  "validateHandoff input =
     bind_err (check_required input required_fields) (\<lambda>_.
     let may_modify = jpath [''authorization'', ''may_modify''] input; criteria = jget ''acceptance_criteria'' input in
     guard_err (\<not> is_arr (jget ''scope'' input) \<or> elems (jget ''scope'' input) = []) (Err ''scope must be nonempty'') (
     guard_err (\<not> is_arr may_modify) (Err ''authorization.may_modify required'') (
     bind_err (map_err validateRelativePath (elems may_modify)) (\<lambda>_.
     guard_err (\<not> is_arr (jpath [''authorization'', ''may_not''] input)) (Err ''authorization.may_not required'') (
     guard_err (\<not> is_arr criteria \<or> elems criteria = []) (Err ''acceptance criteria must be nonempty'') (
     bind_err (validateTaskCommands input) (\<lambda>_.
     Inr input)))))))"

section \<open>createTask\<close>

text \<open>\<open>v.length > 0\<close>\<close>

definition has_length :: "jv \<Rightarrow> bool" where
  "has_length v \<longleftrightarrow> 0 < int_of (jget ''length'' v)"

definition unknown_requirement :: "jv \<Rightarrow> jv list \<Rightarrow> jv option" where
  "unknown_requirement requirements ids =
     find (\<lambda>i. \<not> jincludes (map (jget ''id'') (elems (jget ''requirements'' requirements))) i) ids"

definition task_record :: "jv \<Rightarrow> jv \<Rightarrow> jv \<Rightarrow> jv \<Rightarrow> string \<Rightarrow> jv" where
  "task_record input objective supervisor taskId t = Obj [
     (''schema'', Str ''opsle.durable-supervisor.task-handoff/v1''),
     (''task_id'', taskId),
     (''parent_objective_id'', jget ''objective_id'' objective),
     (''parent_objective_revision'', jget ''current_revision'' objective),
     (''parent_decision_id'', coalesce (jget ''parent_decision_id'' input) Null),
     (''title'', jget ''title'' input),
     (''objective'', jget ''objective'' input),
     (''scope'', jget ''scope'' input),
     (''authorization'', jget ''authorization'' input),
     (''required_inputs'', coalesce (jget ''required_inputs'' input) (Arr [])),
     (''relevant_context'', coalesce (jget ''relevant_context'' input) (Arr [])),
     (''expected_deliverable'', jget ''expected_deliverable'' input),
     (''expected_evidence'', jget ''expected_evidence'' input),
     (''acceptance_criteria'', jget ''acceptance_criteria'' input),
     (''prohibited_actions'', jget ''prohibited_actions'' input),
     (''operator_policy_constraints'', coalesce (jget ''operator_policy_constraints'' input) (Arr [])),
     (''requirement_ids'', jget ''requirement_ids'' input),
     (''route_hint'', coalesce (jget ''route_hint'' input) Null),
     (''deterministic_command'', coalesce (jget ''deterministic_command'' input) Null),
     (''verification_command'', coalesce (jget ''verification_command'' input) Null),
     (''timeout_seconds'', coalesce (jget ''timeout_seconds'' input) (Num 1800)),
     (''expects_changes'', coalesce (jget ''expects_changes'' input) (JBool True)),
     (''supervisor_id'', jget ''supervisor_id'' supervisor),
     (''supervisor_generation'', jget ''generation'' supervisor),
     (''state'', Str ''READY''),
     (''attempts'', Arr []),
     (''created_at'', Str t)]"

definition store_task :: "string \<Rightarrow> jv \<Rightarrow> jv \<Rightarrow> jv \<Rightarrow> jv \<Rightarrow> jv wio" where
  "store_task root input objective supervisor taskId =
     (let path = json_in (p_tasks (paths root)) (js_string taskId) in
     bind_io (existsSync path) (\<lambda>there.
     guard_io there (Err (''task already exists: '' @ js_string taskId)) (
     bind_io now (\<lambda>t.
     let task = task_record input objective supervisor taskId t in
     bind_io (writeJson path task) (\<lambda>_.
     bind_io (emit root ''TASK_HANDOFF_CREATED'' (Obj [(''task_id'', taskId)])) (\<lambda>_.
     ret task))))))"

definition createTask :: "string \<Rightarrow> jv \<Rightarrow> jv wio" where
  "createTask root input =
     bind_io (lift_io (validateHandoff input)) (\<lambda>_.
     bind_io (readJson (p_objective (paths root))) (\<lambda>objective.
     guard_io (jget ''current_revision'' objective = Num 0) (Err ''set the repository objective before creating work'') (
     bind_io (effectiveRequirementMatrix root None None) (\<lambda>requirements.
     guard_io (\<not> truthy requirements \<and> has_length (jget ''requirement_ids'' input))
       (Err ''objective-driven repository task cannot claim requirement IDs without a matrix'') (
     bind_io (lift_io (spread_list (jget ''requirement_ids'' input))) (\<lambda>ids.
     case unknown_requirement requirements ids of
       Some unknown \<Rightarrow> throw (Err (''unknown effective requirement: '' @ js_string unknown))
     | None \<Rightarrow>
         bind_io (readJson (p_supervisor (paths root))) (\<lambda>supervisor.
         bind_io (if nullish (jget ''task_id'' input) then bind_io (id_new ''task'') (\<lambda>i. ret (Str i))
                  else ret (jget ''task_id'' input)) (\<lambda>taskId.
         store_task root input objective supervisor taskId))))))))"

section \<open>routeTask\<close>

text \<open>Names a plain object inherits: looking one up yields a function, which is not available.\<close>

definition inherited_names :: "string list" where
  "inherited_names = [''constructor'', ''toString'', ''valueOf'', ''hasOwnProperty'', ''isPrototypeOf'',
     ''propertyIsEnumerable'', ''toLocaleString'', ''__proto__'', ''__defineGetter__'', ''__defineSetter__'',
     ''__lookupGetter__'', ''__lookupSetter__'']"

definition command_available :: "machine \<Rightarrow> string \<Rightarrow> bool" where
  "command_available m command =
     (if basename command \<in> set discovered_commands then resolveExecutable m (basename command) \<noteq> None
      else if basename command \<in> set inherited_names then False
      else resolveExecutable m command \<noteq> None)"

definition closed_switches :: "(string \<times> jv) list" where
  "closed_switches = [
     (''skill_allowlist'', Arr []),
     (''web'', Obj [(''enabled'', JBool False), (''mode'', Str ''disabled'')]),
     (''mcp'', Obj [(''enabled'', JBool False), (''server_allowlist'', Arr [])]),
     (''plugins'', Obj [(''enabled'', JBool False), (''plugin_allowlist'', Arr [])]),
     (''subagents'', Obj [(''enabled'', JBool False)]),
     (''review'', Obj [(''enabled'', JBool False), (''mode'', Str ''off''), (''reviewer'', Null)]),
     (''fallback'', Obj [(''enabled'', JBool False), (''provider_allowlist'', Arr [])])]"

definition child_route_schema :: string where
  "child_route_schema = ''opsle.durable-supervisor.exact-child-route/v2''"

definition deterministic_route :: "jv \<Rightarrow> jv" where
  "deterministic_route argv = Obj ([
     (''schema'', Str child_route_schema),
     (''provider'', Null),
     (''execution_class'', Str ''deterministic_command''),
     (''selected_tool'', Str ''deterministic-command''),
     (''tool_allowlist'', Arr [Obj [(''tool'', Str ''deterministic-command''), (''command'', jidx 0 argv), (''argv'', argv)]])]
     @ closed_switches)"

definition codex_route :: "jv \<Rightarrow> jv" where
  "codex_route codex = Obj ([
     (''schema'', Str child_route_schema),
     (''provider'', Obj [(''name'', Str ''codex''), (''model'', jget ''model'' codex), (''reasoning_effort'', jget ''reasoning_effort'' codex)]),
     (''execution_class'', Str ''bounded_implementation''),
     (''selected_tool'', Str ''none''),
     (''tool_allowlist'', Arr [])]
     @ closed_switches)"

definition gearbox_schema :: string where
  "gearbox_schema = ''opsle.durable-supervisor.gearbox-decision/v3''"

definition gearbox_decision :: "jv \<Rightarrow> jv \<Rightarrow> jv \<Rightarrow> bool \<Rightarrow> string \<Rightarrow> string \<Rightarrow> string \<Rightarrow> jv" where
  "gearbox_decision task policy discovery deterministic did sha t =
     (let argv = jget ''deterministic_command'' task in Obj [
     (''schema'', Str gearbox_schema),
     (''decision_id'', Str did),
     (''task_id'', jget ''task_id'' task),
     (''classified_work'', Str (if truthy argv then ''bounded_command_or_implementation'' else ''bounded_implementation'')),
     (''discovery'', discovery),
     (''selected_route'', Str (if deterministic then ''deterministic'' else ''codex'')),
     (''selected_capability'', if deterministic then jidx 0 argv else Str ''codex''),
     (''selected_route_config'', if deterministic then deterministic_route argv
        else codex_route (jpath [''providers'', ''codex''] policy)),
     (''classification_inputs'', Obj [
        (''route_hint'', jget ''route_hint'' task),
        (''route_hint_authority'', Str ''advisory_only''),
        (''deterministic_command_present'', JBool (truthy argv))]),
     (''rationale'', Str (if deterministic then ''A predeclared deterministic command is adequate and authorized.''
        else ''The task requires bounded repository implementation judgment; Codex is available and enabled.'')),
     (''operator_policy_version'', jget ''version'' policy),
     (''operator_policy_sha256'', Str sha),
     (''created_at'', Str t)])"

text \<open>\<open>Some True\<close> is the deterministic route, \<open>Some False\<close> the Codex route.\<close>

definition select_route :: "machine \<Rightarrow> jv \<Rightarrow> jv \<Rightarrow> err + bool option" where
  "select_route m policy task =
     (if truthy (jget ''deterministic_command'' task) then
        Inr (if command_available m (str_of (jidx 0 (jget ''deterministic_command'' task))) then Some True else None)
      else
        bind_err (jdot ''codex'' (jget ''providers'' policy)) (\<lambda>codex.
        Inr (if jget ''enabled'' codex = JBool True \<and> resolveExecutable m ''codex'' \<noteq> None then Some False else None)))"

definition routeTask :: "machine \<Rightarrow> string \<Rightarrow> jv \<Rightarrow> jv wio" where
  "routeTask m root task =
     bind_io (lift_io (validateTaskCommands task)) (\<lambda>_.
     bind_io (readJson (p_policy (paths root))) (\<lambda>policy.
     bind_io (discoverCapabilities m root) (\<lambda>discovery.
     bind_io (lift_io (select_route m policy task)) (\<lambda>selected.
     case selected of
       None \<Rightarrow> throw (Err ''no authorized, available, policy-permitted Gearbox route'')
     | Some deterministic \<Rightarrow>
         bind_io (id_new ''gearbox'') (\<lambda>did.
         bind_io (policyHash root) (\<lambda>sha.
         bind_io now (\<lambda>t.
         ret (gearbox_decision task policy discovery deterministic did sha t))))))))"

section \<open>createAttempt\<close>

definition pad3 :: "nat \<Rightarrow> string" where
  "pad3 n = replicate (3 - length (nat_str n)) (CHR ''0'') @ nat_str n"

definition codex_permitted :: "jv \<Rightarrow> jv \<Rightarrow> bool" where
  "codex_permitted codex route \<longleftrightarrow> truthy (jget ''enabled'' codex)
     \<and> jpath [''provider'', ''name''] route = Str ''codex''
     \<and> strict_eq (jpath [''provider'', ''model''] route) (jget ''model'' codex)
     \<and> strict_eq (jpath [''provider'', ''reasoning_effort''] route) (jget ''reasoning_effort'' codex)
     \<and> jget ''execution_class'' route = Str ''bounded_implementation''
     \<and> jget ''selected_tool'' route = Str ''none''
     \<and> empty_arr (jget ''tool_allowlist'' route)"

definition command_route_matches :: "jv \<Rightarrow> jv \<Rightarrow> bool" where
  "command_route_matches task route \<longleftrightarrow>
     (let tool = jidx 0 (jget ''tool_allowlist'' route) in
      jget ''provider'' route = Null
      \<and> jget ''execution_class'' route = Str ''deterministic_command''
      \<and> jget ''length'' (jget ''tool_allowlist'' route) = Num 1
      \<and> is_str (jget ''tool'' tool)
      \<and> jget ''selected_tool'' route = jget ''tool'' tool
      \<and> ser (jget ''argv'' tool) = ser (jget ''deterministic_command'' task))"

text \<open>The entry \<open>policy.providers.codex\<close>, read member by member.\<close>

definition codex_policy :: "jv \<Rightarrow> err + jv" where
  "codex_policy policy = bind_err (jdot ''codex'' (jget ''providers'' policy))
     (\<lambda>codex. guard_err (nullish codex) TypeErr (Inr codex))"

definition check_route :: "jv \<Rightarrow> jv \<Rightarrow> jv \<Rightarrow> err + unit" where
  "check_route policy task gearbox =
     (let route = jget ''selected_route_config'' gearbox; kind = jget ''selected_route'' gearbox in
      if kind = Str ''codex'' then
        bind_err (codex_policy policy) (\<lambda>codex.
        guard_err (\<not> codex_permitted codex route)
          (Err ''Gearbox Codex route is not permitted by current operator policy'') (Inr ()))
      else if kind = Str ''deterministic'' then
        guard_err (\<not> command_route_matches task route)
          (Err ''Gearbox deterministic route does not exactly match the task command'') (Inr ())
      else Inl (Err (''unsupported Gearbox selected route: '' @ js_string kind)))"

definition policy_snapshot :: "jv \<Rightarrow> jv \<Rightarrow> jv \<Rightarrow> jv \<Rightarrow> jv \<Rightarrow> string \<Rightarrow> string \<Rightarrow> string \<Rightarrow> jv" where
  "policy_snapshot task gearbox policy supervisor claim attemptId sha t =
     (let codex = (jget ''selected_route'' gearbox = Str ''codex''); configured = jpath [''providers'', ''codex''] policy in Obj [
     (''schema'', Str (snapshot_schema ''v3'')),
     (''task_id'', jget ''task_id'' task),
     (''attempt_id'', Str attemptId),
     (''parent_objective_id'', jget ''parent_objective_id'' task),
     (''parent_decision_id'', jget ''parent_decision_id'' task),
     (''supervisor_id'', jget ''supervisor_id'' supervisor),
     (''supervisor_generation'', jget ''generation'' supervisor),
     (''provider'', if codex then Str ''codex'' else Null),
     (''model'', if codex then jget ''model'' configured else Null),
     (''reasoning_effort'', if codex then jget ''reasoning_effort'' configured else Null),
     (''gearbox_decision'', gearbox),
     (''selected_route'', jget ''selected_route_config'' gearbox),
     (''providers'', jget ''providers'' policy),
     (''review'', jget ''review'' policy),
     (''authorization_envelope'', jget ''authorization'' task),
     (''policy_version'', jget ''version'' policy),
     (''policy_sha256'', Str sha),
     (''claim_id'', jget ''claim_id'' claim),
     (''fence_generation'', jget ''fence_generation'' claim),
     (''expected_evidence'', jget ''expected_evidence'' task),
     (''acceptance_criteria'', jget ''acceptance_criteria'' task),
     (''launch_time'', Str t)])"

definition attempt_record :: "jv \<Rightarrow> jv \<Rightarrow> jv \<Rightarrow> jv \<Rightarrow> string \<Rightarrow> nat \<Rightarrow> jv" where
  "attempt_record task gearbox claim snapshot attemptId n = Obj [
     (''schema'', Str ''opsle.durable-supervisor.child-attempt/v1''),
     (''task_id'', jget ''task_id'' task),
     (''attempt_id'', Str attemptId),
     (''attempt_number'', Num (int n)),
     (''child_state'', Str ''QUEUED''),
     (''provider'', jget ''provider'' snapshot),
     (''model'', jget ''model'' snapshot),
     (''gearbox_route'', jget ''selected_route'' gearbox),
     (''claim_id'', jget ''claim_id'' claim),
     (''fence_generation'', jget ''fence_generation'' claim),
     (''pid'', Null),
     (''provider_run_id'', Null),
     (''started_at'', Null),
     (''heartbeat_at'', Null),
     (''completed_at'', Null),
     (''exit_code'', Null),
     (''raw_evidence'', Arr []),
     (''compact_packet'', Null),
     (''completion_handoff'', Null),
     (''acceptance'', Null),
     (''supervisor_evaluation'', Null),
     (''policy_snapshot'', snapshot)]"

definition queued_task :: "jv \<Rightarrow> string \<Rightarrow> jv" where
  "queued_task task attemptId = jsets [
     (''attempts'', Arr (elems (jget ''attempts'' task) @ [Str attemptId])),
     (''state'', Str ''QUEUED'')] task"

definition record_attempt :: "string \<Rightarrow> jv \<Rightarrow> jv \<Rightarrow> jv \<Rightarrow> string \<Rightarrow> jv wio" where
  "record_attempt root task attempt claim attemptId =
     (let p = paths root; tid = jget ''task_id'' task in
     bind_io (writeJson (json_in (p_attempts p) attemptId) attempt) (\<lambda>_.
     bind_io (writeJson (json_in (p_tasks p) (js_string tid)) (queued_task task attemptId)) (\<lambda>_.
     bind_io (updateState root (Obj [(''active_task_id'', tid), (''active_attempt_id'', Str attemptId)])) (\<lambda>_.
     bind_io (emit root ''ATTEMPT_CREATED'' (Obj [(''task_id'', tid), (''attempt_id'', Str attemptId),
       (''claim_id'', jget ''claim_id'' claim)])) (\<lambda>_.
     ret (Obj [(''attempt'', attempt), (''claim'', claim)]))))))"

text \<open>\<open>task.attempts.length\<close>: the tasks of \<open>createTask\<close> hold an array.\<close>

definition attempt_number :: "jv \<Rightarrow> err + nat" where
  "attempt_number task = (case jget ''attempts'' task of
       Arr xs \<Rightarrow> Inr (length xs + 1) | _ \<Rightarrow> Inl TypeErr)"

definition createAttempt :: "(string \<Rightarrow> jv \<Rightarrow> jv \<Rightarrow> jv wio) \<Rightarrow> string \<Rightarrow> jv \<Rightarrow> jv \<Rightarrow> jv wio" where
  "createAttempt claimFactory root task gearbox =
     (let p = paths root in
     bind_io (lift_io (validateTaskCommands task)) (\<lambda>_.
     guard_io (jget ''state'' task = Str ''REJECTED'')
       (Err (''rejected task cannot be relaunched: '' @ js_string (jget ''task_id'' task))) (
     bind_io (readJson (p_policy p)) (\<lambda>policy.
     bind_io (lift_io (jdot ''selected_route_config'' gearbox)) (\<lambda>route.
     bind_io (policyHash root) (\<lambda>sha.
     guard_io (jget ''schema'' gearbox \<noteq> Str gearbox_schema \<or> jget ''schema'' route \<noteq> Str child_route_schema
         \<or> jget ''operator_policy_sha256'' gearbox \<noteq> Str sha)
       (Err ''Gearbox decision lacks a current exact selected route'') (
     bind_io (lift_io (check_route policy task gearbox)) (\<lambda>_.
     bind_io (readJson (p_supervisor p)) (\<lambda>supervisor.
     bind_io (lift_io (attempt_number task)) (\<lambda>n.
     let attemptId = js_string (jget ''task_id'' task) @ ''-attempt-'' @ pad3 n in
     bind_io (claimFactory root task (Str attemptId)) (\<lambda>claim.
     bind_io (policyHash root) (\<lambda>current.
     bind_io now (\<lambda>t.
     let snapshot = policy_snapshot task gearbox policy supervisor claim attemptId current t in
     record_attempt root task (attempt_record task gearbox claim snapshot attemptId n) claim attemptId)))))))))))))"

section \<open>Routes are exact and closed\<close>

lemma jget_stored: "jwf x \<Longrightarrow> jget k (stored x) = durable (jget k x)"
  by (cases "x = Undef") (simp_all add: stored_def jget_read_back)

lemma jidx_read_back: "jidx i (durable (Arr xs)) = (if i < length xs then stored (xs ! i) else Undef)"
  by (simp add: durable_Arr stored_def)

lemma closed_durable: "jwf v \<Longrightarrow> route_closed (durable v) = route_closed v"
  by (simp add: route_closed_def read_back empty_arr_def del: jpath.simps)

lemma route_schemas:
  "jget ''schema'' (deterministic_route argv) = Str child_route_schema" "jget ''schema'' (codex_route codex) = Str child_route_schema"
  "is_obj (deterministic_route argv)" "is_obj (codex_route codex)"
  by (simp_all add: deterministic_route_def codex_route_def)

lemma routes_closed: "route_closed (deterministic_route argv)" "route_closed (codex_route codex)"
  by (simp_all add: route_closed_def deterministic_route_def codex_route_def closed_switches_def empty_arr_def)

lemma jwf_jidx: "jwf v \<Longrightarrow> jwf (jidx i v)"
  by (cases v) auto

lemma routes_jwf: "jwf argv \<Longrightarrow> jwf (deterministic_route argv)" "jwf codex \<Longrightarrow> jwf (codex_route codex)"
  by (simp_all add: deterministic_route_def codex_route_def closed_switches_def jwf_jidx jwf_jget)

lemma codex_tool_durable: "codex_tool_ok True (durable (codex_route codex)) d" if "jwf codex"
  using routes_jwf(2) [OF that]
  by (simp add: codex_tool_ok_def read_back jwf_jget del: jpath.simps) (simp add: codex_route_def)

lemma deterministic_tool_durable: "deterministic_tool_ok True (durable (deterministic_route argv)) d" if "jwf argv"
proof -
  have j: "jwf (deterministic_route argv)" by (rule routes_jwf(1) [OF that])
  let ?tool = "Obj [(''tool'', Str ''deterministic-command''), (''command'', jidx 0 argv), (''argv'', argv)]"
  have t: "jget ''tool_allowlist'' (deterministic_route argv) = Arr [?tool]" by (simp add: deterministic_route_def)
  have "jwf ?tool" using that by (cases argv) auto
  then have "jget ''tool'' (jidx 0 (durable (Arr [?tool]))) = Str ''deterministic-command''"
    by (simp add: jidx_read_back jget_stored)
  then show ?thesis
    unfolding deterministic_tool_ok_def Let_def
    by (simp add: jget_read_back [OF j] t kinds_read_back elems_read_back) (simp add: deterministic_route_def)
qed

lemma empty_codex_tool: "jget ''selected_route'' d \<noteq> Str ''codex'' \<Longrightarrow> codex_tool_ok b r d"
  by (simp add: codex_tool_ok_def)

lemma empty_deterministic_tool: "jget ''selected_route'' d \<noteq> Str ''deterministic'' \<Longrightarrow> deterministic_tool_ok b r d"
  by (simp add: deterministic_tool_ok_def)

section \<open>What routeTask returns\<close>

text \<open>Every value a computation may return has a property.\<close>

definition returns :: "('a \<Rightarrow> bool) \<Rightarrow> ('w, 'a) io \<Rightarrow> bool" where
  "returns P m \<longleftrightarrow> (\<forall>w y w'. m w = (Inr y, w') \<longrightarrow> P y)"

named_theorems returning "rules for returns"

lemma returns_rules [returning]:
  "P x \<Longrightarrow> returns P (ret x)" "returns P (throw e)"
  "(\<And>x. returns P (f x)) \<Longrightarrow> returns P (bind_io m' f)"
  "returns P m \<Longrightarrow> returns P (guard_io c e m)"
  "\<lbrakk>c \<Longrightarrow> returns P m; \<not> c \<Longrightarrow> returns P m2\<rbrakk> \<Longrightarrow> returns P (if c then m else m2)"
  by (auto simp: returns_def io_Inr_iff)

lemma returnsD: "returns P m \<Longrightarrow> m w = (Inr y, w') \<Longrightarrow> P y"
  unfolding returns_def by blast

lemma returns_bind: "returns R m \<Longrightarrow> (\<And>x. R x \<Longrightarrow> returns P (f x)) \<Longrightarrow> returns P (bind_io m f)"
  unfolding returns_def by (metis bind_io_InrE)

lemma jwf_git_record: "jwf head \<Longrightarrow> jwf (git_record head branch remote)"
  by (simp add: git_record_def js_option_def split: option.splits)

lemma gitMetadata_jwf: "returns jwf (gitMetadata path)"
  unfolding gitMetadata_def Let_def
  by (intro returning jwf_git_record) (simp_all add: js_option_def split: option.splits)

lemma sibling_entry_jwf: "returns jwf (sibling_entry root name)"
proof -
  have "returns jwf (if there then bind_io (gitMetadata path) (\<lambda>g. ret (jget ''head'' g)) else ret Null)" for there path
    by (simp add: returning returns_bind [OF gitMetadata_jwf] jwf_jget)
  note revision = this
  show ?thesis
    unfolding sibling_entry_def Let_def
    by (rule returns_rules(3), rule returns_bind [OF revision], rule returns_rules(1)) simp
qed

lemma map_io_all: "(\<And>x w y w'. f x w = (Inr y, w') \<Longrightarrow> P y) \<Longrightarrow> map_io f xs w = (Inr ys, w') \<Longrightarrow> list_all P ys"
  by (induction xs arbitrary: w ys) (auto simp: io_Inr_iff)

lemma map_io_length: "map_io f xs w = (Inr ys, w') \<Longrightarrow> length ys = length xs"
  by (induction xs arbitrary: w ys) (auto simp: io_Inr_iff)

lemma discovery_jwf:
  assumes "discoverCapabilities m root w = (Inr d, w')"
  shows "jwf d"
proof -
  from assms obtain siblings w1 t where run: "map_io (sibling_entry root) sibling_names w = (Inr siblings, w1)"
    and d: "d = discovery_record m t siblings"
    by (auto simp: discoverCapabilities_def io_Inr_iff)
  have "list_all jwf siblings" by (rule map_io_all [OF _ run]) (rule returnsD [OF sibling_entry_jwf])
  then have s: "\<forall>kv \<in> set (zip sibling_names siblings). jwf (snd kv)"
    by (auto simp: list_all_iff dest: set_zip_rightD)
  have c: "jwf (command_entry m name)" for name
    by (simp add: command_entry_def Let_def js_option_def version_of_def split: option.splits)
  have n: "distinct sibling_names" "distinct discovered_commands"
    by (simp_all add: sibling_names_def discovered_commands_def)
  have "length siblings = length sibling_names" by (rule map_io_length [OF run])
  then have "jwf (Obj (zip sibling_names siblings))" using s n by simp
  moreover have "jwf (Obj (map (\<lambda>name. (name, command_entry m name)) discovered_commands))"
    using c n by (simp add: comp_def)
  ultimately show ?thesis unfolding d discovery_record_def by simp
qed

lemma select_route_facts:
  assumes "select_route m policy task = Inr (Some b)"
  shows "b \<longleftrightarrow> truthy (jget ''deterministic_command'' task)"
    and "\<not> b \<Longrightarrow> jpath [''providers'', ''codex'', ''enabled''] policy = JBool True"
  using assms by (auto simp: select_route_def err_Inr_iff jdot_eq_Inr split: if_splits)

lemma routeTask_result:
  assumes "routeTask m root task w = (Inr gearbox, w')"
  shows "\<exists>policy d b did sha t.
      parse_object (p_policy (paths root)) (bytes_at w (p_policy (paths root))) = Inr policy \<and> jwf d
    \<and> select_route m policy task = Inr (Some b) \<and> gearbox = gearbox_decision task policy d b did sha t
    \<and> validateTaskCommands task = Inr task"
proof -
  from assms obtain policy d w1 sel where
      v: "validateTaskCommands task = Inr task"
      and pol: "parse_object (p_policy (paths root)) (bytes_at w (p_policy (paths root))) = Inr policy"
      and dis: "discoverCapabilities m root w = (Inr d, w1)" and sel: "select_route m policy task = Inr sel"
      and rest: "(case sel of None \<Rightarrow> throw (Err ''no authorized, available, policy-permitted Gearbox route'')
         | Some b \<Rightarrow> bind_io (id_new ''gearbox'') (\<lambda>did. bind_io (policyHash root) (\<lambda>sha. bind_io now (\<lambda>t.
             ret (gearbox_decision task policy d b did sha t))))) w1 = (Inr gearbox, w')"
    unfolding routeTask_def by (elim bind_io_InrE) (auto simp: validateTaskCommands_def err_Inr_iff)
  from rest obtain b did sha t where "sel = Some b" "gearbox = gearbox_decision task policy d b did sha t"
    by (cases sel) (auto simp: bind_io_eq_Inr)
  with v pol sel discovery_jwf [OF dis] show ?thesis by blast
qed

text \<open>The route hint is advisory: changing it changes neither whether a route is selected nor which.\<close>

lemma select_route_hint: "is_obj task \<Longrightarrow> select_route m policy (jset ''route_hint'' h task) = select_route m policy task"
  by (simp add: select_route_def)

lemma validate_commands_hint:
  "is_obj task \<Longrightarrow> validateTaskCommands (jset ''route_hint'' h task)
     = (case validateTaskCommands task of Inl e \<Rightarrow> Inl e | Inr t \<Rightarrow> Inr (jset ''route_hint'' h task))"
  by (simp add: validateTaskCommands_def jdot_def is_obj_not_nullish bind_err_def split: sum.split)

section \<open>What createAttempt leaves\<close>

definition attempt_path :: "string \<Rightarrow> string \<Rightarrow> string" where
  "attempt_path root attemptId = json_in (p_attempts (paths root)) attemptId"

lemma updateState_frame:
  "updateState root patch w = (r, w') \<Longrightarrow> p \<noteq> p_state (paths root) \<Longrightarrow> bytes_at w' p = bytes_at w p"
  by (auto simp: updateState_def Let_def bind_readJson guard_io_def split: sum.splits if_splits)

lemma record_attempt_frame:
  assumes "record_attempt root task attempt claim aid w = (Inr res, w')"
  shows "bytes_at w' (attempt_path root aid) = Some (canonicalJson attempt)"
    and "bytes_at w' (json_in (p_tasks (paths root)) (js_string (jget ''task_id'' task))) = Some (canonicalJson (queued_task task aid))"
    and "res = Obj [(''attempt'', attempt), (''claim'', claim)]"
proof -
  let ?a = "attempt_path root aid" and ?t = "json_in (p_tasks (paths root)) (js_string (jget ''task_id'' task))"
  define w2 where "w2 = put_file ?t (canonicalJson (queued_task task aid)) (put_file ?a (canonicalJson attempt) w)"
  from assms obtain u w3 ev w4 where
      u: "updateState root (Obj [(''active_task_id'', jget ''task_id'' task), (''active_attempt_id'', Str aid)]) w2 = (Inr u, w3)"
      and e: "emit root ''ATTEMPT_CREATED'' (Obj [(''task_id'', jget ''task_id'' task), (''attempt_id'', Str aid),
         (''claim_id'', jget ''claim_id'' claim)]) w3 = (Inr ev, w')"
      and r: "res = Obj [(''attempt'', attempt), (''claim'', claim)]"
    unfolding record_attempt_def Let_def w2_def attempt_path_def by (auto elim!: bind_io_InrE)
  have "bytes_at w' p = bytes_at w2 p" if "\<not> journal_path root p" "p \<noteq> p_state (paths root)" for p
    using emit_effect(1) [OF e that(1)] updateState_frame [OF u that(2)] by simp
  then have "bytes_at w' ?a = bytes_at w2 ?a" "bytes_at w' ?t = bytes_at w2 ?t"
    by (simp_all add: attempt_path_def json_in_def starts_with_def)
  then show "bytes_at w' ?a = Some (canonicalJson attempt)" "bytes_at w' ?t = Some (canonicalJson (queued_task task aid))"
    by (simp_all add: w2_def attempt_path_def json_in_def)
  show "res = Obj [(''attempt'', attempt), (''claim'', claim)]" by (rule r)
qed

lemma acquireClaim_keeps_policy:
  assumes "acquireClaim root task att w = (Inr claim, w')"
  shows "bytes_at w' (p_policy (paths root)) = bytes_at w (p_policy (paths root))" "digest w' = digest w"
  using acquireClaim_result [OF assms]
  by (auto simp: acquired_def claim_file_def claim_index_path_def json_in_def starts_with_def)

lemma policyHash_Inr: "policyHash root w = (Inr sha, w') \<longleftrightarrow>
    w' = w \<and> (\<exists>b. bytes_at w (p_policy (paths root)) = Some b \<and> sha = digest w b)"
  by (auto simp: policyHash_def bind_io_def readFile_def split: option.splits)

lemma createAttempt_result:
  assumes "createAttempt acquireClaim root task gearbox w = (Inr res, w')"
  shows "\<exists>policy supervisor n claim w1 sha t attemptId.
      parse_object (p_policy (paths root)) (bytes_at w (p_policy (paths root))) = Inr policy
    \<and> parse_object (p_supervisor (paths root)) (bytes_at w (p_supervisor (paths root))) = Inr supervisor
    \<and> jget ''schema'' gearbox = Str gearbox_schema \<and> jget ''operator_policy_sha256'' gearbox = Str sha
    \<and> policyHash root w = (Inr sha, w) \<and> check_route policy task gearbox = Inr ()
    \<and> attempt_number task = Inr n
    \<and> attemptId = js_string (jget ''task_id'' task) @ ''-attempt-'' @ pad3 n
    \<and> acquireClaim root task (Str attemptId) w = (Inr claim, w1)
    \<and> jget ''state'' task \<noteq> Str ''REJECTED''
    \<and> record_attempt root task (attempt_record task gearbox claim (policy_snapshot task gearbox policy supervisor claim attemptId sha t)
        attemptId n) claim attemptId (w1\<lparr>ticks := Suc (ticks w1)\<rparr>) = (Inr res, w')"
proof -
  from assms obtain policy route sha supervisor n claim w1 current w2 where
      "parse_object (p_policy (paths root)) (bytes_at w (p_policy (paths root))) = Inr policy"
      "parse_object (p_supervisor (paths root)) (bytes_at w (p_supervisor (paths root))) = Inr supervisor"
      "policyHash root w = (Inr sha, w)" "jget ''state'' task \<noteq> Str ''REJECTED''"
      "jget ''schema'' gearbox = Str gearbox_schema" "jget ''operator_policy_sha256'' gearbox = Str sha"
      "check_route policy task gearbox = Inr ()" "attempt_number task = Inr n"
      and acq: "acquireClaim root task (Str (js_string (jget ''task_id'' task) @ ''-attempt-'' @ pad3 n)) w = (Inr claim, w1)"
      and now: "policyHash root w1 = (Inr current, w2)"
      and rest: "bind_io now (\<lambda>t. record_attempt root task (attempt_record task gearbox claim
        (policy_snapshot task gearbox policy supervisor claim (js_string (jget ''task_id'' task) @ ''-attempt-'' @ pad3 n) current t)
        (js_string (jget ''task_id'' task) @ ''-attempt-'' @ pad3 n) n) claim
        (js_string (jget ''task_id'' task) @ ''-attempt-'' @ pad3 n)) w2 = (Inr res, w')"
    unfolding createAttempt_def Let_def
    by (elim bind_io_InrE) (auto simp: guard_io_eq_Inr policyHash_Inr elim!: bind_io_InrE)
  moreover have "current = sha" "w2 = w1"
    using acquireClaim_keeps_policy [OF acq] now \<open>policyHash root w = (Inr sha, w)\<close> by (auto simp: policyHash_Inr)
  ultimately show ?thesis by (simp only: bind_now) blast
qed

section \<open>A routed attempt validates\<close>

lemma gearbox_fields:
  "jget ''schema'' (gearbox_decision task policy d b did sha t) = Str gearbox_schema"
  "jget ''selected_route'' (gearbox_decision task policy d b did sha t) = Str (if b then ''deterministic'' else ''codex'')"
  "jget ''operator_policy_sha256'' (gearbox_decision task policy d b did sha t) = Str sha"
  "jget ''selected_route_config'' (gearbox_decision task policy d b did sha t)
     = (if b then deterministic_route (jget ''deterministic_command'' task) else codex_route (jpath [''providers'', ''codex''] policy))"
  by (simp_all add: gearbox_decision_def Let_def)

lemma jwf_gearbox:
  "jwf task \<Longrightarrow> jwf policy \<Longrightarrow> jwf d \<Longrightarrow> jwf (gearbox_decision task policy d b did sha t)"
  by (simp add: gearbox_decision_def Let_def jwf_jget jwf_jidx routes_jwf jwf_jpath del: jpath.simps)

lemma snapshot_fields:
  "jget ''schema'' (policy_snapshot task g policy sv claim aid sha t) = Str (snapshot_schema ''v3'')"
  "jget ''gearbox_decision'' (policy_snapshot task g policy sv claim aid sha t) = g"
  "jget ''selected_route'' (policy_snapshot task g policy sv claim aid sha t) = jget ''selected_route_config'' g"
  "jget ''policy_sha256'' (policy_snapshot task g policy sv claim aid sha t) = Str sha"
  by (simp_all add: policy_snapshot_def Let_def)

lemma jwf_snapshot:
  "jwf task \<Longrightarrow> jwf g \<Longrightarrow> jwf policy \<Longrightarrow> jwf sv \<Longrightarrow> jwf claim \<Longrightarrow> jwf (policy_snapshot task g policy sv claim aid sha t)"
  by (simp add: policy_snapshot_def Let_def jwf_jget jwf_jpath del: jpath.simps)

lemma attempt_fields:
  "jget ''child_state'' (attempt_record task g claim sn aid n) = Str ''QUEUED''"
  "jget ''task_id'' (attempt_record task g claim sn aid n) = jget ''task_id'' task"
  "jget ''attempt_id'' (attempt_record task g claim sn aid n) = Str aid"
  "jget ''gearbox_route'' (attempt_record task g claim sn aid n) = jget ''selected_route'' g"
  "jget ''policy_snapshot'' (attempt_record task g claim sn aid n) = sn"
  "is_obj (attempt_record task g claim sn aid n)"
  by (simp_all add: attempt_record_def)

lemma jwf_attempt:
  "jwf task \<Longrightarrow> jwf g \<Longrightarrow> jwf claim \<Longrightarrow> jwf sn \<Longrightarrow> jwf (attempt_record task g claim sn aid n)"
  by (simp add: attempt_record_def jwf_jget)

lemma acquired_jwf:
  assumes "acquireClaim root task (Str a) w = (Inr claim, w')" "jwf task"
  shows "jwf claim"
proof -
  from acquireClaim_result [OF assms(1)] obtain sv where
      sv: "parse_object (p_supervisor (paths root)) (bytes_at w (p_supervisor (paths root))) = Inr sv"
      and a: "acquired root sv task (Str a) w claim w'" by auto
  then obtain index cid t1 t2 where
      i: "parse_index (claim_index_path root) (bytes_at w (claim_index_path root)) = Inr index"
      and c: "claim = new_claim sv task (Str a) (jget ''next_fence'' index) (''claim-'' @ cid) t1 t2"
    by (auto simp: acquired_def)
  from parse_index_Inr [OF i] obtain n where "jget ''next_fence'' index = Num n" by (auto elim: pos_safeE)
  then show ?thesis unfolding c using assms(2) parse_object_jwf [OF sv]
    by (simp add: new_claim_def jwf_jget)
qed

lemma exact_route_recorded:
  assumes j: "jwf task" "jwf policy0" "jwf d" "jwf policy" "jwf sv" "jwf claim"
    and g: "g = gearbox_decision task policy0 d b did sha t0"
    and sn: "sn = policy_snapshot task g policy sv claim aid sha t"
    and a: "a = durable (attempt_record task g claim sn aid n)"
  shows "exact_route_ok a (jget ''policy_snapshot'' a)"
proof -
  have jg: "jwf g" unfolding g by (rule jwf_gearbox [OF j(1-3)])
  have js: "jwf sn" unfolding sn by (rule jwf_snapshot [OF j(1) jg j(4-6)])
  have ja: "jwf (attempt_record task g claim sn aid n)" by (rule jwf_attempt [OF j(1) jg j(6) js])
  have jr: "jwf (jget ''selected_route_config'' g)" by (rule jwf_jget [OF jg])
  have s: "jget ''policy_snapshot'' a = durable sn" by (simp add: a jget_read_back [OF ja] attempt_fields)
  have r: "jget ''selected_route'' (durable sn) = durable (jget ''selected_route_config'' g)"
    "jget ''gearbox_decision'' (durable sn) = durable g" "jget ''schema'' (durable sn) = Str (snapshot_schema ''v3'')"
    "jget ''policy_sha256'' (durable sn) = Str sha"
    unfolding jget_read_back [OF js] by (simp_all add: sn snapshot_fields)
  have gr: "jget k (durable g) = durable (jget k g)" for k by (rule jget_read_back [OF jg])
  have rt: "jget k (durable (jget ''selected_route_config'' g)) = durable (jget k (jget ''selected_route_config'' g))" for k
    by (rule jget_read_back [OF jr])
  have closed: "route_closed (durable (jget ''selected_route_config'' g))"
    by (simp add: closed_durable [OF jr]) (simp add: g gearbox_fields routes_closed)
  have f: "jget ''schema'' g = Str gearbox_schema" "jget ''selected_route'' g = Str (if b then ''deterministic'' else ''codex'')"
     "jget ''operator_policy_sha256'' g = Str sha" "jget ''schema'' (jget ''selected_route_config'' g) = Str child_route_schema"
    by (simp_all add: g gearbox_fields route_schemas)
  have codex: "codex_tool_ok True (durable (jget ''selected_route_config'' g)) (durable g)"
  proof (cases b)
    case True
    then show ?thesis by (intro empty_codex_tool) (simp add: gr f)
  next
    case False
    then show ?thesis using codex_tool_durable [OF jwf_jpath [OF j(2)]] by (simp add: g gearbox_fields del: jpath.simps)
  qed
  have tool: "deterministic_tool_ok True (durable (jget ''selected_route_config'' g)) (durable g)"
  proof (cases b)
    case False
    then show ?thesis by (intro empty_deterministic_tool) (simp add: gr f)
  next
    case True
    then show ?thesis using deterministic_tool_durable [OF jwf_jget [OF j(1)]] by (simp add: g gearbox_fields)
  qed
  have h: "jget ''gearbox_route'' a = Str (if b then ''deterministic'' else ''codex'')"
    by (simp add: a jget_read_back [OF ja] attempt_fields f(2))
  have v3: "ends_with ''/v3'' (snapshot_schema ''v3'')" by (simp add: snapshot_schema_def ends_with_def starts_with_def)
  show ?thesis
    unfolding exact_route_ok_def Let_def s r
    by (simp add: v3 gr rt f h closed codex tool) (simp add: child_route_schema_def gearbox_schema_def)
qed

lemma attempt_file_clean:
  assumes "bytes_at w (attempt_path root aid) = Some (canonicalJson a)" "jwf a" "is_obj a"
    and "bytes_at w (json_in (p_tasks (paths root)) (js_string (jget ''task_id'' (durable a)))) \<noteq> None"
    and "in_strs VALID_CHILD_STATES (jget ''child_state'' (durable a))"
    and "jget ''schema'' (jget ''policy_snapshot'' (durable a)) = Str (snapshot_schema ''v3'')"
    and "exact_route_ok (durable a) (jget ''policy_snapshot'' (durable a))"
  shows "attempt_messages root (aid @ ''.json'') w = (Inr [], w)"
proof -
  have p: "p_attempts (paths root) @ ''/'' @ aid @ ''.json'' = attempt_path root aid" by (simp add: attempt_path_def json_in_def)
  have "parse_object (attempt_path root aid) (bytes_at w (attempt_path root aid)) = Inr (durable a)" using assms(1-3) by simp
  then show ?thesis
    unfolding attempt_messages_def Let_def p
    using assms(4-7) by (simp add: bind_readJson)
qed

text \<open>C34: an attempt created for a routing decision of this code passes the repository's own validation:
  its snapshot carries the exact route the decision selected, closed in every optional capability, the
  hash of the policy in force, and its task is on disk.  It holds for any time between the two calls.\<close>

theorem routed_attempt_validates:
  assumes "routeTask m root task w0 = (Inr gearbox, w1)"
    and "createAttempt acquireClaim root task gearbox w = (Inr res, w')"
    and "jwf task" "is_str (jget ''task_id'' task)"
  shows "\<exists>aid. jpath [''attempt'', ''attempt_id''] res = Str aid \<and> attempt_messages root (aid @ ''.json'') w' = (Inr [], w')"
proof -
  from routeTask_result [OF assms(1)] obtain policy0 d b did sha0 t0 where
      p0: "parse_object (p_policy (paths root)) (bytes_at w0 (p_policy (paths root))) = Inr policy0" and d: "jwf d"
      and g: "gearbox = gearbox_decision task policy0 d b did sha0 t0" by blast
  from createAttempt_result [OF assms(2)] obtain policy sv n claim w2 sha t aid where
      p: "parse_object (p_policy (paths root)) (bytes_at w (p_policy (paths root))) = Inr policy"
      and sv: "parse_object (p_supervisor (paths root)) (bytes_at w (p_supervisor (paths root))) = Inr sv"
      and sha: "jget ''operator_policy_sha256'' gearbox = Str sha"
      and acq: "acquireClaim root task (Str aid) w = (Inr claim, w2)"
      and rec: "record_attempt root task (attempt_record task gearbox claim (policy_snapshot task gearbox policy sv claim aid sha t)
        aid n) claim aid (w2\<lparr>ticks := Suc (ticks w2)\<rparr>) = (Inr res, w')"
    by blast
  let ?sn = "policy_snapshot task gearbox policy sv claim aid sha t"
  let ?a = "attempt_record task gearbox claim ?sn aid n"
  have "sha0 = sha" using sha by (simp add: g gearbox_fields)
  note j = assms(3) parse_object_jwf [OF p0] d parse_object_jwf [OF p] parse_object_jwf [OF sv] acquired_jwf [OF acq assms(3)]
  have exact: "exact_route_ok (durable ?a) (jget ''policy_snapshot'' (durable ?a))"
    by (rule exact_route_recorded [OF j _ refl refl]) (simp add: g \<open>sha0 = sha\<close>)
  have jg: "jwf gearbox" unfolding g by (rule jwf_gearbox [OF j(1-3)])
  have js: "jwf ?sn" by (rule jwf_snapshot [OF j(1) jg j(4-6)])
  have ja: "jwf ?a" by (rule jwf_attempt [OF j(1) jg j(6) js])
  obtain tid where tid: "jget ''task_id'' task = Str tid" using assms(4) by (cases "jget ''task_id'' task") auto
  have "attempt_messages root (aid @ ''.json'') w' = (Inr [], w')"
    using record_attempt_frame(2) [OF rec]
    by (intro attempt_file_clean [OF record_attempt_frame(1) [OF rec] ja attempt_fields(6) _ _ _ exact])
      (simp_all add: jget_read_back [OF ja] jget_read_back [OF js] attempt_fields snapshot_fields tid VALID_CHILD_STATES_def)
  moreover have "jpath [''attempt'', ''attempt_id''] res = Str aid"
    by (simp add: record_attempt_frame(3) [OF rec] attempt_fields)
  ultimately show ?thesis by blast
qed

section \<open>Routing and the hint\<close>

definition decided :: "string \<Rightarrow> (string \<Rightarrow> string \<Rightarrow> string \<Rightarrow> jv) \<Rightarrow> jv wio" where
  "decided root record =
     bind_io (id_new ''gearbox'') (\<lambda>did. bind_io (policyHash root) (\<lambda>sha. bind_io now (\<lambda>t. ret (record did sha t))))"

lemma decided_run:
  assumes "decided root record w = (Inr g, w')"
  shows "\<exists>did sha t. g = record did sha t \<and> (\<forall>record'. decided root record' w = (Inr (record' did sha t), w'))"
proof -
  from assms obtain sha where "policyHash root (w\<lparr>drawn := Suc (drawn w)\<rparr>) = (Inr sha, w\<lparr>drawn := Suc (drawn w)\<rparr>)"
    unfolding decided_def by (auto simp: policyHash_Inr elim!: bind_io_InrE)
  with assms show ?thesis unfolding decided_def by (auto simp: bind_io_Inr)
qed

lemma routeTask_decided:
  "routeTask m root task =
     bind_io (lift_io (validateTaskCommands task)) (\<lambda>_.
     bind_io (readJson (p_policy (paths root))) (\<lambda>policy.
     bind_io (discoverCapabilities m root) (\<lambda>discovery.
     bind_io (lift_io (select_route m policy task)) (\<lambda>selected.
     case selected of
       None \<Rightarrow> throw (Err ''no authorized, available, policy-permitted Gearbox route'')
     | Some b \<Rightarrow> decided root (gearbox_decision task policy discovery b)))))"
  unfolding routeTask_def decided_def by (rule refl)

lemma gearbox_hint:
  assumes "is_obj task"
  shows "jget ''selected_route'' (gearbox_decision (jset ''route_hint'' h task) policy d b did sha t)
      = jget ''selected_route'' (gearbox_decision task policy d b did sha t)"
    and "jget ''selected_capability'' (gearbox_decision (jset ''route_hint'' h task) policy d b did sha t)
      = jget ''selected_capability'' (gearbox_decision task policy d b did sha t)"
    and "jget ''selected_route_config'' (gearbox_decision (jset ''route_hint'' h task) policy d b did sha t)
      = jget ''selected_route_config'' (gearbox_decision task policy d b did sha t)"
  using assms by (simp_all add: gearbox_decision_def Let_def)

text \<open>C35: the route hint of a task is advisory only, as the source promises: for every other hint a route is
  found as well, with the same kind, capability and exact configuration, and with the same effects.\<close>

theorem route_hint_is_advisory:
  assumes "is_obj task" and "routeTask m root task w = (Inr g, w')"
  shows "\<exists>g'. routeTask m root (jset ''route_hint'' h task) w = (Inr g', w')
    \<and> jget ''selected_route'' g' = jget ''selected_route'' g \<and> jget ''selected_capability'' g' = jget ''selected_capability'' g
    \<and> jget ''selected_route_config'' g' = jget ''selected_route_config'' g"
proof -
  from assms(2) obtain policy d w1 sel t where
      v: "validateTaskCommands task = Inr t"
      and pol: "parse_object (p_policy (paths root)) (bytes_at w (p_policy (paths root))) = Inr policy"
      and dis: "discoverCapabilities m root w = (Inr d, w1)" and sel: "select_route m policy task = Inr sel"
      and rest: "(case sel of None \<Rightarrow> throw (Err ''no authorized, available, policy-permitted Gearbox route'')
         | Some b \<Rightarrow> decided root (gearbox_decision task policy d b)) w1 = (Inr g, w')"
    unfolding routeTask_decided by (elim bind_io_InrE) auto
  from rest obtain b where b: "sel = Some b" "decided root (gearbox_decision task policy d b) w1 = (Inr g, w')"
    by (cases sel) auto
  from decided_run [OF b(2)] obtain did sha t' where
      g: "g = gearbox_decision task policy d b did sha t'"
      and run: "\<And>record'. decided root record' w1 = (Inr (record' did sha t'), w')" by blast
  have "routeTask m root (jset ''route_hint'' h task) w
      = (Inr (gearbox_decision (jset ''route_hint'' h task) policy d b did sha t'), w')"
    unfolding routeTask_decided validate_commands_hint [OF assms(1)] select_route_hint [OF assms(1)]
    using v pol dis sel b(1) run by (simp add: bind_io_def)
  then show ?thesis unfolding g by (intro exI conjI, assumption) (rule gearbox_hint [OF assms(1)])+
qed

section \<open>Creating a task\<close>

lemma validateRelativePath_Inr:
  "validateRelativePath v = Inr u \<Longrightarrow> \<exists>s. v = Str s \<and> s \<noteq> [] \<and> \<not> starts_with ''/'' s \<and> ''..'' \<notin> set (split_on (CHR ''/'') s)"
  by (cases v) (auto simp: validateRelativePath_def Let_def guard_err_eq_Inr)

lemma validateHandoff_Inr:
  assumes "validateHandoff input = Inr v"
  shows "v = input" "elems (jget ''scope'' input) \<noteq> []" "elems (jget ''acceptance_criteria'' input) \<noteq> []"
    and "p \<in> set (elems (jpath [''authorization'', ''may_modify''] input)) \<Longrightarrow>
      \<exists>s. p = Str s \<and> s \<noteq> [] \<and> \<not> starts_with ''/'' s \<and> ''..'' \<notin> set (split_on (CHR ''/'') s)"
proof -
  from assms have "\<exists>us. map_err validateRelativePath (elems (jpath [''authorization'', ''may_modify''] input)) = Inr us
      \<and> v = input \<and> elems (jget ''scope'' input) \<noteq> [] \<and> elems (jget ''acceptance_criteria'' input) \<noteq> []"
    unfolding validateHandoff_def Let_def err_Inr_iff by blast
  then obtain us where us: "map_err validateRelativePath (elems (jpath [''authorization'', ''may_modify''] input)) = Inr us"
      and "v = input" "elems (jget ''scope'' input) \<noteq> []" "elems (jget ''acceptance_criteria'' input) \<noteq> []" by blast
  then show "v = input" "elems (jget ''scope'' input) \<noteq> []" "elems (jget ''acceptance_criteria'' input) \<noteq> []" by auto
  show "\<exists>s. p = Str s \<and> s \<noteq> [] \<and> \<not> starts_with ''/'' s \<and> ''..'' \<notin> set (split_on (CHR ''/'') s)"
    if "p \<in> set (elems (jpath [''authorization'', ''may_modify''] input))"
    using us that validateRelativePath_Inr by (auto simp: map_err_Inr list_all2_conv_all_nth in_set_conv_nth)
qed

lemma store_task_result:
  assumes "store_task root input objective sv tid w = (Inr task, w')"
  shows "bytes_at w (json_in (p_tasks (paths root)) (js_string tid)) = None"
    and "\<exists>t. task = task_record input objective sv tid t"
    and "bytes_at w' (json_in (p_tasks (paths root)) (js_string tid)) = Some (canonicalJson task)"
    and "p \<noteq> json_in (p_tasks (paths root)) (js_string tid) \<Longrightarrow> \<not> journal_path root p \<Longrightarrow> bytes_at w' p = bytes_at w p"
proof -
  let ?p = "json_in (p_tasks (paths root)) (js_string tid)"
  define w1 where "w1 = w\<lparr>ticks := Suc (ticks w)\<rparr>"
  from assms obtain ev where absent: "bytes_at w ?p = None"
      and t: "task = task_record input objective sv tid (clock w (ticks w))"
      and e: "emit root ''TASK_HANDOFF_CREATED'' (Obj [(''task_id'', tid)]) (put_file ?p (canonicalJson task) w1) = (Inr ev, w')"
    unfolding store_task_def Let_def w1_def by (auto simp: guard_io_eq_Inr elim!: bind_io_InrE)
  show "bytes_at w ?p = None" by (rule absent)
  show "\<exists>t. task = task_record input objective sv tid t" using t by blast
  have "\<not> journal_path root ?p" by (simp add: starts_with_def)
  then show "bytes_at w' ?p = Some (canonicalJson task)" using emit_effect(1) [OF e] by simp
  show "bytes_at w' p = bytes_at w p" if "p \<noteq> ?p" "\<not> journal_path root p"
    using emit_effect(1) [OF e that(2)] that(1) by (simp add: w1_def)
qed

lemma effective_keeps: "post (effectiveRequirementMatrix root b mt) w (\<lambda>r w'. w' = w)"
proof -
  have "reads_only (effectiveRequirementMatrix root b mt)"
    unfolding effectiveRequirementMatrix_def by (cases b; cases mt) (auto intro!: reads)
  then show ?thesis by (simp add: reads_only_def post_def)
qed

lemma createTask_result:
  assumes "createTask root input w = (Inr task, w')"
  shows "\<exists>objective requirements sv tid w1. validateHandoff input = Inr input
    \<and> parse_object (p_objective (paths root)) (bytes_at w (p_objective (paths root))) = Inr objective
    \<and> jget ''current_revision'' objective \<noteq> Num 0
    \<and> effectiveRequirementMatrix root None None w = (Inr requirements, w)
    \<and> (\<forall>ids. spread_list (jget ''requirement_ids'' input) = Inr ids \<longrightarrow> unknown_requirement requirements ids = None)
    \<and> parse_object (p_supervisor (paths root)) (bytes_at w (p_supervisor (paths root))) = Inr sv
    \<and> bytes_at w1 = bytes_at w \<and> store_task root input objective sv tid w1 = (Inr task, w')"
proof -
  from assms obtain input' objective requirements w1 ids where
      v: "validateHandoff input = Inr input'"
      and o1: "parse_object (p_objective (paths root)) (bytes_at w (p_objective (paths root))) = Inr objective"
        "jget ''current_revision'' objective \<noteq> Num 0"
      and m: "effectiveRequirementMatrix root None None w = (Inr requirements, w1)"
      and ids: "spread_list (jget ''requirement_ids'' input) = Inr ids"
      and rest: "(case unknown_requirement requirements ids of
         Some unknown \<Rightarrow> throw (Err (''unknown effective requirement: '' @ js_string unknown))
       | None \<Rightarrow> bind_io (readJson (p_supervisor (paths root))) (\<lambda>supervisor.
           bind_io (if nullish (jget ''task_id'' input) then bind_io (id_new ''task'') (\<lambda>i. ret (Str i))
                    else ret (jget ''task_id'' input)) (\<lambda>taskId.
           store_task root input objective supervisor taskId))) w1 = (Inr task, w')"
    unfolding createTask_def
    by (elim bind_io_InrE) (auto simp: guard_io_eq_Inr elim!: bind_io_InrE)
  have w1: "w1 = w" by (rule postD [OF effective_keeps m])
  have u: "unknown_requirement requirements ids = None" using rest by (cases "unknown_requirement requirements ids") auto
  with rest w1 obtain sv tid w2 where
      "parse_object (p_supervisor (paths root)) (bytes_at w (p_supervisor (paths root))) = Inr sv"
      and t: "(if nullish (jget ''task_id'' input) then bind_io (id_new ''task'') (\<lambda>i. ret (Str i))
                    else ret (jget ''task_id'' input)) w = (Inr tid, w2)"
      and "store_task root input objective sv tid w2 = (Inr task, w')"
    by (auto elim!: bind_io_InrE)
  moreover have "bytes_at w2 = bytes_at w" using t by (auto simp: fun_eq_iff split: if_splits)
  ultimately show ?thesis using v validateHandoff_Inr(1) [OF v] o1 m w1 u ids by auto
qed


section \<open>Witnesses\<close>

definition hand_input :: jv where
  "hand_input = Obj [
     (''title'', Str ''T''), (''objective'', Str ''O''), (''scope'', Arr [Str ''s'']),
     (''authorization'', Obj [(''may_modify'', Arr [Str ''src/a.js'']), (''may_not'', Arr [])]),
     (''expected_deliverable'', Str ''D''), (''expected_evidence'', Arr []), (''acceptance_criteria'', Arr [Str ''c'']),
     (''prohibited_actions'', Arr []), (''requirement_ids'', Arr []), (''task_id'', Str ''t1''),
     (''deterministic_command'', Arr [Str ''/bin/true''])]"

definition hand_objective :: jv where
  "hand_objective = Obj [(''current_revision'', Num 1), (''objective_id'', Str ''o1'')]"

definition hand_state :: jv where
  "hand_state = Obj [(''supervisor_state'', Str ''ACTIVE'')]"

definition hand_policy :: jv where
  "hand_policy = Obj [(''version'', Num 1)]"

definition hand_task :: jv where
  "hand_task = Obj [(''attempts'', Arr []), (''deterministic_command'', Arr [Str ''/bin/true'']),
     (''supervisor_id'', Str ''sup-1''), (''task_id'', Str ''t1'')]"

definition hand_world :: "(string \<times> string) list \<Rightarrow> world" where
  "hand_world more_files = \<lparr>files = [(''/.opsle/supervisor.json'', canonicalJson demo_supervisor),
       (''/.opsle/objective.json'', canonicalJson hand_objective),
       (''/.opsle/state.json'', canonicalJson hand_state),
       (''/.opsle/policy.json'', canonicalJson hand_policy)] @ more_files,
     dirs = [], clock = (\<lambda>n. ''T''), ticks = 0, uuids = nat_str, drawn = 0, digest = id\<rparr>"

definition all_machine :: machine where
  "all_machine = \<lparr>path_variable = ''/bin'', current_dir = ''/'', can_execute = (\<lambda>p. True),
     spawn = (\<lambda>p args. \<lparr>spawn_failed = False, exit_status = Some 0, spawn_out = ''1.0'', spawn_err = ''''\<rparr>)\<rparr>"

lemma hand_records:
  "durable hand_objective = hand_objective" "durable hand_state = hand_state" "durable hand_policy = hand_policy"
  "durable hand_task = hand_task" "jwf hand_task" "is_obj hand_task" "jwf hand_objective" "jwf hand_state" "jwf hand_policy"
  "is_obj hand_objective" "is_obj hand_state" "is_obj hand_policy"
  by code_simp+

lemma hand_files:
  "parse_object (p_supervisor (paths [])) (bytes_at (hand_world fs) (p_supervisor (paths []))) = Inr (durable demo_supervisor)"
  "parse_object (p_objective (paths [])) (bytes_at (hand_world fs) (p_objective (paths []))) = Inr hand_objective"
  "parse_object (p_state (paths [])) (bytes_at (hand_world fs) (p_state (paths []))) = Inr hand_state"
  "parse_object (p_policy (paths [])) (bytes_at (hand_world fs) (p_policy (paths []))) = Inr hand_policy"
  by (simp_all add: hand_world_def bytes_at_def hand_records demo_jwf demo_supervisor_def)

lemma hand_input_valid: "validateHandoff hand_input = Inr hand_input"
  by code_simp

lemma hand_no_matrix: "effectiveRequirementMatrix [] None None (hand_world []) = (Inr Null, hand_world [])"
  by (simp add: effectiveRequirementMatrix_def effective_of_def checked_matrix_def bind_io_def readOptional_run hand_world_def bytes_at_def)

lemma hand_created: "\<exists>task w'. createTask [] hand_input (hand_world []) = (Inr task, w')"
proof -
  let ?w1 = "(hand_world [])\<lparr>ticks := 1\<rparr>"
  let ?p = "json_in (p_tasks (paths [])) ''t1''"
  let ?t = "task_record hand_input hand_objective (durable demo_supervisor) (Str ''t1'') ''T''"
  have "parse_object (p_supervisor (paths [])) (bytes_at (put_file ?p (canonicalJson ?t) ?w1) (p_supervisor (paths [])))
      = Inr (durable demo_supervisor)"
    using hand_files(1) [of "[]"] by (simp add: json_in_def)
  then obtain ev w' where e: "emit [] ''TASK_HANDOFF_CREATED'' (Obj [(''task_id'', Str ''t1'')]) (put_file ?p (canonicalJson ?t) ?w1) = (Inr ev, w')"
    using emit_ok by blast
  have f: "bytes_at (hand_world []) ?p = None" "clock (hand_world []) (ticks (hand_world [])) = ''T''" "ticks (hand_world []) = 0"
    by (simp_all add: hand_world_def bytes_at_def json_in_def)
  have "store_task [] hand_input hand_objective (durable demo_supervisor) (Str ''t1'') (hand_world []) = (Inr ?t, w')"
    using e f by (simp add: store_task_def Let_def bind_io_Inr)
  moreover have "jget ''current_revision'' hand_objective = Num 1" "jget ''requirement_ids'' hand_input = Arr []"
      "jget ''task_id'' hand_input = Str ''t1''"
    by (simp_all add: hand_objective_def hand_input_def)
  ultimately show ?thesis
    using hand_files(1,2) [of "[]"] hand_no_matrix hand_input_valid
    by (simp add: createTask_def bind_io_def has_length_def unknown_requirement_def)
qed


abbreviation hand_disk :: world where
  "hand_disk \<equiv> hand_world [(''/.opsle/tasks/t1.json'', canonicalJson hand_task)]"

lemma hand_siblings: "sibling_entry [] name hand_disk
    = (Inr (Obj [(''available'', JBool False), (''path'', Str (resolve_path [] ''..'' @ ''/'' @ name)), (''revision'', Null)]), hand_disk)"
proof -
  have "resolve_path [] ''..'' = ''/''" by code_simp
  then show ?thesis
    by (simp add: sibling_entry_def Let_def bind_io_def existsPath_def path_exists_def dir_exists_def hand_world_def bytes_at_def starts_with_def)
qed

lemma hand_discovered: "\<exists>d. discoverCapabilities all_machine [] hand_disk = (Inr d, hand_disk\<lparr>ticks := 1\<rparr>)"
  by (simp add: discoverCapabilities_def sibling_names_def bind_io_def hand_siblings) (simp add: hand_world_def)

lemma hand_routed: "\<exists>d did t w'. routeTask all_machine [] hand_task hand_disk
    = (Inr (gearbox_decision hand_task hand_policy d True did (canonicalJson hand_policy) t), w')"
proof -
  obtain d where d: "discoverCapabilities all_machine [] hand_disk = (Inr d, hand_disk\<lparr>ticks := 1\<rparr>)" using hand_discovered by blast
  have v: "validateTaskCommands hand_task = Inr hand_task" "select_route all_machine hand_policy hand_task = Inr (Some True)" by code_simp+
  have p: "bytes_at hand_disk (p_policy (paths [])) = Some (canonicalJson hand_policy)" "digest hand_disk = id"
    by (simp_all add: hand_world_def bytes_at_def)
  have "\<exists>did t w'. decided [] mk (hand_disk\<lparr>ticks := 1\<rparr>) = (Inr (mk did (canonicalJson hand_policy) t), w')" for mk
  proof -
    have "policyHash [] (hand_disk\<lparr>ticks := 1, drawn := n\<rparr>) = (Inr (canonicalJson hand_policy), hand_disk\<lparr>ticks := 1, drawn := n\<rparr>)" for n
      using p by (simp add: policyHash_Inr)
    then show ?thesis by (simp add: decided_def bind_io_Inr) blast
  qed
  then obtain did t w' where "decided [] (gearbox_decision hand_task hand_policy d True) (hand_disk\<lparr>ticks := 1\<rparr>)
      = (Inr (gearbox_decision hand_task hand_policy d True did (canonicalJson hand_policy) t), w')"
    by blast
  with v d hand_files(4) have "routeTask all_machine [] hand_task hand_disk
      = (Inr (gearbox_decision hand_task hand_policy d True did (canonicalJson hand_policy) t), w')"
    by (simp add: routeTask_decided bind_io_def)
  then show ?thesis by blast
qed

theorem route_hint_is_advisory_witness:
  "\<exists>g g' w'. routeTask all_machine [] hand_task hand_disk = (Inr g, w')
    \<and> routeTask all_machine [] (jset ''route_hint'' (Str ''codex'') hand_task) hand_disk = (Inr g', w')
    \<and> jget ''selected_route'' g' = jget ''selected_route'' g"
proof -
  obtain g w' where run: "routeTask all_machine [] hand_task hand_disk = (Inr g, w')" using hand_routed by blast
  from route_hint_is_advisory [OF hand_records(6) run] run show ?thesis by blast
qed

lemma updateState_ok:
  assumes "parse_object (p_state (paths root)) (bytes_at w (p_state (paths root))) = Inr st"
    and "in_strs VALID_SUPERVISOR_STATES (jget ''supervisor_state'' (jspread st patch))" "is_obj (jspread st patch)"
  shows "\<exists>u. updateState root patch w = (Inr u, put_file (p_state (paths root)) (canonicalJson u) (w\<lparr>ticks := Suc (ticks w)\<rparr>))"
  using assms by (simp add: updateState_def Let_def bind_readJson)

lemma hand_attempted:
  assumes "jget ''schema'' g = Str gearbox_schema" "jget ''operator_policy_sha256'' g = Str (canonicalJson hand_policy)"
    and "jget ''selected_route'' g = Str ''deterministic''"
    and "jget ''selected_route_config'' g = deterministic_route (jget ''deterministic_command'' hand_task)" "is_obj g"
  shows "\<exists>res w'. createAttempt acquireClaim [] hand_task g hand_disk = (Inr res, w')"
proof -
  let ?aid = "''t1-attempt-001''"
  have files: "bytes_at hand_disk (p_policy (paths [])) = Some (canonicalJson hand_policy)" "digest hand_disk = id"
      "bytes_at hand_disk (json_in (p_tasks (paths [])) ''t1'') = Some (canonicalJson hand_task)"
      "cas_lock (claim_index_path []) \<notin> set (dirs hand_disk)" "index_of [] hand_disk = Inr empty_index"
    by (simp_all add: hand_world_def bytes_at_def json_in_def index_of_def claim_index_path_def parse_index_def)
  have fields: "jget ''task_id'' hand_task = Str ''t1''" "jget ''state'' hand_task = Undef" "attempt_number hand_task = Inr 1"
      "js_string (Str ''t1'') @ ''-attempt-'' @ pad3 1 = ?aid"
      "claim_conflict empty_index (jget ''task_id'' hand_task) (task_names empty_index) = Inr ()"
      "strict_eq (jget ''supervisor_id'' hand_task) (jget ''supervisor_id'' (durable demo_supervisor))"
      "validateTaskCommands hand_task = Inr hand_task" "0 < CLAIM_INDEX_CAS_ATTEMPTS"
      "command_route_matches hand_task (deterministic_route (jget ''deterministic_command'' hand_task))"
    by code_simp+
  from acquire_loop_uncontended [OF files(5) fields(5) files(4) hand_files(1) fields(8), of "Str ?aid"]
  obtain claim w1 where l: "acquire_loop CLAIM_INDEX_CAS_ATTEMPTS [] (durable demo_supervisor) hand_task (Str ?aid) hand_disk = (Inr claim, w1)"
    by blast
  have acq: "acquireClaim [] hand_task (Str ?aid) hand_disk = (Inr claim, w1)"
    using files(3) hand_files(1) l fields(1,6) hand_records
    by (simp add: acquireClaim_def Let_def bind_readJson)
  note keep = acquireClaim_keeps_policy [OF acq]
  from acquireClaim_result [OF acq] obtain sv where a: "acquired [] sv hand_task (Str ?aid) hand_disk claim w1" by auto
  have other: "bytes_at w1 p = bytes_at hand_disk p" if "\<not> starts_with ''/.opsle/claims/'' p" "\<not> journal_path [] p" for p
  proof -
    have "p \<noteq> claim_index_path []" "p \<noteq> claim_file [] claim"
      using that(1) by (auto simp: claim_index_path_def claim_file_def json_in_def starts_with_def)
    then show ?thesis using a that(2) unfolding acquired_def by blast
  qed
  have state: "parse_object (p_state (paths [])) (bytes_at w1 (p_state (paths []))) = Inr hand_state"
    using other [of "''/.opsle/state.json''"] hand_files(3) by (simp add: starts_with_def journal_path_def)
  have sup: "parse_object (p_supervisor (paths [])) (bytes_at w1 (p_supervisor (paths []))) = Inr (durable demo_supervisor)"
    using other [of "''/.opsle/supervisor.json''"] hand_files(1) by (simp add: starts_with_def journal_path_def)
  have rec: "\<exists>res w'. record_attempt [] hand_task attempt claim ?aid (w1\<lparr>ticks := n\<rparr>) = (Inr res, w')" for attempt n
  proof -
    let ?patch = "Obj [(''active_task_id'', Str ''t1''), (''active_attempt_id'', Str ?aid)]"
    define w2 where "w2 = put_file (json_in ''/.opsle/tasks'' ''t1'') (canonicalJson (queued_task hand_task ?aid))
       (put_file (json_in ''/.opsle/children'' ?aid) (canonicalJson attempt) (w1\<lparr>ticks := n\<rparr>))"
    have "parse_object (p_state (paths [])) (bytes_at w2 (p_state (paths []))) = Inr hand_state"
      using state by (simp add: w2_def json_in_def)
    moreover have "in_strs VALID_SUPERVISOR_STATES (jget ''supervisor_state'' (jspread hand_state ?patch))"
        "is_obj (jspread hand_state ?patch)" by code_simp+
    ultimately obtain u where u: "updateState [] ?patch w2 = (Inr u, put_file (p_state (paths [])) (canonicalJson u) (w2\<lparr>ticks := Suc (ticks w2)\<rparr>))"
      using updateState_ok by blast
    let ?w3 = "put_file (p_state (paths [])) (canonicalJson u) (w2\<lparr>ticks := Suc (ticks w2)\<rparr>)"
    have "parse_object (p_supervisor (paths [])) (bytes_at ?w3 (p_supervisor (paths []))) = Inr (durable demo_supervisor)"
      using sup by (simp add: w2_def json_in_def)
    then obtain ev w4 where "emit [] ''ATTEMPT_CREATED'' (Obj [(''task_id'', Str ''t1''), (''attempt_id'', Str ?aid),
       (''claim_id'', jget ''claim_id'' claim)]) ?w3 = (Inr ev, w4)"
      using emit_ok by blast
    then show ?thesis using u by (simp add: record_attempt_def Let_def fields(1) w2_def [symmetric] bind_io_Inr)
  qed
  have h: "policyHash [] hand_disk = (Inr (canonicalJson hand_policy), hand_disk)" "policyHash [] w1 = (Inr (canonicalJson hand_policy), w1)"
    using files(1,2) keep by (simp_all add: policyHash_Inr)
  have c: "check_route hand_policy hand_task g = Inr ()" using assms(3,4) fields(9) by (simp add: check_route_def)
  have "jdot ''selected_route_config'' g = Inr (deterministic_route (jget ''deterministic_command'' hand_task))"
    using assms(4,5) by (simp add: jdot_def is_obj_not_nullish)
  then show ?thesis
    using assms(1,2) h c acq rec hand_files(1,4) fields
    by (simp add: createAttempt_def Let_def bind_io_Inr route_schemas)
qed

theorem routed_attempt_validates_witness:
  "\<exists>g res w0 w' aid. routeTask all_machine [] hand_task hand_disk = (Inr g, w0)
    \<and> createAttempt acquireClaim [] hand_task g hand_disk = (Inr res, w')
    \<and> attempt_messages [] (aid @ ''.json'') w' = (Inr [], w')"
proof -
  obtain d did t w0 g where run: "routeTask all_machine [] hand_task hand_disk = (Inr g, w0)"
      and g: "g = gearbox_decision hand_task hand_policy d True did (canonicalJson hand_policy) t"
    using hand_routed by blast
  have "is_obj g" by (simp add: g gearbox_decision_def Let_def)
  then obtain res w' where att: "createAttempt acquireClaim [] hand_task g hand_disk = (Inr res, w')"
    using hand_attempted [of g] g by (auto simp: gearbox_fields)
  have "is_str (jget ''task_id'' hand_task)" by (simp add: hand_task_def)
  from routed_attempt_validates [OF run att hand_records(5) this] run att show ?thesis by blast
qed

end
