(* ===== verification/HostLock.thy ===== *)
theory HostLock imports Events ReadBack begin

text \<open>
  Host locks (src/host-lock.js): a directory that holds the identity of its owner.  A lock whose
  owner died is retired by the first live contender.  Calls are atomic here; the identity of a
  running process (\<open>processStartIdentity\<close>, which reads /proc) is the argument \<open>identity\<close>.
\<close>

definition HOST_LOCK_SCHEMA :: string where
  "HOST_LOCK_SCHEMA = ''opsle.durable-supervisor.host-lock/v1''"

section \<open>Owners\<close>

definition sameProcessIdentity :: "jv \<Rightarrow> jv \<Rightarrow> bool" where
  "sameProcessIdentity left right \<longleftrightarrow> \<not> nullish left \<and> \<not> nullish right
     \<and> strict_eq (jget ''pid'' left) (jget ''pid'' right)
     \<and> strict_eq (jget ''start_time_ticks'' left) (jget ''start_time_ticks'' right)
     \<and> strict_eq (jget ''executable'' left) (jget ''executable'' right)"

definition exactProcessIdentity :: "jv \<Rightarrow> bool" where
  "exactProcessIdentity v \<longleftrightarrow> pos_safe (jget ''pid'' v)
     \<and> is_str (jget ''start_time_ticks'' v) \<and> str_of (jget ''start_time_ticks'' v) \<noteq> []
     \<and> is_str (jget ''executable'' v) \<and> starts_with ''/'' (str_of (jget ''executable'' v))"

definition owner_file :: "string \<Rightarrow> string" where
  "owner_file lockPath = lockPath @ ''/owner.json''"

definition valid_owner :: "string \<Rightarrow> jv \<Rightarrow> bool" where
  "valid_owner text owner \<longleftrightarrow> text = canonicalJson owner
     \<and> jget ''schema'' owner = Str HOST_LOCK_SCHEMA
     \<and> exactProcessIdentity (jget ''process'' owner)
     \<and> is_str (jget ''acquired_at'' owner)
     \<and> join_with '','' (sort (keys_of owner)) = ''acquired_at,process,schema''"

text \<open>The owner and the bytes of its record, \<open>None\<close> when there is none or it is not exact.\<close>

definition owner_in :: "world \<Rightarrow> string \<Rightarrow> (jv \<times> string) option" where
  "owner_in w lockPath = (case bytes_at w (owner_file lockPath) of
       None \<Rightarrow> None
     | Some text \<Rightarrow> (case jparse text of
         None \<Rightarrow> None
       | Some owner \<Rightarrow> if valid_owner text owner then Some (owner, text) else None))"

definition readOwner :: "string \<Rightarrow> (jv \<times> string) option wio" where
  "readOwner lockPath w = (Inr (owner_in w lockPath), w)"

section \<open>Directories\<close>

definition under :: "string \<Rightarrow> string \<Rightarrow> bool" where
  "under d p \<longleftrightarrow> p = d \<or> starts_with (d @ ''/'') p"

text \<open>\<open>rmSync(d, { recursive: true, force: true })\<close>\<close>

definition rmTree :: "string \<Rightarrow> unit wio" where
  "rmTree d w = (Inr (), w\<lparr>files := filter (\<lambda>pb. \<not> under d (fst pb)) (files w), dirs := filter (\<lambda>p. \<not> under d p) (dirs w)\<rparr>)"

definition entry_names :: "string \<Rightarrow> world \<Rightarrow> string list" where
  "entry_names d w = sort (remdups (map (\<lambda>pb. takeWhile (\<lambda>c. c \<noteq> CHR ''/'') (drop (length d + 1) (fst pb)))
     (filter (\<lambda>pb. starts_with (d @ ''/'') (fst pb)) (files w))))"

definition readdirNames :: "string \<Rightarrow> string list wio" where
  "readdirNames d w = (Inr (entry_names d w), w)"

text \<open>
  \<open>renameSync(candidate, lockPath)\<close> of a directory that holds the owner record: it replaces
  nothing or an empty directory, and fails on a file.
\<close>

definition install_lock :: "string \<Rightarrow> jv \<Rightarrow> bool wio" where
  "install_lock lockPath owner w =
     (if bytes_at w lockPath \<noteq> None then (Inl (Coded ''ENOTDIR'' (''not a directory: '' @ lockPath)), w)
      else if list_ex (\<lambda>pb. starts_with (lockPath @ ''/'') (fst pb)) (files w) then (Inr False, w)
      else (Inr True, put_file (owner_file lockPath) (canonicalJson owner) w))"

section \<open>Retiring a stale lock\<close>

definition takeoverName :: "jv \<Rightarrow> string" where
  "takeoverName p = js_string (jget ''pid'' p) @ ''-'' @
     map (\<lambda>c. if (CHR ''0'' \<le> c \<and> c \<le> CHR ''9'') \<or> (CHR ''A'' \<le> c \<and> c \<le> CHR ''Z'') \<or> (CHR ''a'' \<le> c \<and> c \<le> CHR ''z'')
         \<or> c = CHR ''.'' \<or> c = CHR ''-'' then c else CHR ''_'') (js_string (jget ''start_time_ticks'' p))"

definition lock_owner :: "jv \<Rightarrow> string \<Rightarrow> jv" where
  "lock_owner processIdentity t = Obj [
     (''schema'', Str HOST_LOCK_SCHEMA),
     (''process'', processIdentity),
     (''acquired_at'', Str t)]"

definition live_owner :: "(jv \<Rightarrow> jv) \<Rightarrow> jv \<Rightarrow> bool" where
  "live_owner identity owner \<longleftrightarrow>
     sameProcessIdentity (jget ''process'' owner) (identity (jpath [''process'', ''pid''] owner))"

fun live_candidates :: "(jv \<Rightarrow> jv) \<Rightarrow> string \<Rightarrow> string list \<Rightarrow> string list wio" where
  "live_candidates identity takeovers [] = ret []"
| "live_candidates identity takeovers (name # names) =
     (let path = takeovers @ ''/'' @ name in
     bind_io (readOwner path) (\<lambda>contender.
     if (case contender of None \<Rightarrow> True | Some (owner, text) \<Rightarrow> \<not> live_owner identity owner)
     then bind_io (rmTree path) (\<lambda>_. live_candidates identity takeovers names)
     else bind_io (live_candidates identity takeovers names) (\<lambda>rest. ret (name # rest))))"

definition still_owned :: "string \<Rightarrow> string \<Rightarrow> bool wio" where
  "still_owned lockPath text = bind_io (readOwner lockPath) (\<lambda>o1.
     ret (case o1 of None \<Rightarrow> False | Some (owner, bytes) \<Rightarrow> bytes = text))"

text \<open>The first live contender, in name order, moves the lock away and removes it.\<close>

definition retireStaleLock :: "(jv \<Rightarrow> jv) \<Rightarrow> string \<Rightarrow> string \<Rightarrow> jv \<Rightarrow> bool wio" where
  "retireStaleLock identity lockPath observed me =
     (let takeovers = lockPath @ ''/.takeovers''; candidate = takeovers @ ''/'' @ takeoverName me;
          withdraw = bind_io (rmTree candidate) (\<lambda>_. ret False) in
     bind_io now (\<lambda>t.
     bind_io (writeJson (owner_file candidate) (lock_owner me t)) (\<lambda>_.
     bind_io (still_owned lockPath observed) (\<lambda>current.
     if \<not> current then withdraw
     else
       bind_io (readdirNames takeovers) (\<lambda>names.
       bind_io (live_candidates identity takeovers names) (\<lambda>live.
       if live = [] \<or> hd live \<noteq> takeoverName me then withdraw
       else
         bind_io (still_owned lockPath observed) (\<lambda>confirmed.
         if \<not> confirmed then withdraw
         else bind_io (rmTree lockPath) (\<lambda>_. ret True))))))))"

section \<open>Acquiring and releasing\<close>

fun lock_attempts :: "nat \<Rightarrow> (jv \<Rightarrow> jv) \<Rightarrow> string \<Rightarrow> jv \<Rightarrow> jv \<Rightarrow> bool wio" where
  "lock_attempts 0 identity lockPath me owner = ret False"
| "lock_attempts (Suc n) identity lockPath me owner =
     bind_io (install_lock lockPath owner) (\<lambda>installed.
     if installed then ret True
     else
       bind_io (readOwner lockPath) (\<lambda>observed.
       bind_io (case observed of
           Some (holder, text) \<Rightarrow> if live_owner identity holder then ret False else retireStaleLock identity lockPath text me
         | None \<Rightarrow> ret False) (\<lambda>_.
       lock_attempts n identity lockPath me owner)))"

definition acquireHostLock :: "nat \<Rightarrow> (jv \<Rightarrow> jv) \<Rightarrow> string \<Rightarrow> jv \<Rightarrow> jv wio" where
  "acquireHostLock attempts identity lockPath pid =
     guard_io (attempts < 1) (Err ''host lock attempts must be a positive integer'') (
     let me = identity pid in
     guard_io (\<not> exactProcessIdentity me) (Err ''host lock requires exact owner PID, process start ticks, and executable'') (
     bind_io now (\<lambda>t.
     let owner = lock_owner me t in
     bind_io (lock_attempts attempts identity lockPath me owner) (\<lambda>held.
     guard_io (\<not> held) (Coded ''BUSY'' (''BUSY: host lock did not become available after '' @ nat_str attempts @ '' attempts: '' @ lockPath)) (
     ret owner)))))"

text \<open>\<open>release()\<close> of a held lock; \<open>released\<close> is the flag of its closure.\<close>

definition releaseHostLock :: "bool \<Rightarrow> string \<Rightarrow> jv \<Rightarrow> bool wio" where
  "releaseHostLock released lockPath owner =
     (if released then ret False
      else
        bind_io (readOwner lockPath) (\<lambda>observed.
        case observed of
          None \<Rightarrow> ret False
        | Some (holder, text) \<Rightarrow>
            if canonicalJson holder \<noteq> canonicalJson owner then ret False
            else bind_io (rmTree lockPath) (\<lambda>_. ret True)))"

section \<open>Laws\<close>

lemma bytes_at_rmTree [simp]: "bytes_at (snd (rmTree d w)) p = (if under d p then None else bytes_at w p)"
proof -
  have "map_of (filter (\<lambda>pb. \<not> under d (fst pb)) fs) p = (if under d p then None else map_of fs p)" for fs :: "(string \<times> string) list"
    by (induction fs) auto
  then show ?thesis by (simp add: rmTree_def bytes_at_def)
qed

lemma rmTree_Inr [simp]: "fst (rmTree d w) = Inr ()"
  by (simp add: rmTree_def)

lemma rmTree_files: "pb \<in> set (files (snd (rmTree d w))) \<longleftrightarrow> pb \<in> set (files w) \<and> \<not> under d (fst pb)"
  by (simp add: rmTree_def)

lemma post_rmTree [wp]: "post (rmTree d) w Q \<longleftrightarrow> Q (Inr ()) (snd (rmTree d w))"
  by (simp add: post_def)

lemma post_readOwner [wp]: "post (readOwner p) w Q \<longleftrightarrow> Q (Inr (owner_in w p)) w"
  by (simp add: post_def readOwner_def)

lemma keys_of_durable: "sort (keys_of (durable (Obj kvs))) = sort (map fst (filter (\<lambda>kv. snd kv \<noteq> Undef) kvs))"
proof -
  have "map fst (sort_key fst xs) = sort (map fst xs)" for xs :: "(string \<times> jv) list"
    by (rule properties_for_sort [symmetric]) simp_all
  then show ?thesis by (simp add: durable_def comp_def sort_key_stable_idem)
qed

lemma lock_owner_fields:
  "jget ''schema'' (lock_owner me t) = Str HOST_LOCK_SCHEMA" "jget ''process'' (lock_owner me t) = me"
  "jget ''acquired_at'' (lock_owner me t) = Str t" "is_obj (lock_owner me t)" "jwf me \<Longrightarrow> jwf (lock_owner me t)"
  by (simp_all add: lock_owner_def)

lemma exact_identity_durable: "jwf v \<Longrightarrow> exactProcessIdentity (durable v) = exactProcessIdentity v"
  by (simp add: exactProcessIdentity_def read_back pos_safe_def)

lemma same_identity_durable: "jwf v \<Longrightarrow> sameProcessIdentity (durable v) u = sameProcessIdentity v u"
  by (simp add: sameProcessIdentity_def read_back)

lemma exact_identity_some: "exactProcessIdentity v \<Longrightarrow> v \<noteq> Undef"
  by (auto simp: exactProcessIdentity_def pos_safe_def)

lemma lock_owner_reads_back:
  assumes "exactProcessIdentity me" "jwf me"
    and "bytes_at w (owner_file lockPath) = Some (canonicalJson (lock_owner me t))"
  shows "owner_in w lockPath = Some (durable (lock_owner me t), canonicalJson (lock_owner me t))"
proof -
  have j: "jwf (lock_owner me t)" by (rule lock_owner_fields(5) [OF assms(2)])
  have n: "lock_owner me t \<noteq> Undef" by (simp add: lock_owner_def)
  have "sort (keys_of (durable (lock_owner me t))) = sort [''schema'', ''process'', ''acquired_at'']"
    unfolding lock_owner_def keys_of_durable using exact_identity_some [OF assms(1)] by simp
  also have "\<dots> = [''acquired_at'', ''process'', ''schema'']" by code_simp
  finally have k: "join_with '','' (sort (keys_of (durable (lock_owner me t)))) = ''acquired_at,process,schema''" by simp
  have "valid_owner (canonicalJson (lock_owner me t)) (durable (lock_owner me t))"
    unfolding valid_owner_def k
    using assms by (simp add: jget_read_back [OF j] lock_owner_fields exact_identity_durable)
  then show ?thesis using assms(3) jparse_canonicalJson [OF j n] by (simp add: owner_in_def)
qed

lemma live_lock_owner:
  "jwf me \<Longrightarrow> live_owner identity (durable (lock_owner me t)) \<longleftrightarrow> sameProcessIdentity me (identity (durable (jget ''pid'' me)))"
  using lock_owner_fields(5) [of me t]
  by (simp add: live_owner_def jget_read_back same_identity_durable lock_owner_fields)

lemma file_present:
  assumes "bytes_at w (owner_file p) \<noteq> None"
  shows "list_ex (\<lambda>pb. starts_with (p @ ''/'') (fst pb)) (files w)"
proof -
  from assms obtain b where "map_of (files w) (owner_file p) = Some b" by (auto simp: bytes_at_def)
  then have "(owner_file p, b) \<in> set (files w)" by (rule map_of_SomeD)
  moreover have "starts_with (p @ ''/'') (owner_file p)"
    using starts_with_append [of "p @ ''/''" "''owner.json''"] by (simp add: owner_file_def)
  ultimately show ?thesis unfolding list_ex_iff by (metis fst_conv)
qed

lemma owner_in_present: "owner_in w p = Some x \<Longrightarrow> bytes_at w (owner_file p) \<noteq> None"
  by (auto simp: owner_in_def split: option.splits)

text \<open>An attempt that returns \<open>True\<close> installed the caller's record.\<close>

lemma install_result:
  assumes "install_lock lockPath owner w = (r, w')"
  shows "(r = Inr True \<and> \<not> list_ex (\<lambda>pb. starts_with (lockPath @ ''/'') (fst pb)) (files w)
      \<and> w' = put_file (owner_file lockPath) (canonicalJson owner) w) \<or> (r \<noteq> Inr True \<and> w' = w)"
  using assms by (auto simp: install_lock_def split: if_splits)

lemma attempts_held:
  "lock_attempts n identity lockPath me owner w = (Inr True, w') \<Longrightarrow>
     bytes_at w' (owner_file lockPath) = Some (canonicalJson owner)"
proof (induction n arbitrary: w)
  case (Suc n)
  from Suc.prems obtain installed w1 where
      i: "install_lock lockPath owner w = (Inr installed, w1)"
      and rest: "(if installed then ret True else bind_io (readOwner lockPath) (\<lambda>observed.
       bind_io (case observed of
           Some (holder, text) \<Rightarrow> if live_owner identity holder then ret False else retireStaleLock identity lockPath text me
         | None \<Rightarrow> ret False) (\<lambda>_.
       lock_attempts n identity lockPath me owner))) w1 = (Inr True, w')"
    unfolding lock_attempts.simps by (rule bind_io_InrE)
  show ?case
  proof (cases installed)
    case True
    with install_result [OF i] rest show ?thesis by auto
  next
    case False
    with rest show ?thesis using Suc.IH by (auto elim!: bind_io_InrE)
  qed
qed simp

lemma attempts_against_live:
  assumes "owner_in w lockPath = Some (holder, text)" "live_owner identity holder"
  shows "lock_attempts n identity lockPath me owner w = (Inr False, w)
      \<or> (\<exists>e. lock_attempts n identity lockPath me owner w = (Inl e, w))"
proof (induction n)
  case (Suc n)
  have "list_ex (\<lambda>pb. starts_with (lockPath @ ''/'') (fst pb)) (files w)"
    by (rule file_present [OF owner_in_present [OF assms(1)]])
  then show ?case using Suc assms by (auto simp: install_lock_def bind_io_def readOwner_def)
qed simp

lemma acquireHostLock_Inr:
  assumes "acquireHostLock n identity lockPath pid w = (Inr owner, w')"
  shows "exactProcessIdentity (identity pid)" "\<exists>t. owner = lock_owner (identity pid) t"
    "bytes_at w' (owner_file lockPath) = Some (canonicalJson owner)"
  using assms unfolding acquireHostLock_def Let_def
  by (auto simp: guard_io_eq_Inr elim!: bind_io_InrE dest: attempts_held)

lemma acquire_against_live:
  assumes "owner_in w lockPath = Some (holder, text)" "live_owner identity holder"
  shows "isl (fst (acquireHostLock n identity lockPath pid w))
    \<and> bytes_at (snd (acquireHostLock n identity lockPath pid w)) = bytes_at w"
proof -
  let ?w1 = "w\<lparr>ticks := Suc (ticks w)\<rparr>" and ?owner = "lock_owner (identity pid) (clock w (ticks w))"
  have "owner_in ?w1 lockPath = Some (holder, text)" using assms(1) by (simp add: owner_in_def)
  from attempts_against_live [OF this assms(2)]
  have "lock_attempts n identity lockPath (identity pid) ?owner ?w1 = (Inr False, ?w1)
      \<or> (\<exists>e. lock_attempts n identity lockPath (identity pid) ?owner ?w1 = (Inl e, ?w1))" .
  moreover have "bytes_at ?w1 = bytes_at w" by (simp add: fun_eq_iff)
  ultimately show ?thesis
    by (auto simp: acquireHostLock_def Let_def guard_io_def bind_io_def)
qed

lemma held_by_caller:
  assumes "acquireHostLock n identity lockPath pid w = (Inr owner, w')" "jwf (identity pid)"
  shows "owner_in w' lockPath = Some (durable owner, canonicalJson owner)"
proof -
  from acquireHostLock_Inr [OF assms(1)] obtain t where "owner = lock_owner (identity pid) t"
      "bytes_at w' (owner_file lockPath) = Some (canonicalJson owner)" "exactProcessIdentity (identity pid)" by blast
  with lock_owner_reads_back [OF _ assms(2)] show ?thesis by simp
qed

text \<open>C37: a granted host lock excludes everyone else while its owner runs: no other process acquires it, however
  often it tries, and no one releases it without presenting the owner's own record; the refused calls leave
  every file as it was.\<close>

theorem host_lock_excludes:
  assumes "acquireHostLock n identity lockPath pid w = (Inr owner, w')" and "jwf (identity pid)"
    and "sameProcessIdentity (identity pid) (identity (durable (jget ''pid'' (identity pid))))"
    and "canonicalJson other \<noteq> canonicalJson owner"
  shows "isl (fst (acquireHostLock m identity lockPath pid2 w'))
    \<and> bytes_at (snd (acquireHostLock m identity lockPath pid2 w')) = bytes_at w'
    \<and> releaseHostLock False lockPath other w' = (Inr False, w')"
proof -
  from acquireHostLock_Inr(2) [OF assms(1)] obtain t where owner: "owner = lock_owner (identity pid) t" by blast
  have held: "owner_in w' lockPath = Some (durable owner, canonicalJson owner)" by (rule held_by_caller [OF assms(1,2)])
  have live: "live_owner identity (durable owner)" unfolding owner live_lock_owner [OF assms(2)] by (rule assms(3))
  have "releaseHostLock False lockPath other w' = (Inr False, w')"
    using held assms(4) by (simp add: releaseHostLock_def bind_io_def readOwner_def)
  with acquire_against_live [OF held live] show ?thesis by blast
qed

section \<open>A released or stale lock can be taken\<close>

lemma under_file: "starts_with (p @ ''/'') q \<Longrightarrow> under p q"
  by (simp add: under_def)

lemma install_after_rmTree:
  "install_lock p owner (snd (rmTree p w)) = (Inr True, put_file (owner_file p) (canonicalJson owner) (snd (rmTree p w)))"
proof -
  have "\<not> list_ex (\<lambda>pb. starts_with (p @ ''/'') (fst pb)) (files (snd (rmTree p w)))"
    by (auto simp: list_ex_iff rmTree_files dest: under_file)
  then show ?thesis by (simp add: install_lock_def under_def)
qed

lemma release_own:
  assumes "owner_in w lockPath = Some (durable owner, canonicalJson owner)"
  shows "releaseHostLock False lockPath owner w = (Inr True, snd (rmTree lockPath w))"
  using assms by (simp add: releaseHostLock_def bind_io_def readOwner_def rmTree_def)

lemma acquire_free:
  assumes "exactProcessIdentity (identity pid)" "1 \<le> n"
  shows "\<exists>owner w'. acquireHostLock n identity p pid (snd (rmTree p w)) = (Inr owner, w')"
proof -
  let ?w = "snd (rmTree p w)"
  let ?owner = "lock_owner (identity pid) (clock ?w (ticks ?w))"
  have t: "?w\<lparr>ticks := k\<rparr> = snd (rmTree p (w\<lparr>ticks := k\<rparr>))" for k by (simp add: rmTree_def)
  obtain m where "n = Suc m" using assms(2) by (cases n) auto
  then have "\<exists>w'. lock_attempts n identity p (identity pid) ?owner (?w\<lparr>ticks := Suc (ticks ?w)\<rparr>) = (Inr True, w')"
    unfolding t by (simp add: bind_io_def install_after_rmTree)
  with assms show ?thesis by (auto simp: acquireHostLock_def Let_def bind_io_def)
qed

lemma digit_not_slash: "c \<in> set (nat_str n) \<Longrightarrow> c \<noteq> CHR ''/''"
  using nat_str_digits [of n] by (auto simp: list_all_iff is_digit_def)

lemma takeoverName_flat:
  assumes "exactProcessIdentity me"
  shows "CHR ''/'' \<notin> set (takeoverName me)"
proof -
  from assms obtain n where "jget ''pid'' me = Num n" "0 < n" by (auto simp: exactProcessIdentity_def elim: pos_safeE)
  then show ?thesis
    using digit_not_slash [of "CHR ''/''" "nat n"] by (auto simp: takeoverName_def int_str_def)
qed

lemma filter_update_new:
  "\<forall>pb \<in> set al. \<not> P (fst pb) \<Longrightarrow> P k \<Longrightarrow> filter (\<lambda>pb. P (fst pb)) (AList.update k v al) = [(k, v)]"
  by (induction al) auto

lemma only_entry:
  assumes "\<forall>pb \<in> set (files w). \<not> starts_with (d @ ''/'') (fst pb)" "CHR ''/'' \<notin> set name"
  shows "entry_names d (put_file (owner_file (d @ ''/'' @ name)) b w) = [name]"
proof -
  have k: "owner_file (d @ ''/'' @ name) = (d @ ''/'') @ name @ ''/owner.json''" by (simp add: owner_file_def)
  have "starts_with (d @ ''/'') (owner_file (d @ ''/'' @ name))" unfolding k by (rule starts_with_append)
  then have f: "filter (\<lambda>pb. starts_with (d @ ''/'') (fst pb)) (files (put_file (owner_file (d @ ''/'' @ name)) b w))
      = [(owner_file (d @ ''/'' @ name), b)]"
    using assms(1) by (simp add: put_file_def filter_update_new)
  have "takeWhile (\<lambda>c. c \<noteq> CHR ''/'') (name @ ''/owner.json'') = name"
    using assms(2) by (induction name) auto
  then show ?thesis unfolding entry_names_def f by (simp add: owner_file_def)
qed

lemma retire_stale:
  assumes o1: "owner_in w lockPath = Some (holder, text)" and me: "exactProcessIdentity me" "jwf me"
    and live: "sameProcessIdentity me (identity (durable (jget ''pid'' me)))"
    and alone: "\<forall>pb \<in> set (files w). \<not> starts_with (lockPath @ ''/.takeovers/'') (fst pb)"
  shows "\<exists>w1. retireStaleLock identity lockPath text me w = (Inr True, snd (rmTree lockPath w1))"
proof -
  let ?d = "lockPath @ ''/.takeovers''" and ?name = "takeoverName me"
  let ?c = "?d @ ''/'' @ ?name" and ?rec = "lock_owner me (clock w (ticks w))"
  define w1 where "w1 = put_file (owner_file ?c) (canonicalJson ?rec) (w\<lparr>ticks := Suc (ticks w)\<rparr>)"
  have ne: "owner_file lockPath \<noteq> owner_file ?c" by (simp add: owner_file_def)
  have "owner_in w1 lockPath = owner_in w lockPath" using ne by (simp add: w1_def owner_in_def)
  with o1 have own: "still_owned lockPath text w1 = (Inr True, w1)" by (simp add: still_owned_def bind_io_def readOwner_def)
  have "\<forall>pb \<in> set (files (w\<lparr>ticks := Suc (ticks w)\<rparr>)). \<not> starts_with (?d @ ''/'') (fst pb)" using alone by simp
  then have names: "entry_names ?d w1 = [?name]" unfolding w1_def by (rule only_entry [OF _ takeoverName_flat [OF me(1)]])
  then have names': "readdirNames ?d w1 = (Inr [?name], w1)" by (simp add: readdirNames_def)
  have "bytes_at w1 (owner_file ?c) = Some (canonicalJson ?rec)" by (simp add: w1_def)
  then have "owner_in w1 ?c = Some (durable ?rec, canonicalJson ?rec)" by (rule lock_owner_reads_back [OF me])
  moreover have "live_owner identity (durable ?rec)" unfolding live_lock_owner [OF me(2)] by (rule live)
  ultimately have cand: "live_candidates identity ?d [?name] w1 = (Inr [?name], w1)"
    by (simp add: Let_def bind_io_def readOwner_def)
  have steps: "bind_io (still_owned lockPath text) f w1 = f True w1" "bind_io (readdirNames ?d) g w1 = g [?name] w1"
      "bind_io (live_candidates identity ?d [?name]) g w1 = g [?name] w1" for f :: "bool \<Rightarrow> bool wio" and g :: "string list \<Rightarrow> bool wio"
    by (simp_all only: bind_io_def own names' cand prod.case sum.case)
  have "retireStaleLock identity lockPath text me w = (Inr True, snd (rmTree lockPath w1))"
    by (simp only: retireStaleLock_def Let_def bind_now bind_writeJson w1_def [symmetric] steps
        not_True_eq_False if_False list.sel)
      (simp add: bind_io_def rmTree_def own)
  then show ?thesis by blast
qed

text \<open>C38: a host lock whose owner is no longer running does not block the program: a live process with exact
  identity, with no other contender, acquires it on its second attempt at the latest.\<close>

theorem stale_host_lock_is_recovered:
  assumes "owner_in w lockPath = Some (holder, text)" and "\<not> live_owner identity holder"
    and "exactProcessIdentity (identity pid)" "jwf (identity pid)"
    and "sameProcessIdentity (identity pid) (identity (durable (jget ''pid'' (identity pid))))"
    and "\<forall>pb \<in> set (files w). \<not> starts_with (lockPath @ ''/.takeovers/'') (fst pb)" and "bytes_at w lockPath = None"
    and "2 \<le> n"
  shows "\<exists>owner w'. acquireHostLock n identity lockPath pid w = (Inr owner, w')
    \<and> owner_in w' lockPath = Some (durable owner, canonicalJson owner)"
proof -
  let ?w1 = "w\<lparr>ticks := Suc (ticks w)\<rparr>" and ?owner = "lock_owner (identity pid) (clock w (ticks w))"
  have o1: "owner_in ?w1 lockPath = Some (holder, text)" using assms(1) by (simp add: owner_in_def)
  have blocked: "install_lock lockPath ?owner ?w1 = (Inr False, ?w1)"
    using file_present [OF owner_in_present [OF o1]] assms(7) by (simp add: install_lock_def)
  obtain w2 where retired: "retireStaleLock identity lockPath text (identity pid) ?w1 = (Inr True, snd (rmTree lockPath w2))"
    using retire_stale [where w = ?w1 and identity = identity and me = "identity pid", OF o1 assms(3,4,5)] assms(6) by auto
  obtain m where m: "n = Suc (Suc m)" using assms(8) by (metis One_nat_def Suc_1 Suc_le_D Suc_le_mono)
  have "\<exists>w'. lock_attempts n identity lockPath (identity pid) ?owner ?w1 = (Inr True, w')"
    using blocked retired o1 assms(2) by (simp add: m bind_io_def readOwner_def install_after_rmTree)
  then obtain w' where "acquireHostLock n identity lockPath pid w = (Inr ?owner, w')"
    using assms(3) m by (auto simp: acquireHostLock_def Let_def bind_io_def)
  with held_by_caller [OF this assms(4)] show ?thesis by blast
qed

section \<open>Witnesses\<close>

definition lock_me :: jv where
  "lock_me = Obj [(''pid'', Num 7), (''start_time_ticks'', Str ''42''), (''executable'', Str ''/usr/bin/node'')]"

definition lock_identity :: "jv \<Rightarrow> jv" where
  "lock_identity pid = (if pid = Num 7 then lock_me else Null)"

definition dead_holder :: jv where
  "dead_holder = lock_owner (Obj [(''pid'', Num 9), (''start_time_ticks'', Str ''1''), (''executable'', Str ''/usr/bin/node'')]) ''t0''"

definition lock_world :: "(string \<times> string) list \<Rightarrow> world" where
  "lock_world fs = \<lparr>files = fs, dirs = [], clock = (\<lambda>n. ''T''), ticks = 0, uuids = nat_str, drawn = 0, digest = id\<rparr>"

lemma lock_me_facts:
  "exactProcessIdentity (lock_identity (Num 7))" "jwf (lock_identity (Num 7))"
  "sameProcessIdentity (lock_identity (Num 7)) (lock_identity (durable (jget ''pid'' (lock_identity (Num 7)))))"
  by code_simp+

theorem host_lock_excludes_witness:
  "\<exists>owner w'. acquireHostLock 1 lock_identity ''/l'' (Num 7) (lock_world []) = (Inr owner, w')
    \<and> isl (fst (acquireHostLock 40 lock_identity ''/l'' (Num 8) w'))"
proof -
  have "snd (rmTree ''/l'' (lock_world [])) = lock_world []" by (simp add: rmTree_def lock_world_def)
  with acquire_free [where identity = lock_identity and pid = "Num 7" and p = "''/l''" and w = "lock_world []" and n = 1] lock_me_facts(1)
  obtain owner w' where run: "acquireHostLock 1 lock_identity ''/l'' (Num 7) (lock_world []) = (Inr owner, w')" by auto
  from acquireHostLock_Inr(2) [OF run] obtain t where "owner = lock_owner lock_me t" by (auto simp: lock_identity_def)
  then have "durable owner \<noteq> durable (Obj [])" by (auto simp: lock_owner_def durable_def dest: arg_cong [where f = "\<lambda>v. length (keys_of v)"])
  then have other: "canonicalJson (Obj []) \<noteq> canonicalJson owner"
    using canonicalJson_inject [of "Obj []" owner] \<open>owner = lock_owner lock_me t\<close> lock_me_facts(2)
    by (auto simp: lock_owner_def lock_identity_def)
  show ?thesis using run host_lock_excludes [OF run lock_me_facts(2,3) other] by blast
qed

theorem stale_host_lock_is_recovered_witness:
  "\<exists>owner w'. acquireHostLock 2 lock_identity ''/l'' (Num 7) (lock_world [(''/l/owner.json'', canonicalJson dead_holder)])
     = (Inr owner, w')"
proof -
  let ?w = "lock_world [(''/l/owner.json'', canonicalJson dead_holder)]"
  have h: "exactProcessIdentity (jget ''process'' dead_holder)" "jwf (jget ''process'' dead_holder)"
    "\<not> live_owner lock_identity (durable dead_holder)" by code_simp+
  have "bytes_at ?w (owner_file ''/l'') = Some (canonicalJson dead_holder)" by (simp add: lock_world_def bytes_at_def owner_file_def)
  then have o1: "owner_in ?w ''/l'' = Some (durable dead_holder, canonicalJson dead_holder)"
    using lock_owner_reads_back [OF h(1,2)] by (simp add: dead_holder_def lock_owner_fields)
  have "\<forall>pb \<in> set (files ?w). \<not> starts_with (''/l'' @ ''/.takeovers/'') (fst pb)" "bytes_at ?w ''/l'' = None"
    by (simp_all add: lock_world_def starts_with_def bytes_at_def)
  from stale_host_lock_is_recovered [OF o1 h(3) lock_me_facts this, of 2] show ?thesis by auto
qed

end
