(* ===== verification/Rollout.thy ===== *)
theory Rollout imports Lease Git begin

text \<open>
  What a Codex rollout says of a resumed session (src/codex-resume-transport.js): the resume
  command line and its shell quoting, reading a rollout, and the confirmation that exactly the
  sent message was accepted and began a turn. A rollout is a file of JSON lines that only grows.
\<close>

section \<open>The resume command\<close>

text \<open>\<open>/^[0-9a-f-]{36}$/i.test(v ?? '')\<close>\<close>

definition uuid_shape :: "jv \<Rightarrow> bool" where
  "uuid_shape v \<longleftrightarrow> (let s = js_string (coalesce v (Str [])) in
     length s = 36 \<and> list_all (\<lambda>c. is_hex_char (lower_char c) \<or> c = CHR ''-'') s)"

definition canonicalResumeArgv :: "jv \<Rightarrow> jv \<Rightarrow> err + jv" where
  "canonicalResumeArgv sessionId message =
     guard_err (\<not> uuid_shape sessionId \<or> \<not> is_str message \<or> \<not> truthy message)
       (Err ''plain Codex resume requires a session UUID and message'')
     (Inr (Arr [Str ''codex'', Str ''resume'', sessionId, message]))"

abbreviation squote :: char where "squote \<equiv> CHR 0x27"
abbreviation dquote :: char where "dquote \<equiv> CHR 0x22"

definition shellQuote :: "jv \<Rightarrow> string" where
  "shellQuote value = [squote]
     @ concat (map (\<lambda>c. if c = squote then [squote, dquote, squote, dquote, squote] else [c]) (js_string value)) @ [squote]"

definition resume_command :: "jv list \<Rightarrow> string" where
  "resume_command argv = join_with '' '' (map shellQuote argv)"

definition detachedResumeLauncher :: "jv list \<Rightarrow> jv" where
  "detachedResumeLauncher argv = Obj [
     (''command'', Str ''/bin/sh''),
     (''args'', Arr [
        Str ''-c'',
        Str (''tail -f /dev/null | TERM=xterm-256color script -qefc '' @ [dquote] @ ''$1'' @ [dquote] @ '' /dev/null''),
        Str ''opsle-codex-resume'',
        Str (resume_command argv)])]"

section \<open>Reading a rollout\<close>

text \<open>\<open>payload.content.map((item) => item?.text ?? '').join('')\<close>, \<open>null\<close> when there is no content.\<close>

definition messageText :: "jv \<Rightarrow> jv" where
  "messageText payload = (case jget ''content'' payload of
       Arr items \<Rightarrow> Str (concat (map (\<lambda>item. js_string (coalesce (jget ''text'' item) (Str []))) items))
     | _ \<Rightarrow> Null)"

definition itemMessageText :: "jv \<Rightarrow> jv" where
  "itemMessageText item = messageText item"

text \<open>
  A record is kept with the digest of its line (\<open>rolloutLineHashes\<close>, which \<open>rolloutRecords\<close> fills for
  every record it returns). Only terminated lines count; a primitive cannot be a key of a WeakMap.
\<close>

fun line_records :: "(string \<Rightarrow> string) \<Rightarrow> string list \<Rightarrow> err + (jv \<times> string) list" where
  "line_records sha [] = Inr []"
| "line_records sha (line # ls) =
     (if line = [] then line_records sha ls
      else case jparse line of
        None \<Rightarrow> Inl (Err ''SyntaxError'')
      | Some r \<Rightarrow> guard_err (is_prim r) TypeErr
          (bind_err (line_records sha ls) (\<lambda>rs. Inr ((r, sha (line @ [CHR 0x0A])) # rs))))"

definition terminated_lines :: "string \<Rightarrow> string list" where
  "terminated_lines bytes = butlast (split_on (CHR 0x0A) bytes)"

definition rolloutRecords :: "string \<Rightarrow> (jv \<times> string) list wio" where
  "rolloutRecords path = bind_io (readFile path) (\<lambda>bytes. \<lambda>w. (line_records (digest w) (terminated_lines bytes), w))"

definition highestOrdinal :: "jv list \<Rightarrow> int" where
  "highestOrdinal records =
     foldl (\<lambda>highest r. if safe_int (jget ''ordinal'' r) then max highest (int_of (jget ''ordinal'' r)) else highest) (- 1) records"

definition lifecycle_record :: "jv \<Rightarrow> bool" where
  "lifecycle_record r \<longleftrightarrow> jget ''type'' r = Str ''event_msg''
     \<and> in_strs [''task_started'', ''task_complete''] (jpath [''payload'', ''type''] r) \<and> safe_int (jget ''ordinal'' r)"

definition boundRolloutActivity :: "string \<Rightarrow> jv wio" where
  "boundRolloutActivity path = bind_io (rolloutRecords path) (\<lambda>rs.
     let records = map fst rs; lifecycle = filter lifecycle_record records;
         latest = (if lifecycle = [] then Null else last lifecycle) in
     ret (Obj [
       (''classification'', Str (if jpath [''payload'', ''type''] latest = Str ''task_started'' then ''busy'' else ''not-known-busy'')),
       (''latest_ordinal'', coalesce (jget ''ordinal'' latest) (Num (highestOrdinal records))),
       (''latest_type'', coalesce (jpath [''payload'', ''type''] latest) Null),
       (''turn_id'', if is_str (jpath [''payload'', ''turn_id''] latest) then jpath [''payload'', ''turn_id''] latest else Null)]))"

section \<open>Confirmation\<close>

text \<open>\<open>Number.isSafeInteger(record?.ordinal) && record.ordinal > baselineOrdinal\<close>\<close>

definition after_baseline :: "jv \<Rightarrow> jv \<Rightarrow> bool" where
  "after_baseline baselineOrdinal r \<longleftrightarrow> safe_int (jget ''ordinal'' r)
     \<and> (case js_number baselineOrdinal of None \<Rightarrow> False | Some b \<Rightarrow> b < int_of (jget ''ordinal'' r))"

definition accepts_message :: "jv \<Rightarrow> jv \<Rightarrow> bool" where
  "accepts_message message r \<longleftrightarrow> jget ''type'' r = Str ''response_item''
     \<and> jpath [''payload'', ''type''] r = Str ''message''
     \<and> jpath [''payload'', ''role''] r = Str ''user''
     \<and> strict_eq (messageText (jget ''payload'' r)) message"

definition begins_turn :: "jv \<Rightarrow> jv \<Rightarrow> jv \<Rightarrow> bool" where
  "begins_turn sessionId message r \<longleftrightarrow> jget ''type'' r = Str ''event_msg''
     \<and> jpath [''payload'', ''type''] r = Str ''item_completed''
     \<and> strict_eq (jpath [''payload'', ''thread_id''] r) sessionId
     \<and> jpath [''payload'', ''item'', ''type''] r = Str ''UserMessage''
     \<and> strict_eq (itemMessageText (jpath [''payload'', ''item''] r)) message
     \<and> is_str (jpath [''payload'', ''turn_id''] r)
     \<and> safe_int (jpath [''payload'', ''started_at_ms''] r)"

definition ambiguous :: "string \<Rightarrow> jv" where
  "ambiguous reason = Obj [(''classification'', Str ''ambiguous''), (''reason'', Str reason)]"

definition confirmed_by :: "jv \<times> string \<Rightarrow> jv \<times> string \<Rightarrow> jv" where
  "confirmed_by a b = Obj [
     (''classification'', Str ''confirmed''),
     (''accepted_ordinal'', jget ''ordinal'' (fst a)),
     (''accepted_record_sha256'', Str (snd a)),
     (''turn_began_ordinal'', jget ''ordinal'' (fst b)),
     (''turn_began_record_sha256'', Str (snd b)),
     (''turn_id'', jpath [''payload'', ''turn_id''] (fst b)),
     (''turn_started_at_ms'', jpath [''payload'', ''started_at_ms''] (fst b))]"

definition rolloutAcceptance :: "(jv \<times> string) list \<Rightarrow> jv \<Rightarrow> jv \<Rightarrow> jv \<Rightarrow> jv" where
  "rolloutAcceptance records sessionId message baselineOrdinal =
     (let after = filter (\<lambda>r. after_baseline baselineOrdinal (fst r)) records;
          accepted = filter (\<lambda>r. accepts_message message (fst r)) after;
          began = filter (\<lambda>r. begins_turn sessionId message (fst r)) after in
     if 1 < length accepted \<or> 1 < length began then ambiguous ''duplicate-rollout-acceptance-evidence''
     else if length accepted \<noteq> 1 \<or> length began \<noteq> 1 then Null
     else
       let acceptedTurn = jpath [''payload'', ''internal_chat_message_metadata_passthrough'', ''turn_id''] (fst (hd accepted)) in
       if \<not> is_str acceptedTurn \<or> \<not> strict_eq acceptedTurn (jpath [''payload'', ''turn_id''] (fst (hd began)))
       then ambiguous ''rollout-turn-identity-mismatch''
       else confirmed_by (hd accepted) (hd began))"

definition rolloutConfirmation :: "string \<Rightarrow> jv \<Rightarrow> jv \<Rightarrow> jv \<Rightarrow> jv wio" where
  "rolloutConfirmation path sessionId message baselineOrdinal =
     bind_io (rolloutRecords path) (\<lambda>records. ret (rolloutAcceptance records sessionId message baselineOrdinal))"

section \<open>Shell words\<close>

text \<open>
  The words a POSIX shell makes of a command text: \<open>None\<close> when an expansion, an operator or an
  unclosed quote would make it later than words. The first argument is the open quote, the second
  the word begun so far.
\<close>

definition word_so_far :: "string option \<Rightarrow> string" where
  "word_so_far w = (case w of None \<Rightarrow> [] | Some s \<Rightarrow> s)"

fun shell_words :: "char option \<Rightarrow> string option \<Rightarrow> string \<Rightarrow> string list option" where
  "shell_words (Some q) w [] = None"
| "shell_words None w [] = Some (case w of None \<Rightarrow> [] | Some s \<Rightarrow> [s])"
| "shell_words (Some q) w (c # cs) =
     (if c = q then shell_words None (Some (word_so_far w)) cs
      else if q = dquote \<and> c \<in> {CHR ''$'', CHR ''`'', CHR 0x5C} then None
      else shell_words (Some q) (Some (word_so_far w @ [c])) cs)"
| "shell_words None w (c # cs) =
     (if c = squote \<or> c = dquote then shell_words (Some c) (Some (word_so_far w)) cs
      else if c = CHR '' '' then (case w of None \<Rightarrow> shell_words None None cs
        | Some s \<Rightarrow> map_option ((#) s) (shell_words None None cs))
      else if c = CHR 0x5C \<or> c \<in> set ''$`|&;<>()*?[]#~{}!'' \<or> is_space c then None
      else shell_words None (Some (word_so_far w @ [c])) cs)"

lemma shell_words_quoted:
  "shell_words (Some squote) w (concat (map (\<lambda>c. if c = squote then [squote, dquote, squote, dquote, squote] else [c]) s) @ squote # rest)
     = shell_words None (Some (word_so_far w @ s)) rest"
  by (induction s arbitrary: w) (auto simp: word_so_far_def)

lemma shell_words_shellQuote:
  "shell_words None None (shellQuote v @ rest) = shell_words None (Some (js_string v)) rest"
  by (simp add: shellQuote_def shell_words_quoted word_so_far_def)

text \<open>C28: the shell splits the command of the detached launcher into exactly the given arguments, whatever
  quotes, blanks, operators or expansions they contain: no argument is interpreted.\<close>

theorem launcher_command_is_argv:
  "shell_words None None (str_of (jidx 3 (jget ''args'' (detachedResumeLauncher argv)))) = Some (map js_string argv)"
proof -
  have "shell_words None None (resume_command argv) = Some (map js_string argv)"
  proof (induction argv)
    case (Cons v argv)
    then show ?case
      by (cases argv) (auto simp: resume_command_def join_with_Cons shell_words_shellQuote
          shell_words_shellQuote [of _ "[]", simplified])
  qed (simp add: resume_command_def)
  then show ?thesis by (simp add: detachedResumeLauncher_def)
qed

section \<open>A rollout only grows\<close>

lemma split_on_append:
  "split_on d (a @ b) = butlast (split_on d a) @ (last (split_on d a) @ hd (split_on d b)) # tl (split_on d b)"
proof (induction a)
  case Nil
  then show ?case by (cases "split_on d b") (use split_on_nonempty in auto)
next
  case (Cons c a)
  then show ?case
    by (cases "split_on d a") (auto simp: split_on_nonempty)
qed

lemma terminated_lines_append: "\<exists>later. terminated_lines (a @ b) = terminated_lines a @ later"
  by (auto simp: terminated_lines_def split_on_append butlast_append)

lemma line_records_append:
  "line_records sha (ls @ ms) = bind_err (line_records sha ls) (\<lambda>rs. bind_err (line_records sha ms) (\<lambda>later. Inr (rs @ later)))"
proof (induction ls)
  case Nil
  then show ?case by (cases "line_records sha ms") simp_all
next
  case (Cons l ls)
  then show ?case
    by (cases "line_records sha ls"; cases "line_records sha ms") (auto simp: guard_err_def split: option.splits)
qed

lemma one_of_append:
  assumes "length (xs @ ys) \<le> 1" "length xs = 1"
  shows "ys = []"
  using assms by simp

lemma acceptance_append:
  assumes "jget ''classification'' (rolloutAcceptance rs sid m b) = Str ''confirmed''"
  shows "rolloutAcceptance (rs @ later) sid m b = rolloutAcceptance rs sid m b
    \<or> rolloutAcceptance (rs @ later) sid m b = ambiguous ''duplicate-rollout-acceptance-evidence''"
proof -
  let ?a = "filter (\<lambda>r. accepts_message m (fst r)) (filter (\<lambda>r. after_baseline b (fst r)) rs)"
  let ?b = "filter (\<lambda>r. begins_turn sid m (fst r)) (filter (\<lambda>r. after_baseline b (fst r)) rs)"
  have "length ?a = 1" "length ?b = 1"
    using assms unfolding rolloutAcceptance_def Let_def
    by (cases "1 < length ?a \<or> 1 < length ?b"; cases "length ?a \<noteq> 1 \<or> length ?b \<noteq> 1"; simp add: ambiguous_def)+
  then show ?thesis
    by (cases "filter (\<lambda>r. accepts_message m (fst r)) (filter (\<lambda>r. after_baseline b (fst r)) later) = []
          \<and> filter (\<lambda>r. begins_turn sid m (fst r)) (filter (\<lambda>r. after_baseline b (fst r)) later) = []")
      (auto simp: rolloutAcceptance_def Let_def)
qed

lemma rolloutConfirmation_run:
  "bytes_at w path = Some bytes \<Longrightarrow> rolloutConfirmation path sid m b w =
     (bind_err (line_records (digest w) (terminated_lines bytes)) (\<lambda>rs. Inr (rolloutAcceptance rs sid m b)), w)"
  by (cases "line_records (digest w) (terminated_lines bytes)")
    (simp_all add: rolloutConfirmation_def rolloutRecords_def readFile_def bind_io_def)

text \<open>As a rollout grows, the confirmation of a message is never replaced by another one: a later read gives
  the same records, turn and digests, or reports duplicate evidence, or fails on a malformed line.\<close>

theorem confirmation_is_stable:
  assumes "bytes_at w path = Some bytes" and "rolloutConfirmation path sid m b w = (Inr c, w')"
    and "jget ''classification'' c = Str ''confirmed''"
  shows "fst (rolloutConfirmation path sid m b (put_file path (bytes @ later) w)) = Inr c
    \<or> fst (rolloutConfirmation path sid m b (put_file path (bytes @ later) w)) = Inr (ambiguous ''duplicate-rollout-acceptance-evidence'')
    \<or> isl (fst (rolloutConfirmation path sid m b (put_file path (bytes @ later) w)))"
proof -
  obtain rs where rs: "line_records (digest w) (terminated_lines bytes) = Inr rs" and c: "c = rolloutAcceptance rs sid m b"
    using assms(2) unfolding rolloutConfirmation_run [OF assms(1)] by (auto simp: bind_err_eq_Inr)
  obtain ms where ms: "terminated_lines (bytes @ later) = terminated_lines bytes @ ms" using terminated_lines_append by blast
  have new: "bytes_at (put_file path (bytes @ later) w) path = Some (bytes @ later)" by simp
  show ?thesis
  proof (cases "line_records (digest w) ms")
    case (Inl e)
    then show ?thesis unfolding rolloutConfirmation_run [OF new] by (simp add: ms line_records_append rs)
  next
    case (Inr rs')
    then have "fst (rolloutConfirmation path sid m b (put_file path (bytes @ later) w)) = Inr (rolloutAcceptance (rs @ rs') sid m b)"
      unfolding rolloutConfirmation_run [OF new] by (simp add: ms line_records_append rs)
    with acceptance_append [of rs sid m b rs'] assms(3) show ?thesis unfolding c by auto
  qed
qed

text \<open>C27: a confirmation rests on a single record after the baseline that carries exactly the message, and on a
  turn of the bound session that began with it under the same turn identity.\<close>

theorem confirmation_is_exact:
  assumes "rolloutAcceptance records sid m baseline = c" and "jget ''classification'' c = Str ''confirmed''"
  shows "\<exists>a b. filter (\<lambda>r. after_baseline baseline (fst r) \<and> accepts_message m (fst r)) records = [a]
    \<and> filter (\<lambda>r. after_baseline baseline (fst r) \<and> begins_turn sid m (fst r)) records = [b]
    \<and> is_str (jget ''turn_id'' c)
    \<and> jpath [''payload'', ''internal_chat_message_metadata_passthrough'', ''turn_id''] (fst a) = jget ''turn_id'' c
    \<and> c = confirmed_by a b"
proof -
  let ?a = "filter (\<lambda>r. accepts_message m (fst r)) (filter (\<lambda>r. after_baseline baseline (fst r)) records)"
  let ?b = "filter (\<lambda>r. begins_turn sid m (fst r)) (filter (\<lambda>r. after_baseline baseline (fst r)) records)"
  have "length ?a = 1" "length ?b = 1"
    using assms unfolding rolloutAcceptance_def Let_def
    by (cases "1 < length ?a \<or> 1 < length ?b"; cases "length ?a \<noteq> 1 \<or> length ?b \<noteq> 1"; auto simp add: ambiguous_def)+
  then obtain a b where ab: "?a = [a]" "?b = [b]" by (auto simp: length_Suc_conv)
  have "filter (\<lambda>r. after_baseline baseline (fst r) \<and> accepts_message m (fst r)) records = [a]"
      "filter (\<lambda>r. after_baseline baseline (fst r) \<and> begins_turn sid m (fst r)) records = [b]"
    using ab by (simp_all add: conj_commute)
  moreover have "c = confirmed_by a b \<and> is_str (jpath [''payload'', ''internal_chat_message_metadata_passthrough'', ''turn_id''] (fst a))
      \<and> strict_eq (jpath [''payload'', ''internal_chat_message_metadata_passthrough'', ''turn_id''] (fst a)) (jpath [''payload'', ''turn_id''] (fst b))"
    using assms unfolding rolloutAcceptance_def Let_def ab
    by (simp add: ambiguous_def del: jpath.simps split: if_splits) (auto simp del: jpath.simps)
  ultimately show ?thesis
    by (intro exI [of _ a] exI [of _ b]) (auto simp: confirmed_by_def dest: strict_eq_imp_eq)
qed

section \<open>Witnesses\<close>

definition demo_accept :: jv where
  "demo_accept = Obj [(''ordinal'', Num 4), (''type'', Str ''response_item''), (''payload'', Obj [
     (''type'', Str ''message''), (''role'', Str ''user''),
     (''content'', Arr [Obj [(''text'', Str ''hi'')]]),
     (''internal_chat_message_metadata_passthrough'', Obj [(''turn_id'', Str ''t'')])])]"

definition demo_began :: jv where
  "demo_began = Obj [(''ordinal'', Num 5), (''type'', Str ''event_msg''), (''payload'', Obj [
     (''type'', Str ''item_completed''), (''thread_id'', Str ''s''),
     (''item'', Obj [(''type'', Str ''UserMessage''), (''content'', Arr [Obj [(''text'', Str ''hi'')]])]),
     (''turn_id'', Str ''t''), (''started_at_ms'', Num 9)])]"

theorem confirmation_is_exact_witness:
  "\<exists>c a b. rolloutAcceptance [(demo_accept, ''x''), (demo_began, ''y'')] (Str ''s'') (Str ''hi'') (Num 3) = c \<and> c = confirmed_by a b"
proof -
  have "jget ''classification'' (rolloutAcceptance [(demo_accept, ''x''), (demo_began, ''y'')] (Str ''s'') (Str ''hi'') (Num 3)) = Str ''confirmed''"
    by code_simp
  from confirmation_is_exact [OF refl this] show ?thesis by blast
qed

definition demo_rollout :: string where
  "demo_rollout = jtext demo_accept @ [CHR 0x0A] @ jtext demo_began @ [CHR 0x0A]"

definition rollout_world :: world where
  "rollout_world = \<lparr>files = [(''/r'', demo_rollout)], dirs = [], clock = (\<lambda>n. ''T''), ticks = 0, uuids = nat_str, drawn = 0, digest = (\<lambda>s. ''h'')\<rparr>"

lemma demo_confirmed:
  "jget ''classification'' (rolloutAcceptance [(demo_accept, h), (demo_began, h)] (Str ''s'') (Str ''hi'') (Num 3)) = Str ''confirmed''"
  by code_simp

theorem confirmation_is_stable_witness:
  "\<exists>c. fst (rolloutConfirmation ''/r'' (Str ''s'') (Str ''hi'') (Num 3) (put_file ''/r'' (demo_rollout @ ''{'' @ [CHR 0x0A]) rollout_world)) = Inr c
    \<or> isl (fst (rolloutConfirmation ''/r'' (Str ''s'') (Str ''hi'') (Num 3) (put_file ''/r'' (demo_rollout @ ''{'' @ [CHR 0x0A]) rollout_world)))"
proof -
  have f: "bytes_at rollout_world ''/r'' = Some demo_rollout" by (simp add: rollout_world_def bytes_at_def)
  have "line_records (\<lambda>s. ''h'') (terminated_lines demo_rollout) = Inr [(demo_accept, ''h''), (demo_began, ''h'')]" by code_simp
  then have r: "rolloutConfirmation ''/r'' (Str ''s'') (Str ''hi'') (Num 3) rollout_world
      = (Inr (rolloutAcceptance [(demo_accept, ''h''), (demo_began, ''h'')] (Str ''s'') (Str ''hi'') (Num 3)), rollout_world)"
    unfolding rolloutConfirmation_run [OF f] by (simp add: rollout_world_def)
  from confirmation_is_stable [OF f r demo_confirmed] show ?thesis by blast
qed

end
