(* ===== verification/Delivery.thy ===== *)
theory Delivery imports WakeQueue Frames Rollout begin

text \<open>
  Delivery and consumption of a wake (src/wakeup.js): the receipt that a resumed session is bound
  to, its commitment behind every ownership fence, the evidence that the temporary frontend was
  cleaned up, and the exactly-once consumption by the supervisor.  \<open>wake_env\<close> holds what the code
  reads outside the durable files: the host, real paths, file identities, and the digest of the
  worker's own source.
\<close>

record wake_env =
  wake_host :: host
  real_path :: "string \<Rightarrow> string"
  stat_of :: "jv \<Rightarrow> err + jv"
  worker_sha :: string

definition DELIVERY_SCHEMA :: string where
  "DELIVERY_SCHEMA = ''opsle.durable-supervisor.host-wake-delivery/v1''"

definition WAKE_CONSUMPTION_SCHEMA :: string where
  "WAKE_CONSUMPTION_SCHEMA = ''opsle.durable-supervisor.wake-consumption/v1''"

definition CODEX_SESSION_BINDING_SCHEMA :: string where
  "CODEX_SESSION_BINDING_SCHEMA = ''opsle.durable-supervisor.codex-session-binding/v3''"

definition LEGACY_CODEX_SESSION_BINDING_SCHEMA :: string where
  "LEGACY_CODEX_SESSION_BINDING_SCHEMA = ''opsle.durable-supervisor.codex-session-binding/v2''"

text \<open>\<open>wakePaths(root).base\<close> and the history directory are only created, never read here.\<close>

definition directories :: "string \<Rightarrow> unit wio" where
  "directories root = (let p = wakePaths root in
     mkdirs [wake_base root, wp_requests p, wp_deliveries p, wp_activationDecisions p, wp_transportAttempts p,
       wake_base root @ ''/session-binding-history'', wp_consumptions p])"

definition binding_file :: "string \<Rightarrow> string" where
  "binding_file root = wp_sessionBinding (wakePaths root)"

text \<open>A conjunction of \<open>===\<close> between fields of records.\<close>

definition fences :: "(jv \<times> jv) list \<Rightarrow> bool" where
  "fences ps \<longleftrightarrow> list_all (\<lambda>p. strict_eq (fst p) (snd p)) ps"

section \<open>Identities and bindings\<close>

definition fence_fields :: "string list" where
  "fence_fields = [''schema'', ''repository'', ''delivery_id'', ''event_id'', ''queue_version'', ''supervisor_id'',
     ''supervisor_generation'', ''dispatcher_id'', ''dispatcher_generation'', ''dispatcher_implementation_sha256'',
     ''dispatcher_release_fence'', ''wake_worker_implementation_sha256'', ''wake_owner'', ''activation_lease_id'',
     ''activation_fencing_token'', ''activation_decision_id'', ''codex_session_binding_sha256'', ''codex_session_uuid'',
     ''message_sha256'', ''transport_attempt_id'', ''delivered_at'']"

definition fence_record :: "jv \<Rightarrow> jv" where
  "fence_record receipt = Obj (map (\<lambda>k. (k, if k = ''dispatcher_release_fence'' then coalesce (jget k receipt) Null
     else jget k receipt)) fence_fields)"

definition deliveryReceiptFence :: "jv \<Rightarrow> string wio" where
  "deliveryReceiptFence receipt = sha256 (canonicalJson (fence_record receipt))"

definition positiveSortedProcessGroups :: "bool \<Rightarrow> jv \<Rightarrow> bool" where
  "positiveSortedProcessGroups allowEmpty values \<longleftrightarrow> is_arr values \<and> (allowEmpty \<or> elems values \<noteq> [])
     \<and> list_all (\<lambda>i. pos_safe (elems values ! i)
         \<and> (i = 0 \<or> int_of (elems values ! (i - 1)) < int_of (elems values ! i))) [0..<length (elems values)]"

definition exactProcess :: "jv \<Rightarrow> jv \<Rightarrow> bool" where
  "exactProcess left right \<longleftrightarrow> sameProcess left right
     \<and> fences [(jget ''uid'' left, jget ''uid'' right), (jget ''tty'' left, jget ''tty'' right),
         (jget ''command_line_sha256'' left, jget ''command_line_sha256'' right)]"

definition is_abs_path :: "jv \<Rightarrow> bool" where
  "is_abs_path v \<longleftrightarrow> is_str v \<and> starts_with ''/'' (str_of v)"

definition validProcessIdentity :: "jv \<Rightarrow> bool" where
  "validProcessIdentity v \<longleftrightarrow> pos_safe (jget ''pid'' v)
     \<and> (let t = js_string (coalesce (jget ''start_time_ticks'' v) (Str [])) in t \<noteq> [] \<and> list_all is_digit t)
     \<and> is_abs_path (jget ''executable'' v)
     \<and> safe_int (jget ''uid'' v) \<and> 0 \<le> int_of (jget ''uid'' v)
     \<and> (jget ''tty'' v = Null \<or> is_abs_path (jget ''tty'' v))
     \<and> hex64 (jget ''command_line_sha256'' v)"

definition binding_incomplete_ephemeral :: "jv \<Rightarrow> bool" where
  "binding_incomplete_ephemeral b \<longleftrightarrow> jget ''schema'' b = Str CODEX_SESSION_BINDING_SCHEMA
     \<and> (jget ''state'' b \<noteq> Str ''CURRENT'' \<or> \<not> pos_safe (jget ''binding_revision'' b)
        \<or> \<not> uuid_shape (jget ''codex_thread_uuid'' b)
        \<or> \<not> strict_eq (jget ''codex_thread_uuid'' b) (jget ''codex_session_uuid'' b))"

definition binding_complete :: "jv \<Rightarrow> bool" where
  "binding_complete b \<longleftrightarrow> is_str (jget ''repository_realpath'' b) \<and> is_str (jget ''supervisor_id'' b)
     \<and> safe_int (jget ''supervisor_generation'' b) \<and> uuid_shape (jget ''codex_session_uuid'' b)
     \<and> is_str (jpath [''rollout'', ''realpath''] b)
     \<and> hex64 (jpath [''rollout'', ''session_meta_line_sha256''] b) \<and> hex64 (jpath [''rollout'', ''session_meta_payload_sha256''] b)
     \<and> safe_int (jpath [''rollout'', ''device''] b) \<and> safe_int (jpath [''rollout'', ''inode''] b)
     \<and> is_str (jget ''sessions_root_realpath'' b) \<and> is_str (jget ''codex_cli_version'' b) \<and> safe_int (jget ''uid'' b)
     \<and> is_str (jget ''binding_id'' b)
     \<and> jpath [''host'', ''kind''] b = Str ''herdr'' \<and> jpath [''host'', ''authority''] b = Str ''authoritative''
     \<and> validProcessIdentity (jpath [''host'', ''process''] b)
     \<and> is_str (jpath [''host'', ''workspace_id''] b)
     \<and> strict_eq (jpath [''host'', ''workspace_cwd''] b) (jget ''repository_realpath'' b)
     \<and> is_str (jpath [''host'', ''pane_id''] b) \<and> is_str (jpath [''host'', ''terminal_id''] b)"

definition validateSessionBindingShape :: "jv \<Rightarrow> err + jv" where
  "validateSessionBindingShape b =
     guard_err (\<not> in_strs [CODEX_SESSION_BINDING_SCHEMA, LEGACY_CODEX_SESSION_BINDING_SCHEMA] (jget ''schema'' b))
       (Err ''unsupported Codex session binding'') (
     guard_err (binding_incomplete_ephemeral b) (Err ''incomplete ephemeral Codex session binding'') (
     guard_err (\<not> binding_complete b) (Err ''incomplete Codex session binding'') (
     guard_err (jpath [''native_wake'', ''supported''] b \<noteq> JBool True
         \<or> jpath [''native_wake'', ''transport''] b \<noteq> Str ''plain-codex-resume''
         \<or> jpath [''native_wake'', ''confirmation''] b \<noteq> Str ''bound-rollout-exact-message-and-turn-began'')
       (Err ''Herdr binding requires canonical plain Codex resume transport'')
     (Inr b))))"

definition binding_valid :: "jv \<Rightarrow> bool" where
  "binding_valid b \<longleftrightarrow> \<not> isl (validateSessionBindingShape b)"

section \<open>The fence of a delivery\<close>

definition not_current :: "string \<Rightarrow> jv" where
  "not_current reason = Obj [(''current'', JBool False), (''reason'', Str reason)]"

text \<open>\<open>request.target.repository !== supervisor.repository\<close>, reached when the supervisor is the root's.\<close>

definition validateDeliveryFence :: "wake_env \<Rightarrow> string \<Rightarrow> jv \<Rightarrow> jv \<Rightarrow> jv \<Rightarrow> jv wio" where
  "validateDeliveryFence env root eventId expected activationOwner =
     bind_io (readJson (requestPath root eventId)) (\<lambda>request.
     bind_io (readJson (p_supervisor (paths root))) (\<lambda>supervisor.
     let target = jget ''target'' request; hb = jget ''host_binding'' target in
     if jget ''repository'' supervisor \<noteq> Str root then ret (not_current ''repository-delivery-fence-changed'')
     else
       bind_io (lift_io (jdot ''repository'' target)) (\<lambda>repository.
       if \<not> strict_eq repository (jget ''repository'' supervisor) then ret (not_current ''repository-delivery-fence-changed'')
       else if \<not> fences [(jget ''supervisor_id'' supervisor, jget ''supervisorId'' expected),
           (jget ''generation'' supervisor, jget ''supervisorGeneration'' expected)]
         then ret (not_current ''supervisor-delivery-fence-changed'')
       else if \<not> fences [(jget ''supervisor_id'' target, jget ''supervisor_id'' supervisor),
           (jget ''supervisor_generation'' target, jget ''generation'' supervisor)]
         then ret (not_current ''wake-target-does-not-match-current-supervisor'')
       else if \<not> strict_eq (jget ''queue_version'' request) (jget ''queueVersion'' expected)
         then ret (not_current ''wake-queue-version-changed'')
       else
         bind_io (sha256 (canonicalJson request)) (\<lambda>sha.
         if jget ''requestSha256'' expected \<noteq> Str sha then ret (not_current ''wake-request-changed'')
         else if truthy hb \<and> \<not> fences [(jget ''supervisor_id'' hb, jget ''supervisor_id'' supervisor),
             (jget ''supervisor_generation'' hb, jget ''generation'' supervisor)]
           then ret (not_current ''wake-host-binding-generation-mismatch'')
         else
           bind_io (if nullish (jget ''bindingSha256'' expected) then ret True
             else bind_io (existsSync (binding_file root)) (\<lambda>present.
               if \<not> present then ret False
               else bind_io (fileSha256 (binding_file root)) (\<lambda>b. ret (jget ''bindingSha256'' expected = Str b)))) (\<lambda>bound.
           if \<not> bound then ret (not_current ''session-binding-revision-changed'')
           else if \<not> activationOwnerCurrent (wake_host env) activationOwner
             then ret (not_current ''opsled-owner-fence-no-longer-current'')
           else ret (Obj [(''current'', JBool True), (''request'', request), (''supervisor'', supervisor)]))))))"

section \<open>commitDeliveredReceipt\<close>

definition receipt_fences :: "wake_env \<Rightarrow> string \<Rightarrow> jv \<Rightarrow> jv \<Rightarrow> jv \<Rightarrow> jv \<Rightarrow> jv \<Rightarrow> jv \<Rightarrow> string \<Rightarrow> bool" where
  "receipt_fences env root supervisor durableRequest binding decision request receipt bindingSha \<longleftrightarrow>
     jget ''repository'' supervisor = Str root
     \<and> strict_eq (jpath [''target'', ''repository''] request) (jget ''repository'' supervisor)
     \<and> strict_eq (jget ''repository'' receipt) (jget ''repository'' supervisor)
     \<and> canonicalJson durableRequest = canonicalJson request
     \<and> fences [(jget ''event_id'' request, jget ''event_id'' receipt), (jget ''queue_version'' request, jget ''queue_version'' receipt),
         (jpath [''target'', ''supervisor_id''] request, jget ''supervisor_id'' supervisor),
         (jpath [''target'', ''supervisor_generation''] request, jget ''generation'' supervisor),
         (jget ''supervisor_id'' receipt, jget ''supervisor_id'' supervisor),
         (jget ''supervisor_generation'' receipt, jget ''generation'' supervisor)]
     \<and> jget ''wake_worker_implementation_sha256'' receipt = Str (worker_sha env)
     \<and> activationOwnerCurrent (wake_host env) (jget ''wake_owner'' receipt)
     \<and> binding_valid binding
     \<and> jget ''repository_realpath'' binding = Str (real_path env root)
     \<and> fences [(jget ''supervisor_id'' binding, jget ''supervisor_id'' supervisor),
         (jget ''supervisor_generation'' binding, jget ''generation'' supervisor)]
     \<and> jget ''codex_session_binding_sha256'' receipt = Str bindingSha
     \<and> fences [(jget ''codex_session_uuid'' receipt, jget ''codex_session_uuid'' binding),
         (jget ''host_kind'' receipt, jpath [''host'', ''kind''] binding),
         (jget ''native_transport'' receipt, jpath [''native_wake'', ''transport''] binding)]
     \<and> jget ''schema'' decision = Str ACTIVATION_DECISION_SCHEMA
     \<and> in_strs [''CLAIMED'', ''DELIVERED''] (jget ''status'' decision)
     \<and> fences [(jget ''event_id'' decision, jget ''event_id'' request),
         (jget ''supervisor_id'' decision, jget ''supervisor_id'' supervisor),
         (jget ''supervisor_generation'' decision, jget ''generation'' supervisor),
         (jget ''delivery_id'' decision, jget ''delivery_id'' receipt),
         (jget ''transport_attempt_id'' decision, jget ''transport_attempt_id'' receipt),
         (jget ''decision_id'' decision, jget ''activation_decision_id'' receipt),
         (jget ''lease_id'' decision, jget ''activation_lease_id'' receipt),
         (jget ''fencing_token'' decision, jget ''activation_fencing_token'' receipt),
         (jget ''message_sha256'' decision, jget ''message_sha256'' receipt)]"

definition delivered_counts :: "jv \<Rightarrow> jv" where
  "delivered_counts counts = Obj [
     (''evidence'', Str ''durable-host-delivery''),
     (''total_automatic'', Num 1),
     (''terminal_event'', Num 1),
     (''human'', jget ''human'' counts),
     (''wait_induced_automatic'', Num 0)]"

definition count_activation :: "string \<Rightarrow> jv \<Rightarrow> unit wio" where
  "count_activation root attemptId =
     (let path = json_in (p_attempts (paths root)) (js_string attemptId) in
     bind_io (existsSync path) (\<lambda>present.
     if \<not> present then ret ()
     else
       bind_io (readJson path) (\<lambda>attempt.
       let telemetry = jget ''telemetry'' attempt; counts = jget ''activation_counts'' telemetry in
       if truthy counts
       then writeJson path (jset ''telemetry'' (jset ''activation_counts'' (delivered_counts counts) telemetry) attempt)
       else ret ())))"

definition stays_paused :: "jv \<Rightarrow> bool" where
  "stays_paused state \<longleftrightarrow> truthy (jpath [''pause'', ''active''] state) \<and> \<not> truthy (jpath [''pause'', ''after_current''] state)"

definition announce_delivery :: "string \<Rightarrow> jv \<Rightarrow> jv \<Rightarrow> jv \<Rightarrow> jv wio" where
  "announce_delivery root request receipt state =
     bind_io (emit root ''SUPERVISOR_ACTIVATION'' (Obj [
       (''classification'', Str ''terminal-event''), (''automatic'', JBool True),
       (''cause_event_id'', jget ''event_id'' request), (''task_id'', jget ''task_id'' request),
       (''attempt_id'', jget ''attempt_id'' request), (''wait_id'', jget ''wait_id'' request),
       (''delivery_id'', jget ''delivery_id'' receipt)])) (\<lambda>_.
     bind_io (emit root ''SUPERVISOR_REACTIVATED'' (Obj [
       (''cause_event_id'', jget ''event_id'' request), (''task_id'', jget ''task_id'' request),
       (''attempt_id'', jget ''attempt_id'' request), (''classification'', Str ''terminal-event''),
       (''delivery_id'', jget ''delivery_id'' receipt),
       (''resulting_state'', Str (if stays_paused state then ''PAUSED'' else ''ACTIVE''))])) (\<lambda>_.
     emit root ''HOST_WAKE_DELIVERED'' (Obj [
       (''source_event_id'', jget ''event_id'' request), (''delivery_id'', jget ''delivery_id'' receipt),
       (''queue_version'', jget ''queue_version'' receipt), (''native_transport'', jget ''native_transport'' receipt),
       (''codex_session_uuid'', jget ''codex_session_uuid'' receipt)])))"

text \<open>What follows the creation of the receipt: the supervisor becomes active unless it is paused.\<close>

definition record_delivery :: "string \<Rightarrow> jv \<Rightarrow> jv \<Rightarrow> jv wio" where
  "record_delivery root request receipt =
     bind_io (readJson (p_state (paths root))) (\<lambda>state.
     bind_io (if stays_paused state then ret Null else updateState root (Obj [(''supervisor_state'', Str ''ACTIVE'')])) (\<lambda>_.
     bind_io (count_activation root (jget ''attempt_id'' request)) (\<lambda>_.
     bind_io (announce_delivery root request receipt state) (\<lambda>_.
     ret (Obj [(''classification'', Str ''native-delivered''), (''reason'', Str ''supported-native-session-transport''),
       (''receipt'', receipt), (''delivered'', JBool True)])))))"

definition create_receipt :: "string \<Rightarrow> jv \<Rightarrow> jv \<Rightarrow> jv wio" where
  "create_receipt root request receipt =
     (let path = receiptPath root (jget ''event_id'' request) in
     bind_io (atomicCreateJson path receipt) (\<lambda>created.
     if created then record_delivery root request receipt
     else
       bind_io (readJson path) (\<lambda>existing.
       ret (Obj [(''classification'', Str ''duplicate''), (''reason'', Str ''event-already-delivered''),
         (''receipt'', existing), (''delivered'', JBool False)]))))"

definition delivered_receipt :: "jv \<Rightarrow> jv \<Rightarrow> jv" where
  "delivered_receipt receipt deliveredAt = jset ''delivered_at'' deliveredAt (jset ''status'' (Str ''DELIVERED'') receipt)"

text \<open>\<open>receipt.delivered_at ??= now()\<close>\<close>

definition delivery_time :: "jv \<Rightarrow> jv wio" where
  "delivery_time receipt = (if nullish (jget ''delivered_at'' receipt) then bind_io now (\<lambda>t. ret (Str t))
     else ret (jget ''delivered_at'' receipt))"

definition commitDeliveredReceipt :: "wake_env \<Rightarrow> string \<Rightarrow> jv \<Rightarrow> jv \<Rightarrow> jv wio" where
  "commitDeliveredReceipt env root request receipt =
     bind_io (readJson (p_supervisor (paths root))) (\<lambda>supervisor.
     bind_io (readJson (requestPath root (jget ''event_id'' request))) (\<lambda>durableRequest.
     bind_io (readJson (binding_file root)) (\<lambda>binding.
     bind_io (readJson (activationDecisionPath root (jget ''event_id'' request))) (\<lambda>decision.
     bind_io (fileSha256 (binding_file root)) (\<lambda>bindingSha.
     guard_io (\<not> receipt_fences env root supervisor durableRequest binding decision request receipt bindingSha)
       (Err ''wake delivery commitment ownership fence mismatch'') (
     bind_io (delivery_time receipt) (\<lambda>deliveredAt.
     create_receipt root request (delivered_receipt receipt deliveredAt))))))))"

section \<open>Sorted process groups\<close>

lemma increasing_pairs:
  "(\<forall>i<length ns. i = 0 \<or> ns ! (i - 1) < ns ! i) \<longleftrightarrow> sorted_wrt (<) (ns :: int list)"
  by (auto simp: sorted_wrt_iff_nth_Suc_transp) (metis Suc_pred less_Suc_eq_0_disj neq0_conv diff_Suc_1)

lemma pos_safe_eq: "pos_safe v \<Longrightarrow> v = Num (int_of v) \<and> 0 < int_of v \<and> int_of v \<le> max_safe"
  by (cases v) (auto simp: pos_safe_def)

lemma elems_nums: "is_arr v \<Longrightarrow> (\<forall>i<length (elems v). pos_safe (elems v ! i)) \<Longrightarrow> v = Arr (map Num (map int_of (elems v)))"
  by (cases v) (auto simp: list_eq_iff_nth_eq dest: pos_safe_eq)

lemma positiveSortedProcessGroups_sorted:
  "positiveSortedProcessGroups allowEmpty v \<longleftrightarrow>
     (\<exists>ns. v = Arr (map Num ns) \<and> (allowEmpty \<or> ns \<noteq> []) \<and> sorted_wrt (<) ns \<and> (\<forall>n\<in>set ns. 0 < n \<and> n \<le> max_safe))"
    (is "?l = ?r")
proof
  assume l: ?l
  let ?ns = "map int_of (elems v)"
  have safe: "\<forall>i<length (elems v). pos_safe (elems v ! i)" and a: "is_arr v"
    and order: "\<forall>i<length ?ns. i = 0 \<or> ?ns ! (i - 1) < ?ns ! i"
    using l by (auto simp: positiveSortedProcessGroups_def list_all_iff)
  have "\<forall>n\<in>set ?ns. 0 < n \<and> n \<le> max_safe"
    using safe pos_safe_eq by (auto simp: in_set_conv_nth)
  moreover have "allowEmpty \<or> ?ns \<noteq> []" using l by (simp add: positiveSortedProcessGroups_def)
  ultimately show ?r using elems_nums [OF a safe] order [unfolded increasing_pairs] by blast
next
  assume ?r
  then obtain ns where v: "v = Arr (map Num ns)" and e: "allowEmpty \<or> ns \<noteq> []" and s: "sorted_wrt (<) ns"
    and b: "\<forall>n\<in>set ns. 0 < n \<and> n \<le> max_safe" by blast
  show ?l using v e b s [folded increasing_pairs]
    by (auto simp: positiveSortedProcessGroups_def list_all_iff pos_safe_Num)
qed

text \<open>A list of process groups is accepted exactly when it is an array of positive safe integers in strictly
  increasing order, so without repetitions; the empty array only where it is allowed.\<close>

theorem positiveSortedProcessGroups_iff:
  "positiveSortedProcessGroups allowEmpty v \<longleftrightarrow>
     (\<exists>ns. v = Arr (map Num ns) \<and> (allowEmpty \<or> ns \<noteq> []) \<and> sorted_wrt (<) ns \<and> (\<forall>n\<in>set ns. 0 < n \<and> n \<le> max_safe))"
  by (rule positiveSortedProcessGroups_sorted)

lemma positiveSortedProcessGroups_iff_witness:
  "positiveSortedProcessGroups False (Arr [Num 3, Num 7]) \<and> \<not> positiveSortedProcessGroups True (Arr [Num 7, Num 7])"
proof
  show "positiveSortedProcessGroups False (Arr [Num 3, Num 7])"
    unfolding positiveSortedProcessGroups_iff by (rule exI [of _ "[3, 7]"]) (simp add: max_safe_def)
  show "\<not> positiveSortedProcessGroups True (Arr [Num 7, Num 7])"
    unfolding positiveSortedProcessGroups_iff by (auto simp: Cons_eq_map_conv)
qed

section \<open>A receipt is committed once\<close>

lemma receipt_path_other [simp]:
  "receiptPath root ev \<noteq> root @ ''/.opsle/state.json''" "receiptPath root ev \<noteq> json_in (root @ ''/.opsle/children'') a"
  "\<not> journal_path root (receiptPath root ev)"
  by (simp_all add: receiptPath_def json_in_def starts_with_def)

lemma keeps_count_activation [keeping]:
  "p \<noteq> json_in (p_attempts (paths root)) (js_string a) \<Longrightarrow> keeps p (count_activation root a)"
  unfolding count_activation_def Let_def by (intro keeping)

lemma keeps_announce [keeping]: "\<not> journal_path root p \<Longrightarrow> keeps p (announce_delivery root request receipt state)"
  unfolding announce_delivery_def by (intro keeping)

lemma keeps_record_delivery [keeping]: "keeps (receiptPath root ev) (record_delivery root request receipt)"
  unfolding record_delivery_def by (intro keeping) simp_all

lemma record_delivery_result:
  "record_delivery root request receipt w = (Inr x, w') \<Longrightarrow> jget ''receipt'' x = receipt \<and> jget ''delivered'' x = JBool True"
  unfolding record_delivery_def by (auto elim!: bind_io_InrE)

text \<open>What a committed receipt is bound to.\<close>

definition delivery_authorized :: "wake_env \<Rightarrow> string \<Rightarrow> world \<Rightarrow> jv \<Rightarrow> jv \<Rightarrow> bool" where
  "delivery_authorized env root w request receipt \<longleftrightarrow> (\<exists>sv decision binding.
     supervisor_on_disk root w = Inr sv \<and> decision_on_disk root (jget ''event_id'' request) w = Inr decision
     \<and> parse_object (binding_file root) (bytes_at w (binding_file root)) = Inr binding \<and> binding_valid binding
     \<and> target_matches request sv
     \<and> in_strs [''CLAIMED'', ''DELIVERED''] (jget ''status'' decision)
     \<and> jget ''supervisor_generation'' decision = jget ''generation'' sv
     \<and> jget ''supervisor_generation'' binding = jget ''generation'' sv
     \<and> jget ''fencing_token'' decision = jget ''activation_fencing_token'' receipt
     \<and> jget ''transport_attempt_id'' decision = jget ''transport_attempt_id'' receipt
     \<and> jget ''codex_session_uuid'' binding = jget ''codex_session_uuid'' receipt
     \<and> activationOwnerCurrent (wake_host env) (jget ''wake_owner'' receipt))"

lemma receipt_fences_authorize:
  assumes "receipt_fences env root supervisor durableRequest binding decision request receipt bindingSha"
    and "supervisor_on_disk root w = Inr supervisor" "decision_on_disk root (jget ''event_id'' request) w = Inr decision"
    and "parse_object (binding_file root) (bytes_at w (binding_file root)) = Inr binding"
  shows "delivery_authorized env root w request receipt"
proof -
  note F = assms(1) [unfolded receipt_fences_def fences_def list.pred_inject fst_conv snd_conv]
  have "target_matches request supervisor" using F unfolding target_matches_def by blast
  moreover have "jget ''supervisor_generation'' decision = jget ''generation'' supervisor"
      "jget ''supervisor_generation'' binding = jget ''generation'' supervisor"
      "jget ''fencing_token'' decision = jget ''activation_fencing_token'' receipt"
      "jget ''transport_attempt_id'' decision = jget ''transport_attempt_id'' receipt"
      "jget ''codex_session_uuid'' binding = jget ''codex_session_uuid'' receipt"
    using F by (blast dest: strict_eq_imp_eq sym)+
  moreover have "binding_valid binding" "in_strs [''CLAIMED'', ''DELIVERED''] (jget ''status'' decision)"
      "activationOwnerCurrent (wake_host env) (jget ''wake_owner'' receipt)"
    using F by blast+
  ultimately show ?thesis using assms(2-4) unfolding delivery_authorized_def by blast
qed

lemma create_receipt_cases:
  assumes "create_receipt root request receipt w = (Inr x, w1)"
  obtains (created) "bytes_at w (receiptPath root (jget ''event_id'' request)) = None"
      "jget ''receipt'' x = receipt" "jget ''delivered'' x = JBool True"
      "bytes_at w1 (receiptPath root (jget ''event_id'' request)) = Some (canonicalJson receipt)"
  | (existing) "bytes_at w (receiptPath root (jget ''event_id'' request)) \<noteq> None" "jget ''delivered'' x = JBool False"
proof (cases "bytes_at w (receiptPath root (jget ''event_id'' request))")
  case None
  let ?w = "put_file (receiptPath root (jget ''event_id'' request)) (canonicalJson receipt) w"
  have "record_delivery root request receipt ?w = (Inr x, w1)"
    using assms None by (simp add: create_receipt_def Let_def bind_io_def atomicCreateJson_def)
  with keepsD [OF keeps_record_delivery this] record_delivery_result [OF this] None created show thesis by simp
next
  case (Some b)
  then have "jget ''delivered'' x = JBool False"
    using assms by (auto simp: create_receipt_def Let_def bind_io_def atomicCreateJson_def split: sum.splits)
  with Some existing show thesis by simp
qed

lemma commit_cases:
  assumes "commitDeliveredReceipt env root request receipt w = (Inr x, w1)"
  obtains (new) t where "delivery_authorized env root w request receipt"
      "bytes_at w (receiptPath root (jget ''event_id'' request)) = None"
      "jget ''receipt'' x = jset ''delivered_at'' t (jset ''status'' (Str ''DELIVERED'') receipt)" "jget ''delivered'' x = JBool True"
      "bytes_at w1 (receiptPath root (jget ''event_id'' request)) = Some (canonicalJson (jget ''receipt'' x))"
  | (old) "bytes_at w (receiptPath root (jget ''event_id'' request)) \<noteq> None" "jget ''delivered'' x = JBool False"
proof -
  let ?p = "receiptPath root (jget ''event_id'' request)"
  obtain sv durableRequest binding decision bindingSha t w2 where
    sv: "readJson (p_supervisor (paths root)) w = (Inr sv, w)"
    and binding: "readJson (binding_file root) w = (Inr binding, w)"
    and decision: "readJson (activationDecisionPath root (jget ''event_id'' request)) w = (Inr decision, w)"
    and ok: "receipt_fences env root sv durableRequest binding decision request receipt bindingSha"
    and time: "delivery_time receipt w = (Inr t, w2)"
    and run: "create_receipt root request (delivered_receipt receipt t) w2 = (Inr x, w1)"
    using assms unfolding commitDeliveredReceipt_def
    by (elim bind_io_InrE) (auto simp: guard_io_eq_Inr fileSha256_def elim!: bind_io_InrE split: option.splits)
  have same: "bytes_at w2 = bytes_at w" using time by (auto simp: delivery_time_def split: if_splits)
  have auth: "delivery_authorized env root w request receipt"
    by (rule receipt_fences_authorize [OF ok]) (use sv binding decision in \<open>simp_all add: supervisor_on_disk_def decision_on_disk_def\<close>)
  from run show thesis
  proof (cases rule: create_receipt_cases)
    case created
    with same auth new show thesis by (simp add: delivered_receipt_def)
  next
    case existing
    with same old show thesis by simp
  qed
qed

lemma keeps_create_present:
  assumes "bytes_at w (receiptPath root ev) \<noteq> None"
  shows "bytes_at (snd (create_receipt root request receipt w)) (receiptPath root ev) = bytes_at w (receiptPath root ev)"
proof -
  have "bytes_at (snd (atomicCreateJson q v w)) (receiptPath root ev) = bytes_at w (receiptPath root ev)" for q v
    using assms by (auto simp: atomicCreateJson_def split: option.splits)
  then show ?thesis
    using keeps_record_delivery [of root ev request, unfolded keeps_def]
    by (auto simp: create_receipt_def Let_def bind_io_def split: prod.splits sum.splits) (metis snd_conv)+
qed

lemma keeps_commit_present:
  assumes "bytes_at w (receiptPath root ev) \<noteq> None"
  shows "bytes_at (snd (commitDeliveredReceipt env root request receipt w)) (receiptPath root ev) = bytes_at w (receiptPath root ev)"
proof -
  have "bytes_at (snd (delivery_time receipt w)) = bytes_at w" by (auto simp: delivery_time_def)
  then have "post (delivery_time receipt) w (\<lambda>r w'. bytes_at w' = bytes_at w)" by (simp add: post_def)
  then have "post (bind_io (delivery_time receipt) (\<lambda>t. create_receipt root request (delivered_receipt receipt t))) w
      (\<lambda>r w'. bytes_at w' (receiptPath root ev) = bytes_at w (receiptPath root ev))"
    unfolding post_bind by (rule post_weaken)
      (use assms in \<open>auto simp: post_def [of "create_receipt _ _ _"] keeps_create_present\<close>)
  then have "post (commitDeliveredReceipt env root request receipt) w (\<lambda>r w'. bytes_at w' (receiptPath root ev) = bytes_at w (receiptPath root ev))"
    unfolding commitDeliveredReceipt_def post_guard by (simp add: wp del: post_bind) (simp add: post_bind wp post_guard)
  then show ?thesis by (simp add: post_def)
qed

text \<open>C13: a receipt is committed at most once per event: it is created only when there is none, under the current
  supervisor generation, a claimed decision with the same fencing token and attempt, and the bound session;
  afterwards no commitment, by whatever caller, changes it or reports a delivery again.\<close>

theorem receipt_committed_once:
  assumes "commitDeliveredReceipt env root request receipt w = (Inr x, w1)" and "jget ''delivered'' x = JBool True"
    and "jget ''event_id'' request2 = jget ''event_id'' request"
    and "commitDeliveredReceipt env2 root request2 receipt2 w1 = (r, w2)"
  shows "bytes_at w (receiptPath root (jget ''event_id'' request)) = None
    \<and> delivery_authorized env root w request receipt
    \<and> bytes_at w1 (receiptPath root (jget ''event_id'' request)) = Some (canonicalJson (jget ''receipt'' x))
    \<and> bytes_at w2 (receiptPath root (jget ''event_id'' request)) = Some (canonicalJson (jget ''receipt'' x))
    \<and> (case r of Inl e \<Rightarrow> True | Inr y \<Rightarrow> jget ''delivered'' y = JBool False)"
  using assms(1)
proof (cases rule: commit_cases)
  case (new t)
  let ?p = "receiptPath root (jget ''event_id'' request)"
  have present: "bytes_at w1 ?p \<noteq> None" using new by simp
  have "bytes_at w2 ?p = bytes_at w1 ?p" using keeps_commit_present [OF present, of env2 request2 receipt2] assms(4) by simp
  moreover have "case r of Inl e \<Rightarrow> True | Inr y \<Rightarrow> jget ''delivered'' y = JBool False"
  proof (cases r)
    case (Inr y)
    from assms(4) [unfolded Inr] have "jget ''delivered'' y = JBool False"
      by (cases rule: commit_cases) (use present assms(3) in auto)
    with Inr show ?thesis by simp
  qed simp
  ultimately show ?thesis using new by simp
qed (use assms(2) in simp)

section \<open>Witnesses\<close>

lemma announce_ok:
  assumes "parse_object (p_supervisor (paths root)) (bytes_at w (p_supervisor (paths root))) = Inr sv"
  shows "\<exists>x w'. announce_delivery root request receipt state w = (Inr x, w')"
proof -
  let ?P = "\<lambda>w1. parse_object (p_supervisor (paths root)) (bytes_at w1 (p_supervisor (paths root))) = Inr sv"
  have emits: "\<exists>ev w2. emit root ty d w1 = (Inr ev, w2) \<and> ?P w2" if "?P w1" for ty d w1
  proof -
    from that obtain ev w2 where r: "emit root ty d w1 = (Inr ev, w2)" using emit_ok by blast
    have "bytes_at w2 (p_supervisor (paths root)) = bytes_at w1 (p_supervisor (paths root))"
      by (rule emit_effect(1) [OF r]) (simp add: starts_with_def)
    with r that show ?thesis by auto
  qed
  have last: "\<exists>ev w2. emit root ty d w1 = (Inr ev, w2)" if "?P w1" for ty d w1
    using emits [OF that] by blast
  show ?thesis unfolding announce_delivery_def
    by (intro bind_succeeds [where P = ?P] emits last assms) assumption+
qed

lemma record_delivery_paused:
  assumes "parse_object (p_supervisor (paths root)) (bytes_at w (p_supervisor (paths root))) = Inr sv"
    and "parse_object (p_state (paths root)) (bytes_at w (p_state (paths root))) = Inr state" "stays_paused state"
    and "bytes_at w (json_in (p_attempts (paths root)) (js_string (jget ''attempt_id'' request))) = None"
  shows "\<exists>x w'. record_delivery root request receipt w = (Inr x, w')"
proof -
  obtain x w' where "announce_delivery root request receipt state w = (Inr x, w')" using announce_ok [OF assms(1)] by blast
  then show ?thesis using assms by (simp add: record_delivery_def bind_readJson count_activation_def Let_def bind_io_Inr)
qed

definition json_file :: "string \<Rightarrow> jv \<Rightarrow> string \<times> string" where
  "json_file p v = (p, canonicalJson v)"

definition deliver_uuid :: string where
  "deliver_uuid = ''00000000-0000-0000-0000-000000000000''"

definition deliver_process :: jv where
  "deliver_process = Obj [(''command_line_sha256'', Str (replicate 64 (CHR ''a''))), (''executable'', Str ''/n''), (''pid'', Num 7),
     (''start_time_ticks'', Str ''4''), (''tty'', Null), (''uid'', Num 0)]"

definition deliver_env :: wake_env where
  "deliver_env = \<lparr>wake_host = \<lparr>manifest = Obj [], package_root = ''/p'', process_of = (\<lambda>_. deliver_process)\<rparr>,
     real_path = id, stat_of = (\<lambda>p. Inr (Obj [(''dev'', Num 1), (''ino'', Num 2)])), worker_sha = ''w''\<rparr>"

definition deliver_supervisor :: jv where
  "deliver_supervisor = Obj [(''generation'', Num 1), (''repository'', Str ''/r''), (''supervisor_id'', Str ''s'')]"

definition deliver_request :: jv where
  "deliver_request = Obj [(''attempt_id'', Str ''a''), (''event_id'', Str ''e''), (''queue_version'', Num 1),
     (''target'', Obj [(''repository'', Str ''/r''), (''supervisor_generation'', Num 1), (''supervisor_id'', Str ''s'')]),
     (''task_id'', Str ''t'')]"

definition deliver_binding :: jv where
  "deliver_binding = Obj [(''binding_id'', Str ''b''), (''codex_cli_version'', Str ''1''), (''codex_session_uuid'', Str deliver_uuid),
     (''host'', Obj [(''authority'', Str ''authoritative''), (''kind'', Str ''herdr''), (''pane_id'', Str ''p''), (''process'', deliver_process),
        (''terminal_id'', Str ''t''), (''workspace_cwd'', Str ''/r''), (''workspace_id'', Str ''w'')]),
     (''native_wake'', Obj [(''confirmation'', Str ''bound-rollout-exact-message-and-turn-began''), (''supported'', JBool True),
        (''transport'', Str ''plain-codex-resume'')]),
     (''repository_realpath'', Str ''/r''),
     (''rollout'', Obj [(''device'', Num 1), (''inode'', Num 2), (''realpath'', Str ''/x''),
        (''session_meta_line_sha256'', Str (replicate 64 (CHR ''a''))), (''session_meta_payload_sha256'', Str (replicate 64 (CHR ''b'')))]),
     (''schema'', Str LEGACY_CODEX_SESSION_BINDING_SCHEMA), (''sessions_root_realpath'', Str ''/x''),
     (''supervisor_generation'', Num 1), (''supervisor_id'', Str ''s''), (''uid'', Num 0)]"

definition deliver_decision :: "string \<Rightarrow> jv" where
  "deliver_decision status = Obj [(''decision_id'', Str ''d''), (''delivery_id'', Str ''v''), (''event_id'', Str ''e''), (''fencing_token'', Num 3),
     (''lease_id'', Str ''l''), (''message_sha256'', Str ''m''), (''schema'', Str ACTIVATION_DECISION_SCHEMA), (''status'', Str status),
     (''supervisor_generation'', Num 1), (''supervisor_id'', Str ''s''), (''transport_attempt_id'', Str ''ta'')]"

definition deliver_receipt :: "jv \<Rightarrow> string \<Rightarrow> jv" where
  "deliver_receipt deliveredAt status = Obj [(''activation_decision_id'', Str ''d''), (''activation_fencing_token'', Num 3), (''activation_lease_id'', Str ''l''),
     (''codex_session_binding_sha256'', Str (canonicalJson deliver_binding)), (''codex_session_uuid'', Str deliver_uuid),
     (''delivered_at'', deliveredAt), (''delivery_id'', Str ''v''), (''event_id'', Str ''e''), (''host_kind'', Str ''herdr''), (''message_sha256'', Str ''m''),
     (''native_transport'', Str ''plain-codex-resume''), (''queue_version'', Num 1), (''repository'', Str ''/r''),
     (''schema'', Str DELIVERY_SCHEMA), (''status'', Str status), (''supervisor_generation'', Num 1), (''supervisor_id'', Str ''s''),
     (''transport_attempt_id'', Str ''ta''), (''wake_owner'', Obj [(''kind'', Str ''cli''), (''process'', deliver_process)]),
     (''wake_worker_implementation_sha256'', Str ''w'')]"

definition deliver_state :: jv where
  "deliver_state = Obj [(''pause'', Obj [(''active'', JBool True)])]"

definition deliver_world :: "string \<Rightarrow> (string \<times> string) list \<Rightarrow> world" where
  "deliver_world status fs = \<lparr>files = [json_file ''/r/.opsle/supervisor.json'' deliver_supervisor, json_file ''/r/.opsle/wake/requests/e.json'' deliver_request,
     json_file ''/r/.opsle/wake/codex-session-binding.json'' deliver_binding,
     json_file ''/r/.opsle/wake/activation-decisions/e.json'' (deliver_decision status), json_file ''/r/.opsle/state.json'' deliver_state] @ fs,
     dirs = [], clock = (\<lambda>n. ''T''), ticks = 0, uuids = nat_str, drawn = 0, digest = id\<rparr>"

lemma deliver_pure:
  "durable deliver_supervisor = deliver_supervisor" "durable deliver_request = deliver_request"
  "durable deliver_binding = deliver_binding" "durable deliver_state = deliver_state"
  "durable (deliver_decision ''CLAIMED'') = deliver_decision ''CLAIMED''"
  "durable (deliver_decision ''DELIVERED'') = deliver_decision ''DELIVERED''"
  by code_simp+

lemma deliver_small:
  "jwf deliver_supervisor" "jwf deliver_request" "jwf deliver_binding" "jwf deliver_state" "jwf (deliver_decision st)"
  "is_obj deliver_supervisor" "is_obj deliver_request" "is_obj deliver_binding" "is_obj deliver_state" "is_obj (deliver_decision st)"
  by (simp_all add: deliver_supervisor_def deliver_request_def deliver_binding_def deliver_state_def deliver_decision_def deliver_process_def)

lemma deliver_disk:
  assumes "st = ''CLAIMED'' \<or> st = ''DELIVERED''"
  shows "readJson (p_supervisor (paths ''/r'')) (deliver_world st fs) = (Inr deliver_supervisor, deliver_world st fs)"
    "readJson (requestPath ''/r'' (Str ''e'')) (deliver_world st fs) = (Inr deliver_request, deliver_world st fs)"
    "readJson (binding_file ''/r'') (deliver_world st fs) = (Inr deliver_binding, deliver_world st fs)"
    "readJson (activationDecisionPath ''/r'' (Str ''e'')) (deliver_world st fs) = (Inr (deliver_decision st), deliver_world st fs)"
    "readJson (p_state (paths ''/r'')) (deliver_world st fs) = (Inr deliver_state, deliver_world st fs)"
    "fileSha256 (binding_file ''/r'') (deliver_world st fs) = (Inr (canonicalJson deliver_binding), deliver_world st fs)"
  using assms
  by (auto simp: deliver_world_def json_file_def bytes_at_def requestPath_def binding_file_def activationDecisionPath_def json_in_def
      deliver_pure deliver_small fileSha256_def)

definition done_receipt :: jv where
  "done_receipt = deliver_receipt (Str ''T'') ''DELIVERED''"

lemma done_receipt_small: "jwf done_receipt" "is_obj done_receipt"
  by (simp_all add: done_receipt_def deliver_receipt_def deliver_process_def)

lemma done_receipt_pure: "durable done_receipt = done_receipt"
proof -
  have "durable (deliver_receipt (Str ''T'') ''DELIVERED'') = deliver_receipt (Str ''T'') ''DELIVERED''"
    by (simp add: deliver_receipt_def durable_def deliver_process_def sort_key_def DELIVERY_SCHEMA_def)
  then show ?thesis by (simp add: done_receipt_def)
qed

lemma deliver_valid: "binding_valid deliver_binding"
  by code_simp

lemma deliver_owner: "activationOwnerCurrent (wake_host deliver_env) (jget ''wake_owner'' (deliver_receipt t st))"
  by (simp add: deliver_receipt_def activationOwnerCurrent_def sameProcess_def deliver_env_def deliver_process_def in_strs_def)

lemma deliver_fences:
  "receipt_fences deliver_env ''/r'' deliver_supervisor deliver_request deliver_binding (deliver_decision ''CLAIMED'') deliver_request
     (deliver_receipt Null ''CLAIMED'') (canonicalJson deliver_binding)"
  unfolding receipt_fences_def using deliver_owner deliver_valid
  by (simp add: fences_def deliver_supervisor_def deliver_request_def deliver_decision_def deliver_receipt_def deliver_env_def strict_eq_def)
    (simp add: deliver_binding_def)

lemma deliver_commit:
  "\<exists>x w1. commitDeliveredReceipt deliver_env ''/r'' deliver_request (deliver_receipt Null ''CLAIMED'') (deliver_world ''CLAIMED'' []) = (Inr x, w1)
     \<and> jget ''delivered'' x = JBool True"
proof -
  let ?w = "deliver_world ''CLAIMED'' []" and ?r = "delivered_receipt (deliver_receipt Null ''CLAIMED'') (Str ''T'')"
  let ?p = "receiptPath ''/r'' (Str ''e'')"
  define w1 where "w1 = ?w\<lparr>ticks := Suc (ticks ?w)\<rparr>"
  define w2 where "w2 = put_file ?p (canonicalJson ?r) w1"
  have ev: "jget ''event_id'' deliver_request = Str ''e''" "jget ''attempt_id'' deliver_request = Str ''a''"
    by (simp_all add: deliver_request_def)
  have time: "delivery_time (deliver_receipt Null ''CLAIMED'') ?w = (Inr (Str ''T''), w1)"
    by (simp add: delivery_time_def deliver_receipt_def w1_def deliver_world_def)
  have free: "bytes_at w1 ?p = None" by (simp add: w1_def deliver_world_def json_file_def bytes_at_def receiptPath_def json_in_def)
  have kept: "bytes_at w2 p = bytes_at ?w p" if "p \<noteq> ?p" for p using that by (simp add: w2_def w1_def)
  have sv: "parse_object (p_supervisor (paths ''/r'')) (bytes_at w2 (p_supervisor (paths ''/r''))) = Inr deliver_supervisor"
    and st: "parse_object (p_state (paths ''/r'')) (bytes_at w2 (p_state (paths ''/r''))) = Inr deliver_state"
    using deliver_disk(1,5) [of "''CLAIMED''" "[]"]
    by (simp_all add: kept receiptPath_def json_in_def)
  have absent: "bytes_at w2 (json_in (p_attempts (paths ''/r'')) (js_string (jget ''attempt_id'' deliver_request))) = None"
    by (simp add: ev kept receiptPath_def json_in_def) (simp add: deliver_world_def json_file_def bytes_at_def)
  have "stays_paused deliver_state" by (simp add: stays_paused_def deliver_state_def)
  from record_delivery_paused [OF sv st this absent] obtain x w3 where rec: "record_delivery ''/r'' deliver_request ?r w2 = (Inr x, w3)" by blast
  have "create_receipt ''/r'' deliver_request ?r w1 = (Inr x, w3)"
    using free rec by (simp add: create_receipt_def Let_def bind_io_def atomicCreateJson_def ev w2_def)
  then have "commitDeliveredReceipt deliver_env ''/r'' deliver_request (deliver_receipt Null ''CLAIMED'') ?w = (Inr x, w3)"
    using deliver_disk [of "''CLAIMED''" "[]"] deliver_fences time
    by (simp only: commitDeliveredReceipt_def ev bind_io_def prod.case sum.case guard_io_def simp_thms if_False HOL.disj_not1 HOL.not_not)
  with record_delivery_result [OF rec] show ?thesis by blast
qed

theorem receipt_committed_once_witness:
  "\<exists>x w1. commitDeliveredReceipt deliver_env ''/r'' deliver_request (deliver_receipt Null ''CLAIMED'') (deliver_world ''CLAIMED'' []) = (Inr x, w1)
     \<and> bytes_at (snd (commitDeliveredReceipt deliver_env ''/r'' deliver_request (deliver_receipt (Str ''later'') ''CLAIMED'') w1)) (receiptPath ''/r'' (Str ''e''))
       = Some (canonicalJson (jget ''receipt'' x))"
proof -
  obtain x w1 where run: "commitDeliveredReceipt deliver_env ''/r'' deliver_request (deliver_receipt Null ''CLAIMED'') (deliver_world ''CLAIMED'' []) = (Inr x, w1)"
      and d: "jget ''delivered'' x = JBool True" using deliver_commit by blast
  obtain r w2 where again: "commitDeliveredReceipt deliver_env ''/r'' deliver_request (deliver_receipt (Str ''later'') ''CLAIMED'') w1 = (r, w2)" by fastforce
  have "jget ''event_id'' deliver_request = Str ''e''" by (simp add: deliver_request_def)
  with receipt_committed_once [OF run d refl again] run again show ?thesis by (metis snd_conv)
qed

end
