(* ===== verification/Cleanup.thy ===== *)
theory Cleanup imports Delivery ReadBack begin

text \<open>
  Committing a receipt on rollout evidence (src/wakeup.js): \<open>commitConfirmedWakeReceipt\<close>, the
  later record of the temporary frontend's cleanup (\<open>updateCommittedWakeCleanup\<close>), and a
  confirmation that was found only after the cleanup (\<open>reconcileLateConfirmation\<close>).
\<close>

section \<open>Evidence\<close>

definition exactRolloutConfirmation :: "jv \<Rightarrow> jv" where
  "exactRolloutConfirmation v =
     (if \<not> truthy v \<or> \<not> safe_int (jget ''accepted_ordinal'' v) \<or> \<not> hex64 (jget ''accepted_record_sha256'' v)
         \<or> \<not> safe_int (jget ''turn_began_ordinal'' v) \<or> \<not> hex64 (jget ''turn_began_record_sha256'' v)
         \<or> \<not> is_str (jget ''turn_id'' v) \<or> \<not> safe_int (jget ''turn_started_at_ms'' v) then Null
      else Obj [
        (''accepted_ordinal'', jget ''accepted_ordinal'' v),
        (''accepted_record_sha256'', jget ''accepted_record_sha256'' v),
        (''turn_began_ordinal'', jget ''turn_began_ordinal'' v),
        (''turn_began_record_sha256'', jget ''turn_began_record_sha256'' v),
        (''turn_id'', jget ''turn_id'' v),
        (''turn_started_at_ms'', jget ''turn_started_at_ms'' v)])"

definition groups_within :: "jv \<Rightarrow> jv \<Rightarrow> bool" where
  "groups_within groups tracked \<longleftrightarrow> positiveSortedProcessGroups True groups
     \<and> list_all (\<lambda>g. jincludes (elems tracked) g) (elems groups)"

definition transportCleanupEvidenceComplete :: "jv \<Rightarrow> bool" where
  "transportCleanupEvidenceComplete c \<longleftrightarrow>
     (let tracked = jget ''tracked_process_groups'' c; counts = jget ''process_group_member_counts'' c in
     jget ''cleanup_proven'' c = JBool True
     \<and> jget ''launcher_exit_observed'' c = JBool True
     \<and> jget ''frontend_exit_observed'' c = JBool True
     \<and> pos_safe (jget ''process_group'' c)
     \<and> positiveSortedProcessGroups False tracked
     \<and> jincludes (elems tracked) (jget ''process_group'' c)
     \<and> groups_within (jget ''frontend_process_groups'' c) tracked
     \<and> groups_within (jget ''signaled_process_groups'' c) tracked
     \<and> is_arr counts \<and> length (elems counts) = length (elems tracked)
     \<and> list_all (\<lambda>i. strict_eq (jget ''process_group'' (elems counts ! i)) (elems tracked ! i)
         \<and> jget ''member_count'' (elems counts ! i) = Num 0) [0..<length (elems counts)]
     \<and> jget ''process_group_member_count'' c = Num 0
     \<and> jget ''duplicate_frontend_count'' c = Num 0
     \<and> jget ''invalid_frontend_identity_count'' c = Num 0
     \<and> jget ''blocked_process_groups'' c = Arr []
     \<and> pos_safe (jget ''authoritative_host_process_group'' c)
     \<and> \<not> jincludes (elems tracked) (jget ''authoritative_host_process_group'' c)
     \<and> jget ''authoritative_host_signaled'' c = JBool False
     \<and> jget ''authoritative_host_continuity_proven'' c = JBool True)"

section \<open>commitConfirmedWakeReceipt\<close>

definition resume_argv :: "jv \<Rightarrow> jv \<Rightarrow> jv" where
  "resume_argv binding message = Arr [Str ''codex'', Str ''resume'', jget ''codex_session_uuid'' binding, message]"

definition expected_fence :: "jv \<Rightarrow> jv" where
  "expected_fence evidence = Obj [
     (''queueVersion'', jpath [''request'', ''queue_version''] evidence),
     (''requestSha256'', jpath [''request'', ''sha256''] evidence),
     (''supervisorId'', jpath [''supervisor'', ''supervisor_id''] evidence),
     (''supervisorGeneration'', jpath [''supervisor'', ''generation''] evidence)]"

text \<open>The session and its rollout are the bound ones.\<close>

definition session_fences :: "jv \<Rightarrow> jv \<Rightarrow> string \<Rightarrow> bool" where
  "session_fences evidence binding bindingSha \<longleftrightarrow>
     jpath [''session'', ''binding_sha256''] evidence = Str bindingSha
     \<and> fences [(jpath [''session'', ''session_id''] evidence, jget ''codex_session_uuid'' binding),
         (jpath [''session'', ''rollout'', ''realpath''] evidence, jpath [''rollout'', ''realpath''] binding),
         (jpath [''session'', ''rollout'', ''device''] evidence, jpath [''rollout'', ''device''] binding),
         (jpath [''session'', ''rollout'', ''inode''] evidence, jpath [''rollout'', ''inode''] binding)]"

definition evidence_fences :: "wake_env \<Rightarrow> string \<Rightarrow> jv \<Rightarrow> jv \<Rightarrow> jv \<Rightarrow> jv \<Rightarrow> jv \<Rightarrow> jv \<Rightarrow> jv \<Rightarrow> string \<Rightarrow> string \<Rightarrow> string \<Rightarrow> bool" where
  "evidence_fences env root evidence request supervisor binding decision lease rolloutStat requestSha bindingSha messageSha \<longleftrightarrow>
     (let message = jidx 3 (jget ''canonical_argv'' evidence) in
     jget ''repository_realpath'' evidence = Str root
     \<and> jpath [''request'', ''sha256''] evidence = Str requestSha
     \<and> fences [(jpath [''request'', ''queue_version''] evidence, jget ''queue_version'' request),
         (jpath [''supervisor'', ''supervisor_id''] evidence, jget ''supervisor_id'' supervisor),
         (jpath [''supervisor'', ''generation''] evidence, jget ''generation'' supervisor)]
     \<and> sameActivationOwner (jget ''wake_owner'' evidence) (jget ''owner'' lease)
     \<and> activationOwnerCurrent (wake_host env) (jget ''owner'' lease)
     \<and> fences [(jpath [''activation'', ''lease_id''] evidence, jget ''lease_id'' lease),
         (jpath [''activation'', ''fencing_token''] evidence, jget ''fencing_token'' lease)]
     \<and> jget ''status'' decision = Str ''CLAIMED''
     \<and> fences [(jget ''decision_id'' decision, jpath [''activation'', ''decision_id''] evidence),
         (jget ''lease_id'' decision, jget ''lease_id'' lease),
         (jget ''fencing_token'' decision, jget ''fencing_token'' lease),
         (jget ''transport_attempt_id'' decision, jget ''transport_attempt_id'' evidence),
         (jget ''delivery_id'' decision, jget ''delivery_id'' evidence),
         (jget ''message_sha256'' decision, jget ''message_sha256'' evidence)]
     \<and> jget ''repository_realpath'' binding = Str root
     \<and> fences [(jget ''supervisor_id'' binding, jget ''supervisor_id'' supervisor),
         (jget ''supervisor_generation'' binding, jget ''generation'' supervisor)]
     \<and> session_fences evidence binding bindingSha
     \<and> fences [(jget ''dev'' rolloutStat, jpath [''rollout'', ''device''] binding),
         (jget ''ino'' rolloutStat, jpath [''rollout'', ''inode''] binding)]
     \<and> safe_int (jpath [''transport'', ''baseline_ordinal''] evidence)
     \<and> canonicalJson (jget ''canonical_argv'' evidence) = canonicalJson (resume_argv binding message)
     \<and> is_str message
     \<and> jget ''message_sha256'' evidence = Str messageSha
     \<and> jpath [''transport'', ''message_sha256''] evidence = Str messageSha)"

definition confirmed_receipt :: "wake_env \<Rightarrow> string \<Rightarrow> jv \<Rightarrow> jv \<Rightarrow> jv \<Rightarrow> jv \<Rightarrow> jv \<Rightarrow> jv \<Rightarrow> jv \<Rightarrow> jv \<Rightarrow> jv \<Rightarrow> string \<Rightarrow> jv" where
  "confirmed_receipt env evidencePath evidence request supervisor binding decision lease hostKind nativeTransport confirmation evidenceSha = Obj [
     (''schema'', Str DELIVERY_SCHEMA),
     (''repository'', jget ''repository'' supervisor),
     (''delivery_id'', jget ''delivery_id'' evidence),
     (''event_id'', jget ''event_id'' request),
     (''queue_version'', jget ''queue_version'' request),
     (''supervisor_id'', jget ''supervisor_id'' supervisor),
     (''supervisor_generation'', jget ''generation'' supervisor),
     (''wake_worker_implementation_sha256'', Str (worker_sha env)),
     (''wake_worker_process'', coalesce (jpath [''wake_owner'', ''process''] evidence) Null),
     (''wake_owner'', coalesce (jget ''wake_owner'' evidence) Null),
     (''activation_lease_id'', jget ''lease_id'' lease),
     (''activation_fencing_token'', jget ''fencing_token'' lease),
     (''activation_decision_id'', jget ''decision_id'' decision),
     (''codex_session_binding_sha256'', jpath [''session'', ''binding_sha256''] evidence),
     (''host_kind'', hostKind),
     (''native_transport'', nativeTransport),
     (''codex_session_uuid'', jget ''codex_session_uuid'' binding),
     (''message_sha256'', jget ''message_sha256'' evidence),
     (''transport_attempt_id'', jget ''transport_attempt_id'' evidence),
     (''status'', Str ''CLAIMED''),
     (''claimed_at'', jget ''prepared_at'' evidence),
     (''delivered_at'', Null),
     (''consumed_at'', Null),
     (''failure'', Null),
     (''rollout_confirmation'', confirmation),
     (''temporary_frontend'', Obj [
        (''argv'', jget ''canonical_argv'' evidence),
        (''process_group'', coalesce (jpath [''process'', ''launcher'', ''process_group''] evidence) Null),
        (''cleanup_status'', Str ''PENDING''),
        (''cleanup_proven'', Null),
        (''cleanup_intervention'', Null)]),
     (''transport_evidence'', Obj [
        (''path'', Str evidencePath),
        (''confirmation_sha256'', Str evidenceSha),
        (''status'', Str ''CONFIRMED_RECEIPT_COMMITTED'')])]"

definition not_committed :: "string \<Rightarrow> jv" where
  "not_committed reason = Obj [(''committed'', JBool False), (''reason'', Str reason)]"

text \<open>The end of the call, from the receipt on.\<close>

definition commit_receipt :: "wake_env \<Rightarrow> string \<Rightarrow> jv \<Rightarrow> jv \<Rightarrow> jv \<Rightarrow> jv \<Rightarrow> jv wio" where
  "commit_receipt env root evidence request decision receipt =
     bind_io (commitDeliveredReceipt env root request receipt) (\<lambda>committed.
     let existing = jget ''receipt'' committed in
     if jget ''delivered'' committed \<noteq> JBool True then
       if \<not> strict_eq (jget ''delivery_id'' existing) (jget ''delivery_id'' receipt)
           \<or> \<not> strict_eq (jget ''transport_attempt_id'' existing) (jget ''transport_attempt_id'' evidence)
           \<or> \<not> in_strs [''DELIVERED'', ''CONSUMED''] (jget ''status'' existing)
       then ret (Obj [(''committed'', JBool False), (''reason'', jget ''reason'' committed)])
       else ret (Obj [(''committed'', JBool True), (''duplicate'', JBool True),
         (''path'', Str (receiptPath root (jget ''event_id'' request))), (''receipt'', existing)])
     else
       bind_io (updateActivationDecision root decision (Str ''DELIVERED'') Null) (\<lambda>d.
       ret (Obj [(''committed'', JBool True), (''duplicate'', JBool False),
         (''path'', Str (receiptPath root (jget ''event_id'' request))), (''receipt'', existing),
         (''decision_updated'', jget ''updated'' d),
         (''decision_update_reason'', if truthy (jget ''updated'' d) then Null else jget ''reason'' d)])))"

definition durable_confirmation :: "jv \<Rightarrow> jv \<Rightarrow> jv \<Rightarrow> jv \<Rightarrow> jv wio" where
  "durable_confirmation current binding message baselineOrdinal =
     (if \<not> truthy current then ret current
      else bind_io (rolloutConfirmation (js_string (jpath [''rollout'', ''realpath''] binding))
             (jget ''codex_session_uuid'' binding) message baselineOrdinal) (\<lambda>c.
           ret (exactRolloutConfirmation c)))"

definition commit_current :: "jv \<Rightarrow> bool \<Rightarrow> bool \<Rightarrow> jv \<Rightarrow> jv \<Rightarrow> bool" where
  "commit_current deliveryCurrent fenceCurrent evidenceOk current durableC \<longleftrightarrow>
     deliveryCurrent = JBool True \<and> fenceCurrent \<and> evidenceOk
     \<and> truthy current \<and> truthy durableC \<and> canonicalJson current = canonicalJson durableC"

definition commit_with :: "wake_env \<Rightarrow> string \<Rightarrow> string \<Rightarrow> jv \<Rightarrow> jv \<Rightarrow> jv \<Rightarrow> jv \<Rightarrow> jv \<Rightarrow> jv \<Rightarrow> jv \<Rightarrow> jv wio" where
  "commit_with env root evidencePath evidence request supervisor binding decision lease current =
     bind_io (lift_io (jdot ''kind'' (jget ''host'' binding))) (\<lambda>hostKind.
     bind_io (lift_io (jdot ''transport'' (jget ''native_wake'' binding))) (\<lambda>nativeTransport.
     bind_io (fileSha256 evidencePath) (\<lambda>evidenceSha.
     commit_receipt env root evidence request decision
       (confirmed_receipt env evidencePath evidence request supervisor binding decision lease hostKind nativeTransport current evidenceSha))))"

text \<open>The commit once the evidence file is known to be the attempt's own.\<close>

definition commit_evidence :: "wake_env \<Rightarrow> string \<Rightarrow> string \<Rightarrow> jv \<Rightarrow> jv \<Rightarrow> int \<Rightarrow> jv wio" where
  "commit_evidence env root evidencePath evidence current nowMs =
     (let message = jidx 3 (jget ''canonical_argv'' evidence) in
     bind_io (readJson (requestPath root (jget ''event_id'' evidence))) (\<lambda>request.
     bind_io (readJson (p_supervisor (paths root))) (\<lambda>supervisor.
     bind_io (readJson (binding_file root)) (\<lambda>binding.
     bind_io (readJson (activationDecisionPath root (jget ''event_id'' evidence))) (\<lambda>decision.
     bind_io (readJson (lease_file root)) (\<lambda>lease.
     bind_io (lift_io (jdot ''realpath'' (jget ''rollout'' binding))) (\<lambda>rolloutPath.
     bind_io (lift_io (stat_of env rolloutPath)) (\<lambda>rolloutStat.
     bind_io (durable_confirmation current binding message (jpath [''transport'', ''baseline_ordinal''] evidence)) (\<lambda>durableC.
     bind_io (validateDeliveryFence env root (jget ''event_id'' evidence) (expected_fence evidence)
         (coalesce (jget ''wake_owner'' evidence) Null)) (\<lambda>deliveryFence.
     bind_io (decisionFenceCurrent (wake_host env) root lease nowMs) (\<lambda>fenceCurrent.
     bind_io (sha256 (canonicalJson request)) (\<lambda>requestSha.
     bind_io (fileSha256 (binding_file root)) (\<lambda>bindingSha.
     bind_io (sha256 (str_of message)) (\<lambda>messageSha.
     if \<not> commit_current (jget ''current'' deliveryFence) fenceCurrent (evidence_fences env root evidence request supervisor binding decision lease rolloutStat requestSha bindingSha messageSha) current durableC
     then ret (not_committed ''confirmed-delivery-fence-not-current'')
     else commit_with env root evidencePath evidence request supervisor binding decision lease current))))))))))))))"

definition commitConfirmedWakeReceipt :: "wake_env \<Rightarrow> string \<Rightarrow> string \<Rightarrow> jv \<Rightarrow> int \<Rightarrow> jv wio" where
  "commitConfirmedWakeReceipt env root0 evidencePath confirmation nowMs =
     (let root = real_path env root0 in
     bind_io (directories root) (\<lambda>_.
     bind_io (readJson evidencePath) (\<lambda>evidence.
     if real_path env (dirname evidencePath) \<noteq> real_path env (wp_transportAttempts (wakePaths root))
         \<or> evidencePath \<noteq> transportAttemptPath root (jget ''transport_attempt_id'' evidence)
     then ret (not_committed ''transport-attempt-path-fence-mismatch'')
     else commit_evidence env root evidencePath evidence (exactRolloutConfirmation confirmation) nowMs)))"

section \<open>updateCommittedWakeCleanup\<close>

definition cleanup_fence :: "jv \<Rightarrow> jv \<Rightarrow> jv \<Rightarrow> bool" where
  "cleanup_fence receipt durableE evidence \<longleftrightarrow> in_strs [''DELIVERED'', ''CONSUMED''] (jget ''status'' receipt)
     \<and> fences [(jget ''delivery_id'' receipt, jget ''delivery_id'' durableE),
         (jget ''transport_attempt_id'' receipt, jget ''transport_attempt_id'' durableE),
         (jget ''event_id'' receipt, jget ''event_id'' evidence)]
     \<and> jpath [''delivery_receipt'', ''committed''] evidence = JBool True"

definition cleaned_frontend :: "jv \<Rightarrow> jv" where
  "cleaned_frontend evidence =
     (let c = coalesce (jget ''cleanup'' evidence) (Obj []); proven = transportCleanupEvidenceComplete c;
          held = (\<lambda>k. JBool (jget k c = JBool True)) in
     Obj [
       (''argv'', jget ''canonical_argv'' evidence),
       (''process_group'', coalesce (jget ''process_group'' c) Null),
       (''launcher_exit_observed'', held ''launcher_exit_observed''),
       (''frontend_exit_observed'', held ''frontend_exit_observed''),
       (''tracked_process_groups'', coalesce (jget ''tracked_process_groups'' c) (Arr [])),
       (''frontend_process_groups'', coalesce (jget ''frontend_process_groups'' c) (Arr [])),
       (''signaled_process_groups'', coalesce (jget ''signaled_process_groups'' c) (Arr [])),
       (''process_group_member_counts'', coalesce (jget ''process_group_member_counts'' c) (Arr [])),
       (''process_group_member_count'', coalesce (jget ''process_group_member_count'' c) (Num (- 1))),
       (''duplicate_frontend_count'', coalesce (jget ''duplicate_frontend_count'' c) (Num (- 1))),
       (''invalid_frontend_identity_count'', coalesce (jget ''invalid_frontend_identity_count'' c) (Num (- 1))),
       (''blocked_process_groups'', coalesce (jget ''blocked_process_groups'' c) (Arr [])),
       (''authoritative_host_process_group'', coalesce (jget ''authoritative_host_process_group'' c) Null),
       (''authoritative_host_signaled'', held ''authoritative_host_signaled''),
       (''authoritative_host_continuity_proven'', held ''authoritative_host_continuity_proven''),
       (''cleanup_status'', Str (if proven then ''PROVEN'' else ''INTERVENTION_REQUIRED'')),
       (''cleanup_proven'', JBool proven),
       (''cleanup_intervention'', if proven then Null else Obj [
          (''reason'', Str ''temporary-process-group-cleanup-unproven-after-delivery''),
          (''blocked_process_groups'', coalesce (jget ''blocked_process_groups'' c) (Arr [])),
          (''process_group_member_count'', coalesce (jget ''process_group_member_count'' c) (Num (- 1))),
          (''duplicate_frontend_count'', coalesce (jget ''duplicate_frontend_count'' c) (Num (- 1))),
          (''invalid_frontend_identity_count'', coalesce (jget ''invalid_frontend_identity_count'' c) (Num (- 1)))])])"

definition cleaned_evidence :: "string \<Rightarrow> string \<Rightarrow> jv \<Rightarrow> jv \<Rightarrow> jv" where
  "cleaned_evidence evidencePath evidenceSha evidence te =
     (let c = coalesce (jget ''cleanup'' evidence) (Obj []) in
     jsets [
       (''path'', Str evidencePath),
       (''cleanup_sha256'', Str evidenceSha),
       (''status'', Str (if transportCleanupEvidenceComplete c then ''CONFIRMED_AND_CLEANED'' else ''DELIVERED_CLEANUP_INTERVENTION_REQUIRED''))]
       (jspread (Obj []) te))"

definition cleaned_receipt :: "jv \<Rightarrow> string \<Rightarrow> string \<Rightarrow> jv \<Rightarrow> string \<Rightarrow> jv" where
  "cleaned_receipt receipt evidencePath evidenceSha evidence t =
     jset ''cleanup_updated_at'' (Str t)
       (jset ''transport_evidence'' (cleaned_evidence evidencePath evidenceSha evidence (jget ''transport_evidence'' receipt))
         (jset ''temporary_frontend'' (cleaned_frontend evidence) receipt))"

definition not_updated :: "string \<Rightarrow> jv" where
  "not_updated reason = Obj [(''updated'', JBool False), (''reason'', Str reason)]"

fun cleanup_loop :: "nat \<Rightarrow> string \<Rightarrow> string \<Rightarrow> jv \<Rightarrow> jv \<Rightarrow> jv wio" where
  "cleanup_loop 0 path evidencePath durableE evidence = ret (not_updated ''delivery-receipt-cleanup-cas-raced'')"
| "cleanup_loop (Suc n) path evidencePath durableE evidence =
     bind_io (readJson path) (\<lambda>receipt.
     if \<not> cleanup_fence receipt durableE evidence then ret (not_updated ''delivery-receipt-cleanup-fence-mismatch'')
     else if in_strs [''PROVEN'', ''INTERVENTION_REQUIRED''] (jpath [''temporary_frontend'', ''cleanup_status''] receipt)
       then ret (Obj [(''updated'', JBool True), (''duplicate'', JBool True), (''receipt'', receipt)])
     else
       bind_io (sha256 (canonicalJson receipt)) (\<lambda>expected.
       bind_io (fileSha256 evidencePath) (\<lambda>evidenceSha.
       bind_io now (\<lambda>t.
       let next = cleaned_receipt receipt evidencePath evidenceSha evidence t in
       bind_io (atomicCompareAndSwapJson path (Some expected) next) (\<lambda>cas.
       if is_swapped cas then ret (Obj [(''updated'', JBool True), (''duplicate'', JBool False), (''receipt'', next)])
       else if cas_reason cas \<noteq> ''cas-content-changed'' then ret (not_updated (cas_reason cas))
       else cleanup_loop n path evidencePath durableE evidence)))))"

definition updateCommittedWakeCleanup :: "wake_env \<Rightarrow> string \<Rightarrow> string \<Rightarrow> jv \<Rightarrow> jv wio" where
  "updateCommittedWakeCleanup env root0 evidencePath evidence =
     (let root = real_path env root0 in
     bind_io (readJson evidencePath) (\<lambda>durableE.
     cleanup_loop 2 (receiptPath root (jget ''event_id'' durableE)) evidencePath durableE evidence))"

section \<open>reconcileLateConfirmation\<close>

definition late_evidence_matches :: "jv \<Rightarrow> jv \<Rightarrow> jv \<Rightarrow> jv \<Rightarrow> bool" where
  "late_evidence_matches evidence request deliveryFence decision \<longleftrightarrow> truthy evidence
     \<and> fences [(jget ''event_id'' evidence, jget ''event_id'' request),
         (jpath [''request'', ''sha256''] evidence, jget ''requestSha256'' deliveryFence),
         (jpath [''request'', ''queue_version''] evidence, jget ''queueVersion'' deliveryFence)]
     \<and> \<not> nullish (jget ''delivery_id'' evidence)
     \<and> fences [(jpath [''activation'', ''decision_id''] evidence, jget ''decision_id'' decision),
         (jpath [''activation'', ''fencing_token''] evidence, jget ''fencing_token'' decision)]"

definition late_outcome :: "string \<Rightarrow> jv \<Rightarrow> jv" where
  "late_outcome cl reason = Obj [(''classification'', Str cl), (''reason'', reason), (''delivered'', JBool False), (''replayed'', JBool False)]"

definition late_evidence :: "jv \<Rightarrow> jv \<Rightarrow> string \<Rightarrow> jv" where
  "late_evidence evidence c t = jsets [
     (''rollout_confirmation'', Obj [
        (''accepted_ordinal'', jget ''accepted_ordinal'' c),
        (''accepted_record_sha256'', jget ''accepted_record_sha256'' c),
        (''turn_began_ordinal'', jget ''turn_began_ordinal'' c),
        (''turn_began_record_sha256'', jget ''turn_began_record_sha256'' c),
        (''turn_id'', jget ''turn_id'' c),
        (''turn_started_at_ms'', jget ''turn_started_at_ms'' c)]),
     (''confirmation_absence'', Null),
     (''status'', Str ''LATE_CONFIRMED_AFTER_CLEANUP''),
     (''timestamps'', jset ''late_confirmation_checkpointed_at'' (Str t) (coalesce (jget ''timestamps'' evidence) (Obj [])))] evidence"

definition late_decision :: "jv \<Rightarrow> string \<Rightarrow> jv" where
  "late_decision current t = jsets [
     (''status'', Str ''DELIVERED''), (''delivered_at'', Str t), (''failure'', Null), (''late_confirmation'', JBool True)] current"

definition late_frontend :: "jv \<Rightarrow> jv" where
  "late_frontend evidence = (let c = jget ''cleanup'' evidence in
     Obj ((''argv'', jget ''canonical_argv'' evidence) # map (\<lambda>k. (k, jget k c))
       [''process_group'', ''launcher_exit_observed'', ''frontend_exit_observed'', ''tracked_process_groups'',
        ''frontend_process_groups'', ''signaled_process_groups'', ''process_group_member_counts'',
        ''process_group_member_count'', ''duplicate_frontend_count'', ''invalid_frontend_identity_count'',
        ''authoritative_host_process_group'', ''authoritative_host_signaled'', ''cleanup_proven'',
        ''authoritative_host_continuity_proven'']))"

definition late_receipt :: "wake_env \<Rightarrow> string \<Rightarrow> jv \<Rightarrow> jv \<Rightarrow> jv \<Rightarrow> jv \<Rightarrow> jv \<Rightarrow> jv \<Rightarrow> string \<Rightarrow> jv" where
  "late_receipt env evidencePath evidence request repository binding hostKind nativeTransport evidenceSha = Obj [
     (''schema'', Str DELIVERY_SCHEMA),
     (''repository'', repository),
     (''delivery_id'', jget ''delivery_id'' evidence),
     (''event_id'', jget ''event_id'' request),
     (''queue_version'', jget ''queue_version'' request),
     (''supervisor_id'', jget ''supervisor_id'' binding),
     (''supervisor_generation'', jget ''supervisor_generation'' binding),
     (''wake_worker_implementation_sha256'', Str (worker_sha env)),
     (''wake_worker_process'', jpath [''wake_owner'', ''process''] evidence),
     (''wake_owner'', jget ''wake_owner'' evidence),
     (''activation_lease_id'', jpath [''activation'', ''lease_id''] evidence),
     (''activation_fencing_token'', jpath [''activation'', ''fencing_token''] evidence),
     (''activation_decision_id'', jpath [''activation'', ''decision_id''] evidence),
     (''codex_session_binding_sha256'', jpath [''session'', ''binding_sha256''] evidence),
     (''host_kind'', hostKind),
     (''native_transport'', nativeTransport),
     (''codex_session_uuid'', jget ''codex_session_uuid'' binding),
     (''message_sha256'', jget ''message_sha256'' evidence),
     (''transport_attempt_id'', jget ''transport_attempt_id'' evidence),
     (''status'', Str ''CLAIMED''),
     (''claimed_at'', jget ''prepared_at'' evidence),
     (''delivered_at'', Null),
     (''consumed_at'', Null),
     (''failure'', Null),
     (''late_confirmation'', JBool True),
     (''rollout_confirmation'', jget ''rollout_confirmation'' evidence),
     (''temporary_frontend'', late_frontend evidence),
     (''transport_evidence'', Obj [(''path'', Str evidencePath), (''sha256'', Str evidenceSha), (''status'', jget ''status'' evidence)])]"

text \<open>Moving the decision to DELIVERED, \<open>None\<close>, or the outcome that stops the reconciliation.\<close>

definition settle_late_decision :: "string \<Rightarrow> jv \<Rightarrow> jv \<Rightarrow> jv option wio" where
  "settle_late_decision root request decision =
     (let path = activationDecisionPath root (jget ''event_id'' request) in
     bind_io (readJson path) (\<lambda>current.
     if \<not> fences [(jget ''decision_id'' current, jget ''decision_id'' decision),
           (jget ''transport_attempt_id'' current, jget ''transport_attempt_id'' decision)]
         \<or> \<not> in_strs [''CLAIMED'', ''UNCERTAIN'', ''DELIVERED''] (jget ''status'' current)
     then ret (Some (late_outcome ''uncertain'' (Str ''activation-decision-fence-mismatch-during-late-confirmation'')))
     else if jget ''status'' current = Str ''DELIVERED'' then ret None
     else
       bind_io (sha256 (canonicalJson current)) (\<lambda>expected.
       bind_io now (\<lambda>t.
       bind_io (atomicCompareAndSwapJson path (Some expected) (late_decision current t)) (\<lambda>cas.
       if is_swapped cas then ret None
       else ret (Some (late_outcome ''uncertain'' (Str (cas_reason cas)))))))))"

definition commit_late :: "wake_env \<Rightarrow> string \<Rightarrow> string \<Rightarrow> jv \<Rightarrow> jv \<Rightarrow> jv \<Rightarrow> jv \<Rightarrow> jv wio" where
  "commit_late env root evidencePath request binding decision evidence =
     bind_io (settle_late_decision root request decision) (\<lambda>stopped.
     case stopped of Some outcome \<Rightarrow> ret outcome
     | None \<Rightarrow>
       bind_io (readJson (p_supervisor (paths root))) (\<lambda>supervisor.
       bind_io (lift_io (jdot ''process'' (jget ''wake_owner'' evidence))) (\<lambda>_.
       bind_io (lift_io (jdot ''kind'' (jget ''host'' binding))) (\<lambda>hostKind.
       bind_io (lift_io (jdot ''transport'' (jget ''native_wake'' binding))) (\<lambda>nativeTransport.
       bind_io (fileSha256 evidencePath) (\<lambda>evidenceSha.
       commitDeliveredReceipt env root request
         (late_receipt env evidencePath evidence request (jget ''repository'' supervisor) binding hostKind nativeTransport evidenceSha)))))))"

text \<open>\<open>try { ... } catch (error) { ... }\<close>, with the error as a value.\<close>

definition attempt_io :: "('w, 'a) io \<Rightarrow> ('w, err + 'a) io" where
  "attempt_io m w = (Inr (fst (m w)), snd (m w))"

definition reconcileLateConfirmation :: "wake_env \<Rightarrow> string \<Rightarrow> jv \<Rightarrow> jv \<Rightarrow> jv \<Rightarrow> jv \<Rightarrow> jv wio" where
  "reconcileLateConfirmation env root request deliveryFence binding activationOwner =
     bind_io (readOptional (activationDecisionPath root (jget ''event_id'' request))) (\<lambda>decision.
     if \<not> in_strs [''CLAIMED'', ''UNCERTAIN'', ''DELIVERED''] (jget ''status'' decision)
         \<or> \<not> is_str (jget ''transport_attempt_id'' decision) then ret Null
     else
       let evidencePath = transportAttemptPath root (jget ''transport_attempt_id'' decision) in
       bind_io (readOptional evidencePath) (\<lambda>evidence.
       if \<not> late_evidence_matches evidence request deliveryFence decision then ret Null
       else
         bind_io (lift_io (jdot ''supervisor_id'' binding)) (\<lambda>_.
         if \<not> fences [(jpath [''supervisor'', ''supervisor_id''] evidence, jget ''supervisor_id'' binding),
             (jpath [''supervisor'', ''generation''] evidence, jget ''supervisor_generation'' binding)] then ret Null
         else
           bind_io (fileSha256 (binding_file root)) (\<lambda>bindingSha.
           if \<not> (jpath [''session'', ''binding_sha256''] evidence = Str bindingSha
               \<and> strict_eq (jpath [''session'', ''session_id''] evidence) (jget ''codex_session_uuid'' binding)) then ret Null
           else
             bind_io (lift_io (jdot ''realpath'' (jget ''rollout'' binding))) (\<lambda>rolloutPath.
             if \<not> session_fences evidence binding bindingSha
                 \<or> \<not> transportCleanupEvidenceComplete (jget ''cleanup'' evidence) then ret Null
             else if \<not> sameActivationOwner (jget ''wake_owner'' evidence) activationOwner
                 \<or> \<not> activationOwnerCurrent (wake_host env) activationOwner
               then ret (late_outcome ''stale-generation'' (Str ''late-confirmation-opsled-owner-fence-not-current''))
             else
               let message = jidx 3 (jget ''canonical_argv'' evidence);
                   baseline = jpath [''transport'', ''baseline_ordinal''] evidence in
               bind_io (sha256 (str_of message)) (\<lambda>messageSha.
               if canonicalJson (jget ''canonical_argv'' evidence) \<noteq> canonicalJson (resume_argv binding message)
                   \<or> \<not> is_str message \<or> jget ''message_sha256'' decision \<noteq> Str messageSha
                   \<or> \<not> strict_eq (jget ''message_sha256'' evidence) (jget ''message_sha256'' decision)
                   \<or> \<not> safe_int baseline then ret Null
               else
                 bind_io (attempt_io (rolloutConfirmation (js_string rolloutPath) (jget ''codex_session_uuid'' binding) message baseline)) (\<lambda>read.
                 case read of
                   Inl e \<Rightarrow> ret (late_outcome ''uncertain'' (Str (''late-rollout-evidence-unreadable: '' @ err_message e)))
                 | Inr c \<Rightarrow>
                 if \<not> truthy c then ret Null
                 else if jget ''classification'' c \<noteq> Str ''confirmed'' then ret (late_outcome ''uncertain'' (jget ''reason'' c))
                 else
                   bind_io (validateDeliveryFence env root (jget ''event_id'' request) deliveryFence activationOwner) (\<lambda>fence.
                   if jget ''current'' fence \<noteq> JBool True
                     then ret (late_outcome ''stale-generation'' (Str (js_string (jget ''reason'' fence) @ ''-during-late-confirmation'')))
                   else
                     bind_io now (\<lambda>t.
                     bind_io (writeJson evidencePath (late_evidence evidence c t)) (\<lambda>_.
                     commit_late env root evidencePath request binding decision (late_evidence evidence c t)))))))))))"

section \<open>Complete cleanup\<close>

lemma nums_member: "jincludes (map Num ns) v \<longleftrightarrow> (\<exists>n\<in>set ns. v = Num n)"
  by (auto simp: jincludes_def)

text \<open>C25: cleanup evidence is complete only if every process group that was signalled is one of the tracked groups, each
  tracked group is counted once and has no member left, and the authoritative host's group is not among them,
  so it was not signalled.\<close>

theorem complete_cleanup_spares_host:
  assumes "transportCleanupEvidenceComplete c"
  shows "\<exists>tracked signaled host_group. jget ''tracked_process_groups'' c = Arr (map Num tracked)
    \<and> jget ''signaled_process_groups'' c = Arr (map Num signaled)
    \<and> jget ''authoritative_host_process_group'' c = Num host_group
    \<and> set signaled \<subseteq> set tracked \<and> host_group \<notin> set signaled \<and> host_group \<notin> set tracked \<and> distinct tracked
    \<and> map (\<lambda>e. (jget ''process_group'' e, jget ''member_count'' e)) (elems (jget ''process_group_member_counts'' c))
      = map (\<lambda>g. (Num g, Num 0)) tracked"
proof -
  note F = assms [unfolded transportCleanupEvidenceComplete_def Let_def groups_within_def]
  have sorted: "positiveSortedProcessGroups False (jget ''tracked_process_groups'' c)"
    by (insert F, elim conjE, assumption)
  have sub: "positiveSortedProcessGroups True (jget ''signaled_process_groups'' c)
      \<and> list_all (jincludes (elems (jget ''tracked_process_groups'' c))) (elems (jget ''signaled_process_groups'' c))"
    by (insert F, elim conjE, intro conjI; assumption)
  have host: "pos_safe (jget ''authoritative_host_process_group'' c)
      \<and> \<not> jincludes (elems (jget ''tracked_process_groups'' c)) (jget ''authoritative_host_process_group'' c)"
    by (insert F, elim conjE, intro conjI; assumption)
  have counts: "length (elems (jget ''process_group_member_counts'' c)) = length (elems (jget ''tracked_process_groups'' c))
      \<and> list_all (\<lambda>i. strict_eq (jget ''process_group'' (elems (jget ''process_group_member_counts'' c) ! i)) (elems (jget ''tracked_process_groups'' c) ! i)
         \<and> jget ''member_count'' (elems (jget ''process_group_member_counts'' c) ! i) = Num 0) [0..<length (elems (jget ''process_group_member_counts'' c))]"
    by (insert F, elim conjE, intro conjI; assumption)
  obtain tracked where t: "jget ''tracked_process_groups'' c = Arr (map Num tracked)" "sorted_wrt (<) tracked"
    using sorted positiveSortedProcessGroups_sorted by blast
  obtain signaled where s: "jget ''signaled_process_groups'' c = Arr (map Num signaled)"
    using sub positiveSortedProcessGroups_sorted by blast
  obtain h where h: "jget ''authoritative_host_process_group'' c = Num h" using host by (auto elim: pos_safeE)
  have within: "set signaled \<subseteq> set tracked" using sub unfolding t(1) s elems.simps by (auto simp: nums_member list_all_iff)
  have outside: "h \<notin> set tracked" using host unfolding t(1) h elems.simps by (simp add: nums_member)
  have "map (\<lambda>e. (jget ''process_group'' e, jget ''member_count'' e)) (elems (jget ''process_group_member_counts'' c))
      = map (\<lambda>g. (Num g, Num 0)) tracked"
  proof (rule nth_equalityI)
    fix i assume "i < length (map (\<lambda>e. (jget ''process_group'' e, jget ''member_count'' e)) (elems (jget ''process_group_member_counts'' c)))"
    then have i: "i < length tracked" "i \<in> set [0..<length (elems (jget ''process_group_member_counts'' c))]"
      using counts unfolding t(1) elems.simps by simp_all
    then have "strict_eq (jget ''process_group'' (elems (jget ''process_group_member_counts'' c) ! i)) (map Num tracked ! i)
        \<and> jget ''member_count'' (elems (jget ''process_group_member_counts'' c) ! i) = Num 0"
      using counts unfolding t(1) elems.simps list_all_iff by blast
    with i counts show "map (\<lambda>e. (jget ''process_group'' e, jget ''member_count'' e)) (elems (jget ''process_group_member_counts'' c)) ! i
        = map (\<lambda>g. (Num g, Num 0)) tracked ! i"
      by simp
  qed (use counts in \<open>simp add: t(1)\<close>)
  moreover have "distinct tracked" using t(2) by (simp add: strict_sorted_iff)
  moreover have "h \<notin> set signaled" using within outside by blast
  ultimately show ?thesis using t(1) s h within outside
    by (intro exI [of _ tracked] exI [of _ signaled] exI [of _ h] conjI)
qed

section \<open>The cleanup of a receipt is cleanup_settled once\<close>

definition cleanup_settled :: "jv \<Rightarrow> bool" where
  "cleanup_settled receipt \<longleftrightarrow> in_strs [''PROVEN'', ''INTERVENTION_REQUIRED''] (jpath [''temporary_frontend'', ''cleanup_status''] receipt)"

lemma settled_kept:
  assumes "parse_object p (bytes_at w p) = Inr receipt" "cleanup_settled receipt"
  shows "bytes_at (snd (cleanup_loop n q evidencePath d e w)) p = bytes_at w p"
proof (cases "q = p")
  case True
  then show ?thesis
    using assms by (cases n) (auto simp: bind_readJson cleanup_settled_def simp del: jpath.simps)
next
  case False
  have "keeps p (cleanup_loop n q evidencePath d e)"
  proof (induction n)
    case (Suc n)
    then show ?case unfolding cleanup_loop.simps Let_def using False by (intro keeping) simp_all
  qed (unfold cleanup_loop.simps, intro keeping)
  then show ?thesis by (simp add: keeps_def)
qed

lemma keeps_settled_update:
  assumes "parse_object p (bytes_at w p) = Inr receipt" "cleanup_settled receipt"
  shows "bytes_at (snd (updateCommittedWakeCleanup env root evidencePath evidence w)) p = bytes_at w p"
  using settled_kept [OF assms]
  by (auto simp: updateCommittedWakeCleanup_def Let_def bind_readJson split: sum.splits)

lemma cleaned_receipt_fields:
  assumes "is_obj receipt"
  shows "jpath [''temporary_frontend'', ''cleanup_status''] (cleaned_receipt receipt ep es evidence t)
      = Str (if transportCleanupEvidenceComplete (coalesce (jget ''cleanup'' evidence) (Obj [])) then ''PROVEN'' else ''INTERVENTION_REQUIRED'')"
    "is_obj (cleaned_receipt receipt ep es evidence t)"
  using assms by (simp_all add: cleaned_receipt_def cleaned_frontend_def Let_def)

lemma jwf_jspread: "jwf a \<Longrightarrow> jwf b \<Longrightarrow> jwf (jspread a b)"
  by (cases b; cases a) (auto intro!: jwf_jsets)

lemma jwf_cleaned_receipt:
  assumes "jwf receipt" "jwf evidence"
  shows "jwf (cleaned_receipt receipt ep es evidence t)"
proof -
  have "jwf (coalesce (jget ''cleanup'' evidence) (Obj []))" using assms(2) by (simp add: jwf_jget jwf_coalesce)
  then have "jwf (cleaned_frontend evidence)"
    using assms(2) by (simp add: cleaned_frontend_def Let_def jwf_jget jwf_coalesce)
  moreover have "jwf (cleaned_evidence ep es evidence (jget ''transport_evidence'' receipt))"
    unfolding cleaned_evidence_def Let_def using assms(1) by (intro jwf_jsets jwf_jspread) (auto intro: jwf_jget)
  ultimately show ?thesis using assms(1) unfolding cleaned_receipt_def by (intro jwf_jset) simp_all
qed

definition proven :: "jv \<Rightarrow> bool" where
  "proven evidence \<longleftrightarrow> transportCleanupEvidenceComplete (coalesce (jget ''cleanup'' evidence) (Obj []))"

lemma cleanup_loop_result:
  assumes "cleanup_loop n p ep d evidence w = (Inr x, w1)" "jget ''updated'' x = JBool True" "jwf evidence"
  shows "\<exists>r. parse_object p (bytes_at w1 p) = Inr r \<and> cleanup_settled r
    \<and> (jget ''duplicate'' x = JBool False \<longrightarrow>
        (jpath [''temporary_frontend'', ''cleanup_status''] r = Str ''PROVEN'' \<longleftrightarrow> proven evidence))"
  using assms(1)
proof (induction n arbitrary: w)
  case 0
  with assms(2) show ?case by (auto simp: not_updated_def)
next
  case (Suc n)
  obtain receipt where r: "parse_object p (bytes_at w p) = Inr receipt"
    and rest: "(if \<not> cleanup_fence receipt d evidence then ret (not_updated ''delivery-receipt-cleanup-fence-mismatch'')
     else if cleanup_settled receipt
       then ret (Obj [(''updated'', JBool True), (''duplicate'', JBool True), (''receipt'', receipt)])
     else
       bind_io (sha256 (canonicalJson receipt)) (\<lambda>expected.
       bind_io (fileSha256 ep) (\<lambda>evidenceSha.
       bind_io now (\<lambda>t.
       let next = cleaned_receipt receipt ep evidenceSha evidence t in
       bind_io (atomicCompareAndSwapJson p (Some expected) next) (\<lambda>cas.
       if is_swapped cas then ret (Obj [(''updated'', JBool True), (''duplicate'', JBool False), (''receipt'', next)])
       else if cas_reason cas \<noteq> ''cas-content-changed'' then ret (not_updated (cas_reason cas))
       else cleanup_loop n p ep d evidence))))) w = (Inr x, w1)"
    using Suc.prems unfolding cleanup_loop.simps cleanup_settled_def [symmetric]
    by (elim bind_io_InrE [where m = "readJson p"]) simp
  have f: "cleanup_fence receipt d evidence"
    using rest assms(2) by (cases "cleanup_fence receipt d evidence") (auto simp: not_updated_def)
  show ?case
  proof (cases "cleanup_settled receipt")
    case True
    with rest f r show ?thesis by auto
  next
    case False
    with rest f obtain es t cas w2 where cas: "atomicCompareAndSwapJson p (Some (digest w (canonicalJson receipt))) (cleaned_receipt receipt ep es evidence t)
          (w\<lparr>ticks := Suc (ticks w)\<rparr>) = (Inr cas, w2)"
      and after: "(if is_swapped cas then ret (Obj [(''updated'', JBool True), (''duplicate'', JBool False), (''receipt'', cleaned_receipt receipt ep es evidence t)])
       else if cas_reason cas \<noteq> ''cas-content-changed'' then ret (not_updated (cas_reason cas))
       else cleanup_loop n p ep d evidence) w2 = (Inr x, w1)"
      by (auto simp: Let_def fileSha256_def elim!: bind_io_InrE split: option.splits)
    show ?thesis
    proof (cases "is_swapped cas")
      case True
      with cas after have w1: "bytes_at w1 p = Some (canonicalJson (cleaned_receipt receipt ep es evidence t))"
        by (auto simp: atomicCompareAndSwapJson_def Let_def split: if_splits)
      let ?c = "cleaned_receipt receipt ep es evidence t"
      have j: "jwf ?c" by (rule jwf_cleaned_receipt [OF parse_object_jwf [OF r] assms(3)])
      have "jpath [''temporary_frontend'', ''cleanup_status''] (durable ?c)
          = Str (if proven evidence then ''PROVEN'' else ''INTERVENTION_REQUIRED'')"
        unfolding jpath_read_back [OF j] cleaned_receipt_fields(1) [OF parse_object_obj [OF r]] by (simp add: proven_def)
      then show ?thesis
        using w1 j cleaned_receipt_fields(2) [OF parse_object_obj [OF r]]
        by (auto simp: cleanup_settled_def simp del: jpath.simps)
    next
      case False
      with after assms(2) have "cleanup_loop n p ep d evidence w2 = (Inr x, w1)" by (auto simp: not_updated_def split: if_splits)
      then show ?thesis by (rule Suc.IH)
    qed
  qed
qed

text \<open>C26: the outcome of a cleanup is recorded once: after an update the receipt says PROVEN or INTERVENTION_REQUIRED,
  PROVEN by a first update exactly when its evidence is complete, and no later update, with whatever evidence,
  changes the receipt.\<close>

theorem cleanup_settles_once:
  assumes "updateCommittedWakeCleanup env root ep evidence w = (Inr x, w1)" and "jget ''updated'' x = JBool True"
    and "jwf evidence" "parse_object ep (bytes_at w ep) = Inr durableE" "p = receiptPath (real_path env root) (jget ''event_id'' durableE)"
  shows "\<exists>r. parse_object p (bytes_at w1 p) = Inr r \<and> cleanup_settled r
    \<and> (jget ''duplicate'' x = JBool False \<longrightarrow>
        (jpath [''temporary_frontend'', ''cleanup_status''] r = Str ''PROVEN'' \<longleftrightarrow> proven evidence))
    \<and> bytes_at (snd (updateCommittedWakeCleanup env2 root2 ep2 evidence2 w1)) p = bytes_at w1 p"
proof -
  have "cleanup_loop 2 p ep durableE evidence w = (Inr x, w1)"
    using assms(1) by (simp add: updateCommittedWakeCleanup_def Let_def bind_readJson assms(4,5))
  from cleanup_loop_result [OF this assms(2,3)] keeps_settled_update show ?thesis by blast
qed

section \<open>A commit on rollout evidence\<close>

lemma directories_same: "\<exists>w'. directories root w = (Inr (), w') \<and> bytes_at w' = bytes_at w \<and> digest w' = digest w"
proof -
  have "\<exists>w'. mkdirs ds w = (Inr (), w') \<and> bytes_at w' = bytes_at w \<and> digest w' = digest w" for ds
  proof (induction ds arbitrary: w)
    case (Cons a ds)
    from Cons [of "w\<lparr>dirs := List.insert a (dirs w)\<rparr>"] show ?case by (auto simp: fun_eq_iff)
  qed simp
  then show ?thesis by (simp add: directories_def Let_def)
qed

lemma validateDeliveryFence_same: "snd (validateDeliveryFence env root ev expected owner w) = w"
proof -
  have "reads_only (validateDeliveryFence env root ev expected owner)"
    unfolding validateDeliveryFence_def Let_def by (intro reads)
  then show ?thesis by (simp add: reads_only_def)
qed

lemma rolloutConfirmation_same: "snd (rolloutConfirmation p sid m b w) = w"
  by (auto simp: rolloutConfirmation_def rolloutRecords_def readFile_def bind_io_def split: prod.splits sum.splits option.splits)

text \<open>The evidence a commit rests on.\<close>

definition rollout_backed :: "wake_env \<Rightarrow> string \<Rightarrow> string \<Rightarrow> jv \<Rightarrow> int \<Rightarrow> world \<Rightarrow> bool" where
  "rollout_backed env root ep confirmation nowMs w \<longleftrightarrow> (\<exists>evidence lease binding c.
     parse_object ep (bytes_at w ep) = Inr evidence \<and> parse_object (lease_file root) (bytes_at w (lease_file root)) = Inr lease
     \<and> parse_object (binding_file root) (bytes_at w (binding_file root)) = Inr binding
     \<and> fst (decisionFenceCurrent (wake_host env) root lease nowMs w) = Inr True
     \<and> activationOwnerCurrent (wake_host env) (jget ''owner'' lease)
     \<and> jpath [''activation'', ''fencing_token''] evidence = jget ''fencing_token'' lease
     \<and> fst (rolloutConfirmation (js_string (jpath [''rollout'', ''realpath''] binding)) (jget ''codex_session_uuid'' binding)
           (jidx 3 (jget ''canonical_argv'' evidence)) (jpath [''transport'', ''baseline_ordinal''] evidence) w) = Inr c
     \<and> exactRolloutConfirmation c \<noteq> Null
     \<and> canonicalJson (exactRolloutConfirmation confirmation) = canonicalJson (exactRolloutConfirmation c))"

lemma exactRolloutConfirmation_truthy: "truthy (exactRolloutConfirmation v) \<longleftrightarrow> exactRolloutConfirmation v \<noteq> Null"
  by (simp add: exactRolloutConfirmation_def)

lemma durable_confirmation_Inr:
  assumes "durable_confirmation (exactRolloutConfirmation v) binding message baseline w = (Inr d, w')" "truthy d"
  shows "\<exists>c. fst (rolloutConfirmation (js_string (jpath [''rollout'', ''realpath''] binding)) (jget ''codex_session_uuid'' binding) message baseline w) = Inr c
    \<and> d = exactRolloutConfirmation c" and "w' = w"
proof -
  let ?m = "rolloutConfirmation (js_string (jpath [''rollout'', ''realpath''] binding)) (jget ''codex_session_uuid'' binding) message baseline"
  have "truthy (exactRolloutConfirmation v)" using assms by (auto simp: durable_confirmation_def split: if_splits)
  then obtain c where "?m w = (Inr c, w')" "d = exactRolloutConfirmation c"
    using assms(1) by (auto simp: durable_confirmation_def elim!: bind_io_InrE)
  then show "\<exists>c. fst (?m w) = Inr c \<and> d = exactRolloutConfirmation c" "w' = w"
    using rolloutConfirmation_same [of "js_string (jpath [''rollout'', ''realpath''] binding)" "jget ''codex_session_uuid'' binding" message baseline w]
    by auto
qed

lemma decisionFence_same: "decisionFenceCurrent h root lease t w = (r, w') \<Longrightarrow> w' = w"
proof -
  assume "decisionFenceCurrent h root lease t w = (r, w')"
  moreover have "post (decisionFenceCurrent h root lease t) w (\<lambda>r w'. w' = w)" by (simp add: wp)
  ultimately show "w' = w" by (simp add: post_def)
qed

lemma commit_evidence_backed:
  assumes "commit_evidence env root ep evidence (exactRolloutConfirmation v) nowMs w = (Inr x, w1)"
    and "jget ''committed'' x = JBool True" and "parse_object ep (bytes_at w ep) = Inr evidence"
  shows "rollout_backed env root ep v nowMs w"
proof -
  let ?message = "jidx 3 (jget ''canonical_argv'' evidence)" and ?b = "jpath [''transport'', ''baseline_ordinal''] evidence"
  show ?thesis
    using assms(1) unfolding commit_evidence_def Let_def
  proof (elim bind_io_InrE)
    fix request wa supervisor wb binding wc decision wd lease we rolloutPath wf rolloutStat wg durableC wh deliveryFence wi fenceCurrent wj
      requestSha wk bindingSha wl messageSha wm
    assume r1: "readJson (requestPath root (jget ''event_id'' evidence)) w = (Inr request, wa)"
      and r2: "readJson (p_supervisor (paths root)) wa = (Inr supervisor, wb)"
      and b: "readJson (binding_file root) wb = (Inr binding, wc)"
      and r4: "readJson (activationDecisionPath root (jget ''event_id'' evidence)) wc = (Inr decision, wd)"
      and l: "readJson (lease_file root) wd = (Inr lease, we)"
      and r6: "lift_io (jdot ''realpath'' (jget ''rollout'' binding)) we = (Inr rolloutPath, wf)"
      and r7: "lift_io (stat_of env rolloutPath) wf = (Inr rolloutStat, wg)"
      and d: "durable_confirmation (exactRolloutConfirmation v) binding ?message ?b wg = (Inr durableC, wh)"
      and v: "validateDeliveryFence env root (jget ''event_id'' evidence) (expected_fence evidence)
         (coalesce (jget ''wake_owner'' evidence) Null) wh = (Inr deliveryFence, wi)"
      and f: "decisionFenceCurrent (wake_host env) root lease nowMs wi = (Inr fenceCurrent, wj)"
      and t: "(if \<not> commit_current (jget ''current'' deliveryFence) fenceCurrent (evidence_fences env root evidence request supervisor binding decision lease rolloutStat requestSha bindingSha messageSha) (exactRolloutConfirmation v) durableC
       then ret (not_committed ''confirmed-delivery-fence-not-current'')
       else commit_with env root ep evidence request supervisor binding decision lease (exactRolloutConfirmation v)) wm = (Inr x, w1)"
    have same: "wc = w" "wg = w" using r1 r2 b r4 l r6 r7 by simp_all
    have b': "parse_object (binding_file root) (bytes_at w (binding_file root)) = Inr binding" using r1 r2 b by auto
    have l': "parse_object (lease_file root) (bytes_at w (lease_file root)) = Inr lease" using r1 r2 b r4 l by auto
    have "commit_current (jget ''current'' deliveryFence) fenceCurrent (evidence_fences env root evidence request supervisor binding decision lease
        rolloutStat requestSha bindingSha messageSha) (exactRolloutConfirmation v) durableC" (is ?c)
      using t assms(2) by (cases ?c) (auto simp: not_committed_def)
    then have ok: "fenceCurrent" "evidence_fences env root evidence request supervisor binding decision lease rolloutStat requestSha bindingSha messageSha"
      "truthy durableC" "canonicalJson (exactRolloutConfirmation v) = canonicalJson durableC"
      by (simp_all only: commit_current_def)
    note dc = durable_confirmation_Inr [OF d ok(3), unfolded same]
    have wi: "wi = w" using v dc(2) validateDeliveryFence_same [of env root _ _ _ wh] by (metis snd_conv)
    have F: "activationOwnerCurrent (wake_host env) (jget ''owner'' lease)"
        "strict_eq (jpath [''activation'', ''fencing_token''] evidence) (jget ''fencing_token'' lease)"
      by (insert ok(2) [unfolded evidence_fences_def Let_def fences_def list.pred_inject fst_conv snd_conv], (elim conjE, assumption)+)
    have "fst (decisionFenceCurrent (wake_host env) root lease nowMs w) = Inr True" using f ok(1) wi by simp
    with dc(1) b' l' F(1) strict_eq_imp_eq [OF F(2)] ok(3,4) assms(3) show ?thesis
      unfolding rollout_backed_def by (auto simp: exactRolloutConfirmation_truthy simp del: jpath.simps)
  qed
qed

text \<open>A wake is committed as delivered only on rollout evidence: the bound session's own rollout, read again at
  that moment, confirms the exact message with the same records the caller saw, while the activation lease
  that fences the attempt is current and its owner still runs.\<close>

theorem committed_wake_is_rollout_backed:
  assumes "commitConfirmedWakeReceipt env root ep confirmation nowMs w = (Inr x, w1)" and "jget ''committed'' x = JBool True"
  shows "\<exists>w2. bytes_at w2 = bytes_at w \<and> digest w2 = digest w \<and> rollout_backed env (real_path env root) ep confirmation nowMs w2"
proof -
  let ?root = "real_path env root"
  obtain w2 where d: "directories ?root w = (Inr (), w2)" and same: "bytes_at w2 = bytes_at w" "digest w2 = digest w"
    using directories_same by blast
  obtain evidence where e: "parse_object ep (bytes_at w2 ep) = Inr evidence"
    and run: "commit_evidence env ?root ep evidence (exactRolloutConfirmation confirmation) nowMs w2 = (Inr x, w1)"
    using assms unfolding commitConfirmedWakeReceipt_def Let_def
    by (elim bind_io_InrE) (auto simp: d not_committed_def split: if_splits)
  from commit_evidence_backed [OF run assms(2) e] same show ?thesis by blast
qed

section \<open>Witnesses\<close>

definition cleanup_demo :: jv where
  "cleanup_demo = Obj [(''authoritative_host_continuity_proven'', JBool True), (''authoritative_host_process_group'', Num 9),
     (''authoritative_host_signaled'', JBool False), (''blocked_process_groups'', Arr []), (''cleanup_proven'', JBool True),
     (''duplicate_frontend_count'', Num 0), (''frontend_exit_observed'', JBool True), (''frontend_process_groups'', Arr [Num 5]),
     (''invalid_frontend_identity_count'', Num 0), (''launcher_exit_observed'', JBool True), (''process_group'', Num 4),
     (''process_group_member_count'', Num 0),
     (''process_group_member_counts'', Arr [Obj [(''member_count'', Num 0), (''process_group'', Num 4)],
        Obj [(''member_count'', Num 0), (''process_group'', Num 5)]]),
     (''signaled_process_groups'', Arr [Num 5]), (''tracked_process_groups'', Arr [Num 4, Num 5])]"

theorem complete_cleanup_spares_host_witness:
  "\<exists>tracked host_group. jget ''tracked_process_groups'' cleanup_demo = Arr (map Num tracked)
     \<and> jget ''authoritative_host_process_group'' cleanup_demo = Num host_group \<and> host_group \<notin> set tracked"
proof -
  have "transportCleanupEvidenceComplete cleanup_demo" by code_simp
  from complete_cleanup_spares_host [OF this] show ?thesis by blast
qed

definition cleanup_evidence :: jv where
  "cleanup_evidence = Obj [(''cleanup'', cleanup_demo), (''delivery_id'', Str ''v''), (''delivery_receipt'', Obj [(''committed'', JBool True)]),
     (''event_id'', Str ''e''), (''transport_attempt_id'', Str ''ta'')]"

definition cleanup_world :: world where
  "cleanup_world = deliver_world ''DELIVERED'' [json_file ''/r/.opsle/wake/deliveries/e.json'' done_receipt, json_file ''/ev'' cleanup_evidence]"

lemma cleanup_evidence_small: "jwf cleanup_evidence" "is_obj cleanup_evidence" "durable cleanup_evidence = cleanup_evidence"
  by (simp_all add: cleanup_evidence_def cleanup_demo_def) code_simp

lemma cleanup_run:
  "\<exists>x w1. updateCommittedWakeCleanup deliver_env ''/r'' ''/ev'' cleanup_evidence cleanup_world = (Inr x, w1) \<and> jget ''updated'' x = JBool True"
proof -
  have ev: "parse_object ''/ev'' (bytes_at cleanup_world ''/ev'') = Inr cleanup_evidence"
    using cleanup_evidence_small by (simp add: cleanup_world_def deliver_world_def json_file_def bytes_at_def)
  have ev': "bytes_at cleanup_world ''/ev'' = Some (canonicalJson cleanup_evidence)"
    by (simp add: cleanup_world_def deliver_world_def json_file_def bytes_at_def)
  have id: "jget ''event_id'' cleanup_evidence = Str ''e''" "real_path deliver_env = id" by (simp_all add: cleanup_evidence_def deliver_env_def)
  let ?p = "receiptPath ''/r'' (Str ''e'')"
  have rb: "bytes_at cleanup_world ?p = Some (canonicalJson done_receipt)"
    by (simp add: receiptPath_def json_in_def cleanup_world_def deliver_world_def json_file_def bytes_at_def)
  have r: "parse_object ?p (Some (canonicalJson done_receipt)) = Inr done_receipt"
    using done_receipt_small done_receipt_pure by simp
  have f: "cleanup_fence done_receipt cleanup_evidence cleanup_evidence"
    by (simp add: cleanup_fence_def fences_def done_receipt_def deliver_receipt_def cleanup_evidence_def)
  have s: "\<not> in_strs [''PROVEN'', ''INTERVENTION_REQUIRED''] (jpath [''temporary_frontend'', ''cleanup_status''] done_receipt)"
    by (simp add: done_receipt_def deliver_receipt_def in_strs_def)
  have dg: "dirs cleanup_world = []" "digest cleanup_world = id" by (simp_all add: cleanup_world_def deliver_world_def)
  have "\<exists>x w1. cleanup_loop (Suc 1) ?p ''/ev'' cleanup_evidence cleanup_evidence cleanup_world = (Inr x, w1) \<and> jget ''updated'' x = JBool True"
    unfolding cleanup_loop.simps Let_def using ev' rb r f s dg
    by (simp add: bind_readJson bind_io_def fileSha256_def atomicCompareAndSwapJson_def del: jpath.simps)
  moreover have "(2 :: nat) = Suc 1" by simp
  ultimately show ?thesis
    by (simp only: updateCommittedWakeCleanup_def Let_def bind_readJson ev id sum.case id_apply)
qed

theorem cleanup_settles_once_witness:
  "\<exists>x w1 r. updateCommittedWakeCleanup deliver_env ''/r'' ''/ev'' cleanup_evidence cleanup_world = (Inr x, w1)
     \<and> parse_object (receiptPath ''/r'' (Str ''e'')) (bytes_at w1 (receiptPath ''/r'' (Str ''e''))) = Inr r \<and> cleanup_settled r"
proof -
  obtain x w1 where run: "updateCommittedWakeCleanup deliver_env ''/r'' ''/ev'' cleanup_evidence cleanup_world = (Inr x, w1)"
    and u: "jget ''updated'' x = JBool True" using cleanup_run by blast
  have ev: "parse_object ''/ev'' (bytes_at cleanup_world ''/ev'') = Inr cleanup_evidence"
    using cleanup_evidence_small by (simp add: cleanup_world_def deliver_world_def json_file_def bytes_at_def)
  have p: "receiptPath ''/r'' (Str ''e'') = receiptPath (real_path deliver_env ''/r'') (jget ''event_id'' cleanup_evidence)"
    by (simp add: cleanup_evidence_def deliver_env_def)
  from cleanup_settles_once [OF run u cleanup_evidence_small(1) ev p] run show ?thesis by blast
qed

end
