(* ===== verification/Consume.thy ===== *)
theory Consume imports Delivery ReadBack begin

text \<open>
  Consumption of a delivered wake (src/wakeup.js): \<open>consumeWakeDelivery\<close> leaves one consumption
  record per event, \<open>wakeDeliveryConsumptionStatus\<close> checks it against the receipt and the request,
  \<open>unconsumedDeliveredWakes\<close> and \<open>wakeQueueStatus\<close> report the queue.
\<close>

section \<open>consumeWakeDelivery\<close>

definition same_number :: "jv \<Rightarrow> jv \<Rightarrow> bool" where
  "same_number generation v \<longleftrightarrow> (case js_number generation of None \<Rightarrow> False | Some n \<Rightarrow> v = Num n)"

definition consumption_implementation :: "wake_env \<Rightarrow> jv \<Rightarrow> jv \<Rightarrow> jv \<Rightarrow> string \<Rightarrow> bool" where
  "consumption_implementation env receipt request binding bindingSha \<longleftrightarrow>
     strict_eq (jget ''queue_version'' receipt) (jget ''queue_version'' request)
     \<and> jget ''wake_worker_implementation_sha256'' receipt = Str (worker_sha env)
     \<and> jget ''codex_session_binding_sha256'' receipt = Str bindingSha
     \<and> fences [(jget ''codex_session_uuid'' receipt, jget ''codex_session_uuid'' binding),
         (jget ''host_kind'' receipt, jpath [''host'', ''kind''] binding),
         (jget ''native_transport'' receipt, jpath [''native_wake'', ''transport''] binding)]"

definition consumption_decision :: "jv \<Rightarrow> jv \<Rightarrow> jv \<Rightarrow> jv \<Rightarrow> bool" where
  "consumption_decision decision eventId receipt supervisor \<longleftrightarrow>
     jget ''schema'' decision = Str ACTIVATION_DECISION_SCHEMA \<and> jget ''status'' decision = Str ''DELIVERED''
     \<and> fences [(jget ''event_id'' decision, eventId),
         (jget ''delivery_id'' decision, jget ''delivery_id'' receipt),
         (jget ''supervisor_id'' decision, jget ''supervisor_id'' supervisor),
         (jget ''supervisor_generation'' decision, jget ''generation'' supervisor),
         (jget ''decision_id'' decision, jget ''activation_decision_id'' receipt),
         (jget ''lease_id'' decision, jget ''activation_lease_id'' receipt),
         (jget ''fencing_token'' decision, jget ''activation_fencing_token'' receipt),
         (jget ''transport_attempt_id'' decision, jget ''transport_attempt_id'' receipt),
         (jget ''message_sha256'' decision, jget ''message_sha256'' receipt)]"

definition consumption_key :: "jv \<Rightarrow> jv \<Rightarrow> jv \<Rightarrow> jv \<Rightarrow> string \<Rightarrow> jv" where
  "consumption_key supervisor eventId deliveryId receipt receiptFence = Obj [
     (''repository'', jget ''repository'' supervisor),
     (''event_id'', eventId),
     (''delivery_id'', deliveryId),
     (''supervisor_id'', jget ''supervisor_id'' supervisor),
     (''supervisor_generation'', jget ''generation'' supervisor),
     (''codex_session_binding_sha256'', jget ''codex_session_binding_sha256'' receipt),
     (''wake_worker_implementation_sha256'', jget ''wake_worker_implementation_sha256'' receipt),
     (''delivery_receipt_fence_sha256'', Str receiptFence)]"

definition consumption_record :: "string \<Rightarrow> jv \<Rightarrow> jv \<Rightarrow> jv \<Rightarrow> jv \<Rightarrow> string \<Rightarrow> string \<Rightarrow> string \<Rightarrow> jv" where
  "consumption_record keySha supervisor eventId request receipt requestSha receiptFence t = Obj [
     (''schema'', Str WAKE_CONSUMPTION_SCHEMA),
     (''consumption_id'', Str (''wake-consumption-'' @ keySha)),
     (''event_id'', eventId),
     (''task_id'', jget ''task_id'' request),
     (''attempt_id'', jget ''attempt_id'' request),
     (''delivery_id'', jget ''delivery_id'' receipt),
     (''repository'', jget ''repository'' supervisor),
     (''supervisor_id'', jget ''supervisor_id'' supervisor),
     (''supervisor_generation'', jget ''generation'' supervisor),
     (''codex_session_binding_sha256'', jget ''codex_session_binding_sha256'' receipt),
     (''wake_worker_implementation_sha256'', jget ''wake_worker_implementation_sha256'' receipt),
     (''request_sha256'', Str requestSha),
     (''delivery_receipt_fence_sha256'', Str receiptFence),
     (''consumed_at'', Str t)]"

definition durable_consumption_ok :: "wake_env \<Rightarrow> jv \<Rightarrow> jv \<Rightarrow> jv \<Rightarrow> jv \<Rightarrow> jv \<Rightarrow> bool" where
  "durable_consumption_ok env found eventId receipt supervisor consumption \<longleftrightarrow>
     jget ''schema'' found = Str WAKE_CONSUMPTION_SCHEMA
     \<and> fences [(jget ''event_id'' found, eventId), (jget ''delivery_id'' found, jget ''delivery_id'' receipt),
         (jget ''repository'' found, jget ''repository'' supervisor),
         (jget ''supervisor_id'' found, jget ''supervisor_id'' supervisor),
         (jget ''supervisor_generation'' found, jget ''generation'' supervisor),
         (jget ''codex_session_binding_sha256'' found, jget ''codex_session_binding_sha256'' receipt)]
     \<and> jget ''wake_worker_implementation_sha256'' found = Str (worker_sha env)
     \<and> fences [(jget ''request_sha256'' found, jget ''request_sha256'' consumption),
         (jget ''delivery_receipt_fence_sha256'' found, jget ''delivery_receipt_fence_sha256'' consumption)]"

text \<open>The errors of the checks, in the order of the code.\<close>

definition consumption_checks ::
  "wake_env \<Rightarrow> string \<Rightarrow> jv \<Rightarrow> jv \<Rightarrow> jv \<Rightarrow> jv \<Rightarrow> jv \<Rightarrow> jv \<Rightarrow> jv \<Rightarrow> jv \<Rightarrow> string \<Rightarrow> err + unit" where
  "consumption_checks env root eventId deliveryId generation request receipt supervisor binding decision bindingSha =
     guard_err (jget ''schema'' receipt \<noteq> Str DELIVERY_SCHEMA \<or> \<not> in_strs [''DELIVERED'', ''CONSUMED''] (jget ''status'' receipt))
       (Err ''wake delivery is not durably delivered'') (
     guard_err (jget ''repository'' supervisor \<noteq> Str root
         \<or> \<not> strict_eq (jpath [''target'', ''repository''] request) (jget ''repository'' supervisor)
         \<or> \<not> strict_eq (jget ''repository'' receipt) (jget ''repository'' supervisor)
         \<or> \<not> binding_valid binding \<or> jget ''repository_realpath'' binding \<noteq> Str (real_path env root))
       (Err ''wake delivery repository identity mismatch'') (
     guard_err (\<not> fences [(jget ''event_id'' request, eventId), (jget ''event_id'' receipt, eventId)])
       (Err ''wake delivery event identity mismatch'') (
     guard_err (\<not> is_str deliveryId \<or> \<not> truthy deliveryId)
       (Err ''wake consumption requires exact delivery identity'') (
     guard_err (\<not> strict_eq (jget ''delivery_id'' receipt) deliveryId) (Err ''wake delivery identity mismatch'') (
     guard_err (\<not> same_number generation (jget ''supervisor_generation'' receipt)
         \<or> \<not> fences [(jget ''supervisor_generation'' receipt, jget ''generation'' supervisor),
             (jpath [''target'', ''supervisor_generation''] request, jget ''generation'' supervisor)])
       (Err ''stale supervisor generation cannot consume wake event'') (
     guard_err (\<not> fences [(jget ''supervisor_id'' receipt, jget ''supervisor_id'' supervisor),
         (jpath [''target'', ''supervisor_id''] request, jget ''supervisor_id'' supervisor),
         (jget ''supervisor_id'' binding, jget ''supervisor_id'' supervisor)])
       (Err ''wrong supervisor identity cannot consume wake event'') (
     guard_err (\<not> strict_eq (jget ''supervisor_generation'' binding) (jget ''generation'' supervisor))
       (Err ''stale session binding cannot consume wake event'') (
     guard_err (\<not> consumption_implementation env receipt request binding bindingSha)
       (Err ''wake delivery implementation or session fence mismatch'') (
     guard_err (\<not> consumption_decision decision eventId receipt supervisor)
       (Err ''wake delivery receipt fence mismatch'')
     (Inr ()))))))))))"

text \<open>\<open>fileSha256(bindingPath)\<close>, reached only when the binding was read.\<close>

definition binding_digest :: "string \<Rightarrow> string wio" where
  "binding_digest root w = (Inr (case bytes_at w (binding_file root) of None \<Rightarrow> [] | Some b \<Rightarrow> digest w b), w)"

definition create_consumption :: "wake_env \<Rightarrow> string \<Rightarrow> jv \<Rightarrow> jv \<Rightarrow> jv \<Rightarrow> jv \<Rightarrow> jv wio" where
  "create_consumption env path eventId receipt supervisor consumption =
     bind_io (atomicCreateJson path consumption) (\<lambda>created.
     bind_io (if created then ret consumption else readJson path) (\<lambda>found.
     guard_io (\<not> durable_consumption_ok env found eventId receipt supervisor consumption)
       (Err ''wake consumption evidence fence mismatch'') (
     ret (Obj [(''duplicate'', JBool (\<not> created)), (''receipt'', receipt), (''consumption'', found)]))))"

definition consumeWakeDelivery :: "wake_env \<Rightarrow> string \<Rightarrow> jv \<Rightarrow> jv \<Rightarrow> jv \<Rightarrow> jv wio" where
  "consumeWakeDelivery env root eventId deliveryId generation =
     bind_io (readOptional (requestPath root eventId)) (\<lambda>request.
     if \<not> truthy request then ret Null
     else
       bind_io (readJson (receiptPath root eventId)) (\<lambda>receipt.
       bind_io (readJson (p_supervisor (paths root))) (\<lambda>supervisor.
       bind_io (readOptional (binding_file root)) (\<lambda>binding.
       bind_io (readOptional (activationDecisionPath root eventId)) (\<lambda>decision.
       bind_io (binding_digest root) (\<lambda>bindingSha.
       bind_io (lift_io (consumption_checks env root eventId deliveryId generation request receipt supervisor binding decision bindingSha)) (\<lambda>_.
       bind_io (deliveryReceiptFence receipt) (\<lambda>receiptFence.
       bind_io (sha256 (canonicalJson (consumption_key supervisor eventId deliveryId receipt receiptFence))) (\<lambda>keySha.
       bind_io (fileSha256 (requestPath root eventId)) (\<lambda>requestSha.
       bind_io now (\<lambda>t.
       create_consumption env (consumptionPath root eventId) eventId receipt supervisor
         (consumption_record keySha supervisor eventId request receipt requestSha receiptFence t))))))))))))"

section \<open>wakeDeliveryConsumptionStatus\<close>

definition consumption_matches :: "jv \<Rightarrow> jv \<Rightarrow> jv \<Rightarrow> bool" where
  "consumption_matches consumption receipt eventId \<longleftrightarrow>
     jget ''schema'' consumption = Str WAKE_CONSUMPTION_SCHEMA
     \<and> fences [(jget ''event_id'' consumption, eventId),
         (jget ''delivery_id'' consumption, jget ''delivery_id'' receipt),
         (jget ''repository'' consumption, jget ''repository'' receipt),
         (jget ''supervisor_id'' consumption, jget ''supervisor_id'' receipt),
         (jget ''supervisor_generation'' consumption, jget ''supervisor_generation'' receipt),
         (jget ''codex_session_binding_sha256'' consumption, jget ''codex_session_binding_sha256'' receipt)]
     \<and> (strict_eq (jget ''wake_worker_implementation_sha256'' consumption) (jget ''wake_worker_implementation_sha256'' receipt)
        \<or> nullish (jget ''wake_worker_implementation_sha256'' receipt)
          \<and> strict_eq (jget ''dispatcher_implementation_sha256'' consumption) (jget ''dispatcher_implementation_sha256'' receipt))"

definition consumed_value :: "string \<Rightarrow> jv \<Rightarrow> jv \<Rightarrow> jv \<Rightarrow> jv \<Rightarrow> jv wio" where
  "consumed_value root eventId consumption request receipt =
     (if \<not> consumption_matches consumption receipt eventId then ret (JBool False)
      else if \<not> truthy request then ret request
      else if \<not> fences [(jget ''task_id'' consumption, jget ''task_id'' request),
          (jget ''attempt_id'' consumption, jget ''attempt_id'' request)] then ret (JBool False)
      else
        bind_io (fileSha256 (requestPath root eventId)) (\<lambda>requestSha.
        bind_io (deliveryReceiptFence receipt) (\<lambda>receiptFence.
        ret (JBool (jget ''request_sha256'' consumption = Str requestSha
          \<and> jget ''delivery_receipt_fence_sha256'' consumption = Str receiptFence)))))"

definition wakeDeliveryConsumptionStatus :: "string \<Rightarrow> jv \<Rightarrow> jv wio" where
  "wakeDeliveryConsumptionStatus root eventId =
     bind_io (readOptional (receiptPath root eventId)) (\<lambda>receipt.
     if \<not> truthy receipt \<or> \<not> in_strs [''DELIVERED'', ''CONSUMED''] (jget ''status'' receipt)
     then ret (Obj [(''delivered'', JBool False), (''consumed'', JBool False), (''receipt'', receipt)])
     else if jget ''status'' receipt = Str ''CONSUMED''
     then ret (Obj [(''delivered'', JBool True), (''consumed'', JBool True), (''legacy'', JBool True), (''receipt'', receipt)])
     else
       bind_io (readOptional (consumptionPath root eventId)) (\<lambda>consumption.
       bind_io (readOptional (requestPath root eventId)) (\<lambda>request.
       bind_io (consumed_value root eventId consumption request receipt) (\<lambda>consumed.
       ret (Obj [(''delivered'', JBool True), (''consumed'', consumed), (''receipt'', receipt),
         (''consumption'', if truthy consumed then consumption else Null)])))))"

section \<open>The queue\<close>

definition queued_requests :: "string \<Rightarrow> jv list wio" where
  "queued_requests root = bind_io (readdirJson (wp_requests (wakePaths root))) (\<lambda>names.
     map_io (\<lambda>name. readJson (wp_requests (wakePaths root) @ ''/'' @ name)) (sort names))"

definition unconsumedDeliveredWakes :: "string \<Rightarrow> jv \<Rightarrow> jv \<Rightarrow> jv list wio" where
  "unconsumedDeliveredWakes root taskId attemptId =
     bind_io (directories root) (\<lambda>_.
     bind_io (queued_requests root) (\<lambda>requests.
     let mine = filter (\<lambda>r. fences [(jget ''task_id'' r, taskId), (jget ''attempt_id'' r, attemptId)]) requests in
     bind_io (map_io (\<lambda>r. wakeDeliveryConsumptionStatus root (jget ''event_id'' r)) mine) (\<lambda>statuses.
     ret (map (\<lambda>rs. jget ''event_id'' (fst rs)) (filter (\<lambda>rs. truthy (jget ''delivered'' (snd rs)) \<and> \<not> truthy (jget ''consumed'' (snd rs)))
       (zip mine statuses))))))"

definition queue_entry :: "jv \<Rightarrow> jv \<Rightarrow> (string \<times> jv) list \<Rightarrow> jv" where
  "queue_entry request supervisor attrs = Obj ([
     (''event_id'', jget ''event_id'' request),
     (''terminal_type'', jget ''terminal_type'' request),
     (''task_id'', jget ''task_id'' request),
     (''attempt_id'', jget ''attempt_id'' request),
     (''queued_at'', jget ''queued_at'' request),
     (''authoritative'', JBool (target_matches request supervisor))] @ attrs)"

definition receipt_entry :: "jv \<Rightarrow> jv \<Rightarrow> jv \<Rightarrow> jv \<Rightarrow> string \<Rightarrow> jv" where
  "receipt_entry request supervisor receipt consumption receiptFence = queue_entry request supervisor [
     (''classification'', Str (if truthy (jget ''consumed'' consumption) then ''duplicate''
        else if in_strs [''DELIVERED'', ''CONSUMED''] (jget ''status'' receipt) then ''awaiting-consumption'' else ''queued'')),
     (''reason'', if truthy (jget ''consumed'' consumption) then Str ''CONSUMED'' else jget ''status'' receipt),
     (''receipt'', receipt),
     (''delivery_receipt_fence_sha256'', Str receiptFence),
     (''consumption'', coalesce (jget ''consumption'' consumption) Null)]"

definition ready_entry :: "jv \<Rightarrow> jv \<Rightarrow> jv \<Rightarrow> jv" where
  "ready_entry request supervisor bindingStatus = queue_entry request supervisor [
     (''classification'', Str (if \<not> truthy (jget ''valid'' bindingStatus) then ''queued''
        else if truthy (jget ''supported'' bindingStatus) then ''native-ready'' else ''unsupported-topology'')),
     (''reason'', if \<not> truthy (jget ''valid'' bindingStatus)
        then Str (if jget ''classification'' bindingStatus = Str ''unbound'' then ''codex-session-unbound'' else ''codex-session-binding-stale'')
        else coalesce (jget ''reason'' bindingStatus) (Str ''supported-native-session-transport'')),
     (''binding_status'', bindingStatus)]"

definition queue_status_of :: "string \<Rightarrow> jv \<Rightarrow> jv \<Rightarrow> jv \<Rightarrow> jv wio" where
  "queue_status_of root supervisor bindingStatus request =
     bind_io (readOptional (receiptPath root (jget ''event_id'' request))) (\<lambda>receipt.
     if truthy receipt then
       bind_io (wakeDeliveryConsumptionStatus root (jget ''event_id'' request)) (\<lambda>consumption.
       bind_io (deliveryReceiptFence receipt) (\<lambda>receiptFence.
       ret (receipt_entry request supervisor receipt consumption receiptFence)))
     else
       bind_io (classifyQueuedWake root request supervisor) (\<lambda>lifecycle.
       if jget ''classification'' lifecycle \<noteq> Str ''queued''
           \<or> jget ''reason'' lifecycle \<noteq> Str ''awaiting-supported-native-transport''
       then ret (jspread (queue_entry request supervisor []) lifecycle)
       else ret (ready_entry request supervisor bindingStatus)))"

text \<open>\<open>bindingStatus\<close> is what \<open>refreshCodexSessionBinding\<close> answered.\<close>

definition wakeQueueStatus :: "string \<Rightarrow> jv \<Rightarrow> jv wio" where
  "wakeQueueStatus root bindingStatus =
     bind_io (directories root) (\<lambda>_.
     bind_io (readJson (p_supervisor (paths root))) (\<lambda>supervisor.
     bind_io (readdirJson (wp_requests (wakePaths root))) (\<lambda>names.
     bind_io (map_io (\<lambda>name. bind_io (readJson (wp_requests (wakePaths root) @ ''/'' @ name))
       (queue_status_of root supervisor bindingStatus)) (sort names)) (\<lambda>requests.
     ret (Obj [(''supervisor_generation'', jget ''generation'' supervisor), (''session_binding'', bindingStatus),
       (''requests'', Arr requests)])))))"

section \<open>What a consumption means\<close>

definition receipt_on_disk :: "string \<Rightarrow> jv \<Rightarrow> world \<Rightarrow> err + jv" where
  "receipt_on_disk root ev w = parse_object (receiptPath root ev) (bytes_at w (receiptPath root ev))"

definition request_on_disk :: "string \<Rightarrow> jv \<Rightarrow> world \<Rightarrow> err + jv" where
  "request_on_disk root ev w = parse_object (requestPath root ev) (bytes_at w (requestPath root ev))"

text \<open>A consumption that was not refused: everything it read, and the record it asked for.\<close>

definition consumes :: "wake_env \<Rightarrow> string \<Rightarrow> jv \<Rightarrow> jv \<Rightarrow> jv \<Rightarrow> world \<Rightarrow> jv \<Rightarrow> jv \<Rightarrow> jv \<Rightarrow> jv \<Rightarrow> jv \<Rightarrow> jv \<Rightarrow> bool" where
  "consumes env root ev did gen w request receipt sv binding decision consumption \<longleftrightarrow>
     request_on_disk root ev w = Inr request \<and> receipt_on_disk root ev w = Inr receipt \<and> supervisor_on_disk root w = Inr sv
     \<and> readOptional (binding_file root) w = (Inr binding, w)
     \<and> readOptional (activationDecisionPath root ev) w = (Inr decision, w)
     \<and> (\<exists>bindingSha. consumption_checks env root ev did gen request receipt sv binding decision bindingSha = Inr ())
     \<and> (\<exists>keySha t b. bytes_at w (requestPath root ev) = Some b
         \<and> consumption = consumption_record keySha sv ev request receipt (digest w b) (digest w (canonicalJson (fence_record receipt))) t)"

lemma consume_Inr:
  assumes "consumeWakeDelivery env root ev did gen w = (Inr x, w1)" "x \<noteq> Null"
  obtains request receipt sv binding decision consumption w2 where
    "consumes env root ev did gen w request receipt sv binding decision consumption"
    "bytes_at w2 = bytes_at w" "digest w2 = digest w"
    "create_consumption env (consumptionPath root ev) ev receipt sv consumption w2 = (Inr x, w1)"
proof -
  from assms obtain request where request: "readOptional (requestPath root ev) w = (Inr request, w)" "truthy request"
    and r1: "bind_io (readJson (receiptPath root ev)) (\<lambda>receipt.
       bind_io (readJson (p_supervisor (paths root))) (\<lambda>supervisor.
       bind_io (readOptional (binding_file root)) (\<lambda>binding.
       bind_io (readOptional (activationDecisionPath root ev)) (\<lambda>decision.
       bind_io (binding_digest root) (\<lambda>bindingSha.
       bind_io (lift_io (consumption_checks env root ev did gen request receipt supervisor binding decision bindingSha)) (\<lambda>_.
       bind_io (deliveryReceiptFence receipt) (\<lambda>receiptFence.
       bind_io (sha256 (canonicalJson (consumption_key supervisor ev did receipt receiptFence))) (\<lambda>keySha.
       bind_io (fileSha256 (requestPath root ev)) (\<lambda>requestSha.
       bind_io now (\<lambda>t.
       create_consumption env (consumptionPath root ev) ev receipt supervisor
         (consumption_record keySha supervisor ev request receipt requestSha receiptFence t))))))))))) w = (Inr x, w1)"
    unfolding consumeWakeDelivery_def by (elim bind_io_InrE) (auto simp: readOptional_run split: if_splits)
  from r1 obtain receipt sv where receipt: "receipt_on_disk root ev w = Inr receipt" and sv: "supervisor_on_disk root w = Inr sv"
    and r2: "bind_io (readOptional (binding_file root)) (\<lambda>binding.
       bind_io (readOptional (activationDecisionPath root ev)) (\<lambda>decision.
       bind_io (binding_digest root) (\<lambda>bindingSha.
       bind_io (lift_io (consumption_checks env root ev did gen request receipt sv binding decision bindingSha)) (\<lambda>_.
       bind_io (deliveryReceiptFence receipt) (\<lambda>receiptFence.
       bind_io (sha256 (canonicalJson (consumption_key sv ev did receipt receiptFence))) (\<lambda>keySha.
       bind_io (fileSha256 (requestPath root ev)) (\<lambda>requestSha.
       bind_io now (\<lambda>t.
       create_consumption env (consumptionPath root ev) ev receipt sv
         (consumption_record keySha sv ev request receipt requestSha receiptFence t))))))))) w = (Inr x, w1)"
    by (elim bind_io_InrE [where m = "readJson _"]) (auto simp: receipt_on_disk_def supervisor_on_disk_def)
  from r2 obtain binding decision where b: "readOptional (binding_file root) w = (Inr binding, w)"
    and d: "readOptional (activationDecisionPath root ev) w = (Inr decision, w)"
    and r3: "bind_io (binding_digest root) (\<lambda>bindingSha.
       bind_io (lift_io (consumption_checks env root ev did gen request receipt sv binding decision bindingSha)) (\<lambda>_.
       bind_io (deliveryReceiptFence receipt) (\<lambda>receiptFence.
       bind_io (sha256 (canonicalJson (consumption_key sv ev did receipt receiptFence))) (\<lambda>keySha.
       bind_io (fileSha256 (requestPath root ev)) (\<lambda>requestSha.
       bind_io now (\<lambda>t.
       create_consumption env (consumptionPath root ev) ev receipt sv
         (consumption_record keySha sv ev request receipt requestSha receiptFence t))))))) w = (Inr x, w1)"
    by (elim bind_io_InrE [where m = "readOptional _"]) (auto simp: readOptional_run)
  from request have req: "request_on_disk root ev w = Inr request"
    by (auto simp: readOptional_run request_on_disk_def split: if_splits)
  from r3 obtain bindingSha rb keySha where checks: "consumption_checks env root ev did gen request receipt sv binding decision bindingSha = Inr ()"
    and rb: "bytes_at w (requestPath root ev) = Some rb"
    and run: "create_consumption env (consumptionPath root ev) ev receipt sv (consumption_record keySha sv ev request receipt (digest w rb)
       (digest w (canonicalJson (fence_record receipt))) (clock w (ticks w))) (w\<lparr>ticks := Suc (ticks w)\<rparr>) = (Inr x, w1)"
    by (elim bind_io_InrE) (auto simp: binding_digest_def deliveryReceiptFence_def fileSha256_def split: option.splits)
  show thesis by (rule that [OF _ _ _ run]) (use req receipt sv b d checks rb in \<open>auto simp: consumes_def\<close>)
qed

lemma create_consumption_cases:
  assumes "create_consumption env p ev receipt sv consumption w = (Inr x, w1)"
  obtains (fresh) "bytes_at w p = None" "w1 = put_file p (canonicalJson consumption) w" "jget ''duplicate'' x = JBool False"
  | (again) b where "bytes_at w p = Some b" "w1 = w" "jget ''duplicate'' x = JBool True"
  using assms unfolding create_consumption_def
  by (cases "bytes_at w p") (auto simp: atomicCreateJson_def guard_io_eq_Inr elim!: bind_io_InrE split: if_splits)

lemma create_consumption_keeps: "bytes_at w p \<noteq> None \<Longrightarrow> snd (create_consumption env p ev receipt sv consumption w) = w"
  by (auto simp: create_consumption_def atomicCreateJson_def bind_io_def guard_io_def split: prod.splits sum.splits option.splits if_splits)

lemma consume_present:
  assumes "bytes_at w (consumptionPath root ev) \<noteq> None"
  shows "bytes_at (snd (consumeWakeDelivery env root ev did gen w)) = bytes_at w"
proof -
  have "post (consumeWakeDelivery env root ev did gen) w (\<lambda>r w'. bytes_at w' = bytes_at w)"
    using assms unfolding consumeWakeDelivery_def deliveryReceiptFence_def
    by (simp add: wp binding_digest_def post_def [of "binding_digest _"] post_def [of "create_consumption _ _ _ _ _ _"] create_consumption_keeps)
  then show ?thesis by (simp add: post_def)
qed


lemma checks_facts:
  assumes "consumption_checks env root ev did gen request receipt sv binding decision bindingSha = Inr ()"
  shows "jget ''schema'' receipt = Str DELIVERY_SCHEMA" "in_strs [''DELIVERED'', ''CONSUMED''] (jget ''status'' receipt)"
    "strict_eq (jget ''repository'' receipt) (jget ''repository'' sv)" "target_matches request sv"
    "binding_valid binding" "strict_eq (jget ''event_id'' request) ev" "strict_eq (jget ''event_id'' receipt) ev"
    "strict_eq (jget ''delivery_id'' receipt) did" "same_number gen (jget ''supervisor_generation'' receipt)"
    "strict_eq (jget ''supervisor_generation'' receipt) (jget ''generation'' sv)"
    "strict_eq (jget ''supervisor_id'' receipt) (jget ''supervisor_id'' sv)"
    "strict_eq (jget ''supervisor_generation'' binding) (jget ''generation'' sv)"
    "jget ''wake_worker_implementation_sha256'' receipt = Str (worker_sha env)"
    "jget ''codex_session_binding_sha256'' receipt = Str bindingSha"
    "jget ''status'' decision = Str ''DELIVERED''"
    "strict_eq (jget ''fencing_token'' decision) (jget ''activation_fencing_token'' receipt)"
    "strict_eq (jget ''transport_attempt_id'' decision) (jget ''transport_attempt_id'' receipt)"
proof -
  note F = assms [unfolded consumption_checks_def guard_err_eq_Inr fences_def list.pred_inject fst_conv snd_conv
    consumption_implementation_def consumption_decision_def de_Morgan_disj not_not]
  show "jget ''schema'' receipt = Str DELIVERY_SCHEMA"
    by (insert F, elim conjE, assumption)
  show "in_strs [''DELIVERED'', ''CONSUMED''] (jget ''status'' receipt)"
    by (insert F, elim conjE, assumption)
  show "strict_eq (jget ''repository'' receipt) (jget ''repository'' sv)"
    by (insert F, elim conjE, assumption)
  show "target_matches request sv"
    unfolding target_matches_def by (insert F, elim conjE, intro conjI; assumption)
  show "binding_valid binding"
    by (insert F, elim conjE, assumption)
  show "strict_eq (jget ''event_id'' request) ev"
    by (insert F, elim conjE, assumption)
  show "strict_eq (jget ''event_id'' receipt) ev"
    by (insert F, elim conjE, assumption)
  show "strict_eq (jget ''delivery_id'' receipt) did"
    by (insert F, elim conjE, assumption)
  show "same_number gen (jget ''supervisor_generation'' receipt)"
    by (insert F, elim conjE, assumption)
  show "strict_eq (jget ''supervisor_generation'' receipt) (jget ''generation'' sv)"
    by (insert F, elim conjE, assumption)
  show "strict_eq (jget ''supervisor_id'' receipt) (jget ''supervisor_id'' sv)"
    by (insert F, elim conjE, assumption)
  show "strict_eq (jget ''supervisor_generation'' binding) (jget ''generation'' sv)"
    by (insert F, elim conjE, assumption)
  show "jget ''wake_worker_implementation_sha256'' receipt = Str (worker_sha env)"
    by (insert F, elim conjE, assumption)
  show "jget ''codex_session_binding_sha256'' receipt = Str bindingSha"
    by (insert F, elim conjE, assumption)
  show "jget ''status'' decision = Str ''DELIVERED''"
    by (insert F, elim conjE, assumption)
  show "strict_eq (jget ''fencing_token'' decision) (jget ''activation_fencing_token'' receipt)"
    by (insert F, elim conjE, assumption)
  show "strict_eq (jget ''transport_attempt_id'' decision) (jget ''transport_attempt_id'' receipt)"
    by (insert F, elim conjE, assumption)
qed

lemma readOptional_object:
  "readOptional p w = (Inr v, w) \<Longrightarrow> v \<noteq> Null \<Longrightarrow> parse_object p (bytes_at w p) = Inr v"
  by (auto simp: readOptional_run split: if_splits)

text \<open>C16: a consumption is granted only to the current supervisor generation, for a receipt of this event that is
  durably delivered, under a delivered decision with the receipt's own fencing token and attempt.\<close>

theorem consumption_needs_delivery:
  assumes "consumeWakeDelivery env root ev did gen w = (Inr x, w1)" and "x \<noteq> Null"
  shows "\<exists>receipt sv decision n. receipt_on_disk root ev w = Inr receipt \<and> supervisor_on_disk root w = Inr sv
    \<and> decision_on_disk root ev w = Inr decision
    \<and> in_strs [''DELIVERED'', ''CONSUMED''] (jget ''status'' receipt) \<and> jget ''delivery_id'' receipt = did
    \<and> js_number gen = Some n \<and> jget ''generation'' sv = Num n \<and> jget ''supervisor_generation'' receipt = Num n
    \<and> jget ''status'' decision = Str ''DELIVERED''
    \<and> jget ''fencing_token'' decision = jget ''activation_fencing_token'' receipt
    \<and> jget ''transport_attempt_id'' decision = jget ''transport_attempt_id'' receipt"
  using assms
proof (rule consume_Inr)
  fix request receipt sv binding decision consumption w2
  assume c: "consumes env root ev did gen w request receipt sv binding decision consumption"
  then obtain bindingSha where k: "consumption_checks env root ev did gen request receipt sv binding decision bindingSha = Inr ()"
    by (auto simp: consumes_def)
  note f = checks_facts [OF k]
  from f(9) obtain n where n: "js_number gen = Some n" "jget ''supervisor_generation'' receipt = Num n"
    by (auto simp: same_number_def split: option.splits)
  have "decision_on_disk root ev w = Inr decision"
    unfolding decision_on_disk_def by (rule readOptional_object) (use c f(15) in \<open>auto simp: consumes_def\<close>)
  moreover have "receipt_on_disk root ev w = Inr receipt" "supervisor_on_disk root w = Inr sv"
    using c by (simp_all add: consumes_def)
  moreover have "jget ''delivery_id'' receipt = did" "jget ''generation'' sv = Num n"
    "jget ''fencing_token'' decision = jget ''activation_fencing_token'' receipt"
    "jget ''transport_attempt_id'' decision = jget ''transport_attempt_id'' receipt"
    using f(8,10,16,17) [THEN strict_eq_imp_eq] n(2) by simp_all
  ultimately show ?thesis using f(2,15) n by blast
qed

lemma jwf_consumption_record:
  assumes "jwf ev" "jwf sv" "jwf request" "jwf receipt"
  shows "jwf (consumption_record keySha sv ev request receipt requestSha receiptFence t)"
  using assms by (simp add: consumption_record_def jwf_jget)

lemma strict_eq_prim: "strict_eq a b \<Longrightarrow> is_prim a \<and> is_prim b"
  by (auto simp: strict_eq_def)

lemma strict_eq_refl: "is_prim a \<Longrightarrow> strict_eq a a"
  by (simp add: strict_eq_def)

lemma recorded_matches:
  assumes k: "consumption_checks env root ev did gen request receipt sv binding decision bindingSha = Inr ()"
    and wf: "jwf sv" "jwf request" "jwf receipt"
  shows "consumption_matches (durable (consumption_record keySha sv ev request receipt requestSha receiptFence t)) receipt ev"
proof -
  note f = checks_facts [OF k]
  let ?c = "consumption_record keySha sv ev request receipt requestSha receiptFence t"
  have ev: "is_prim ev" "is_prim (jget ''delivery_id'' receipt)" using strict_eq_prim f(6,8) by blast+
  have j: "jwf ?c" by (rule jwf_consumption_record) (use ev wf in auto)
  have "jget ''schema'' ?c = Str WAKE_CONSUMPTION_SCHEMA" "jget ''event_id'' ?c = ev" "jget ''delivery_id'' ?c = jget ''delivery_id'' receipt"
    "jget ''repository'' ?c = jget ''repository'' sv" "jget ''supervisor_id'' ?c = jget ''supervisor_id'' sv"
    "jget ''supervisor_generation'' ?c = jget ''generation'' sv"
    "jget ''codex_session_binding_sha256'' ?c = Str bindingSha" "jget ''wake_worker_implementation_sha256'' ?c = Str (worker_sha env)"
    by (simp_all add: consumption_record_def f(13,14))
  then show ?thesis
    unfolding consumption_matches_def fences_def list.pred_inject fst_conv snd_conv jget_read_back [OF j] strict_eq_read_back_left
    using f(3,10,11,13,14) ev by (simp add: strict_eq_refl strict_eq_sym)
qed

lemma consumption_path_other [simp]:
  "receiptPath root ev \<noteq> consumptionPath root ev2" "requestPath root ev \<noteq> consumptionPath root ev2"
  by (simp_all add: receiptPath_def requestPath_def consumptionPath_def json_in_def)

text \<open>C15: what a consumption records is what the status check looks for: after a first consumption the event is
  reported as delivered and consumed, so it is never handed out again.\<close>

theorem consumed_is_reported:
  assumes "consumeWakeDelivery env root ev did gen w = (Inr x, w1)" and "jget ''duplicate'' x = JBool False"
    and "request_on_disk root ev w = Inr request" "is_prim (jget ''task_id'' request)" "is_prim (jget ''attempt_id'' request)"
  shows "\<exists>s. wakeDeliveryConsumptionStatus root ev w1 = (Inr s, w1)
    \<and> jget ''delivered'' s = JBool True \<and> jget ''consumed'' s = JBool True"
proof -
  have "x \<noteq> Null" using assms(2) by auto
  from assms(1) this show ?thesis
  proof (rule consume_Inr)
    fix request2 receipt sv binding decision consumption w2
    assume c: "consumes env root ev did gen w request2 receipt sv binding decision consumption"
      and same: "bytes_at w2 = bytes_at w" "digest w2 = digest w"
      and run: "create_consumption env (consumptionPath root ev) ev receipt sv consumption w2 = (Inr x, w1)"
    from c assms(3) have req: "request2 = request" by (simp add: consumes_def)
    from run assms(2) have w1: "w1 = put_file (consumptionPath root ev) (canonicalJson consumption) w2"
      by (auto elim: create_consumption_cases)
    from c obtain bindingSha keySha t b where k: "consumption_checks env root ev did gen request receipt sv binding decision bindingSha = Inr ()"
      and b: "bytes_at w (requestPath root ev) = Some b"
      and rec: "consumption = consumption_record keySha sv ev request receipt (digest w b) (digest w (canonicalJson (fence_record receipt))) t"
      unfolding consumes_def req by blast
    have on: "parse_object (receiptPath root ev) (bytes_at w (receiptPath root ev)) = Inr receipt"
        "parse_object (requestPath root ev) (bytes_at w (requestPath root ev)) = Inr request"
        "parse_object (p_supervisor (paths root)) (bytes_at w (p_supervisor (paths root))) = Inr sv"
      using c req by (auto simp: consumes_def receipt_on_disk_def request_on_disk_def supervisor_on_disk_def)
    note wf = parse_object_jwf [OF on(1)] parse_object_jwf [OF on(2)] parse_object_jwf [OF on(3)]
    have obj: "truthy receipt" "truthy request" using parse_object_obj [OF on(1)] parse_object_obj [OF on(2)] is_obj_truthy by blast+
    have "is_prim ev" using strict_eq_prim [OF checks_facts(6) [OF k]] by simp
    then have j: "jwf consumption" unfolding rec by (intro jwf_consumption_record) (use wf in auto)
    have isobj: "is_obj consumption" by (simp add: rec consumption_record_def)
    have reads: "readOptional (receiptPath root ev) w1 = (Inr receipt, w1)" "readOptional (requestPath root ev) w1 = (Inr request, w1)"
        "readOptional (consumptionPath root ev) w1 = (Inr (durable consumption), w1)"
      using on parse_object_present [OF on(1)] b j isobj by (auto simp add: readOptional_run w1 same)
    have m: "consumption_matches (durable consumption) receipt ev"
      unfolding rec by (rule recorded_matches [OF k]) (use wf in auto)
    have ids: "fences [(jget ''task_id'' (durable consumption), jget ''task_id'' request), (jget ''attempt_id'' (durable consumption), jget ''attempt_id'' request)]"
      unfolding fences_def list.pred_inject fst_conv snd_conv jget_read_back [OF j] strict_eq_read_back_left
      using assms(4,5) by (simp add: rec consumption_record_def strict_eq_refl)
    have shas: "jget ''request_sha256'' (durable consumption) = Str (digest w b)"
        "jget ''delivery_receipt_fence_sha256'' (durable consumption) = Str (digest w (canonicalJson (fence_record receipt)))"
      unfolding jget_read_back [OF j] by (simp_all add: rec consumption_record_def)
    have sha: "fileSha256 (requestPath root ev) w1 = (Inr (digest w b), w1)"
      using b by (simp add: fileSha256_def w1 same)
    have "consumed_value root ev (durable consumption) request receipt w1 = (Inr (JBool True), w1)"
      using m ids obj shas sha by (simp add: consumed_value_def bind_io_def deliveryReceiptFence_def w1 same)
    with reads obj checks_facts(2) [OF k] show ?thesis
      by (simp add: wakeDeliveryConsumptionStatus_def bind_io_def)
  qed
qed

section \<open>Witnesses\<close>

definition done_world :: world where
  "done_world = deliver_world ''DELIVERED'' [json_file ''/r/.opsle/wake/deliveries/e.json'' done_receipt]"

lemma done_checks:
  "consumption_checks deliver_env ''/r'' (Str ''e'') (Str ''v'') (Num 1) deliver_request done_receipt deliver_supervisor deliver_binding
     (deliver_decision ''DELIVERED'') (canonicalJson deliver_binding) = Inr ()"
proof -
  have "jget ''repository_realpath'' deliver_binding = Str ''/r''" "jget ''supervisor_id'' deliver_binding = Str ''s''"
    "jget ''supervisor_generation'' deliver_binding = Num 1" "jget ''codex_session_uuid'' deliver_binding = Str deliver_uuid"
    "jpath [''host'', ''kind''] deliver_binding = Str ''herdr''" "jpath [''native_wake'', ''transport''] deliver_binding = Str ''plain-codex-resume''"
    by (simp_all add: deliver_binding_def)
  moreover have "real_path deliver_env ''/r'' = ''/r''" "worker_sha deliver_env = ''w''" by (simp_all add: deliver_env_def)
  ultimately show ?thesis using deliver_valid
    by (simp add: consumption_checks_def consumption_implementation_def consumption_decision_def fences_def same_number_def
      done_receipt_def deliver_receipt_def deliver_supervisor_def deliver_request_def deliver_decision_def)
qed

lemma done_disk:
  "bytes_at done_world (requestPath ''/r'' (Str ''e'')) = Some (canonicalJson deliver_request)"
  "bytes_at done_world (receiptPath ''/r'' (Str ''e'')) = Some (canonicalJson done_receipt)"
  "bytes_at done_world (consumptionPath ''/r'' (Str ''e'')) = None"
  "bytes_at done_world (binding_file ''/r'') = Some (canonicalJson deliver_binding)"
  "bytes_at done_world (activationDecisionPath ''/r'' (Str ''e'')) = Some (canonicalJson (deliver_decision ''DELIVERED''))"
  "bytes_at done_world (p_supervisor (paths ''/r'')) = Some (canonicalJson deliver_supervisor)" "digest done_world = id"
  by (simp_all add: done_world_def deliver_world_def json_file_def bytes_at_def requestPath_def receiptPath_def consumptionPath_def
      binding_file_def activationDecisionPath_def json_in_def)

lemma done_reads:
  "readOptional (requestPath ''/r'' (Str ''e'')) done_world = (Inr deliver_request, done_world)"
  "readJson (receiptPath ''/r'' (Str ''e'')) done_world = (Inr done_receipt, done_world)"
  "readOptional (binding_file ''/r'') done_world = (Inr deliver_binding, done_world)"
  "readOptional (activationDecisionPath ''/r'' (Str ''e'')) done_world = (Inr (deliver_decision ''DELIVERED''), done_world)"
  "readJson (p_supervisor (paths ''/r'')) done_world = (Inr deliver_supervisor, done_world)"
  "request_on_disk ''/r'' (Str ''e'') done_world = Inr deliver_request"
  using done_disk deliver_pure deliver_small done_receipt_small done_receipt_pure
  by (simp_all add: readOptional_run request_on_disk_def)

lemma done_consumed:
  "\<exists>x w1. consumeWakeDelivery deliver_env ''/r'' (Str ''e'') (Str ''v'') (Num 1) done_world = (Inr x, w1)
     \<and> jget ''duplicate'' x = JBool False"
proof -
  let ?key = "canonicalJson (consumption_key deliver_supervisor (Str ''e'') (Str ''v'') done_receipt (canonicalJson (fence_record done_receipt)))"
  let ?c = "consumption_record ?key deliver_supervisor (Str ''e'') deliver_request done_receipt (canonicalJson deliver_request)
    (canonicalJson (fence_record done_receipt)) ''T''"
  let ?w = "done_world\<lparr>ticks := Suc (ticks done_world)\<rparr>"
  let ?x = "Obj [(''duplicate'', JBool False), (''receipt'', done_receipt), (''consumption'', ?c)]"
  have "durable_consumption_ok deliver_env ?c (Str ''e'') done_receipt deliver_supervisor ?c"
    by (simp add: durable_consumption_ok_def consumption_record_def fences_def deliver_supervisor_def done_receipt_def
        deliver_receipt_def deliver_env_def)
  then have "create_consumption deliver_env (consumptionPath ''/r'' (Str ''e'')) (Str ''e'') done_receipt deliver_supervisor ?c ?w
      = (Inr ?x, put_file (consumptionPath ''/r'' (Str ''e'')) (canonicalJson ?c) ?w)"
    using done_disk(3) by (simp add: create_consumption_def bind_io_def atomicCreateJson_def)
  moreover have "truthy deliver_request" "clock done_world = (\<lambda>n. ''T'')"
    by (simp_all add: deliver_request_def done_world_def deliver_world_def)
  ultimately have "consumeWakeDelivery deliver_env ''/r'' (Str ''e'') (Str ''v'') (Num 1) done_world
      = (Inr ?x, put_file (consumptionPath ''/r'' (Str ''e'')) (canonicalJson ?c) ?w)"
    using done_reads done_disk done_checks
    by (simp add: consumeWakeDelivery_def bind_io_def binding_digest_def deliveryReceiptFence_def fileSha256_def)
  then show ?thesis by (intro exI conjI) (assumption, simp)
qed


theorem consumption_needs_delivery_witness:
  "\<exists>x w1 decision. consumeWakeDelivery deliver_env ''/r'' (Str ''e'') (Str ''v'') (Num 1) done_world = (Inr x, w1)
     \<and> decision_on_disk ''/r'' (Str ''e'') done_world = Inr decision \<and> jget ''status'' decision = Str ''DELIVERED''"
proof -
  obtain x w1 where run: "consumeWakeDelivery deliver_env ''/r'' (Str ''e'') (Str ''v'') (Num 1) done_world = (Inr x, w1)"
      and d: "jget ''duplicate'' x = JBool False" using done_consumed by blast
  have "x \<noteq> Null" using d by auto
  from consumption_needs_delivery [OF run this] run show ?thesis by blast
qed

theorem consumed_is_reported_witness:
  "\<exists>x w1 s. consumeWakeDelivery deliver_env ''/r'' (Str ''e'') (Str ''v'') (Num 1) done_world = (Inr x, w1)
     \<and> wakeDeliveryConsumptionStatus ''/r'' (Str ''e'') w1 = (Inr s, w1) \<and> jget ''consumed'' s = JBool True"
proof -
  obtain x w1 where run: "consumeWakeDelivery deliver_env ''/r'' (Str ''e'') (Str ''v'') (Num 1) done_world = (Inr x, w1)"
      and d: "jget ''duplicate'' x = JBool False" using done_consumed by blast
  have "is_prim (jget ''task_id'' deliver_request)" "is_prim (jget ''attempt_id'' deliver_request)" by (simp_all add: deliver_request_def)
  from consumed_is_reported [OF run d done_reads(6) this] run show ?thesis by blast
qed

end
