(* ===== verification/Registry.thy ===== *)
theory Registry imports HostLock Git Schema Frames begin

text \<open>
  The registry of a host (src/opsled-registry.js): which repositories its service owns, kept as
  canonical JSON that is replaced as a whole under a host lock, and the ownership pointer each
  repository keeps to its one host.
\<close>

text \<open>What the code reads outside the durable files: the identity of a process and the pid of this one,
  \<open>realpathSync\<close> (\<open>None\<close> when it throws), symbolic links, the working directory, and the place of the
  durable schema manifest of the package.\<close>

record registry_env =
  identity_of :: "jv \<Rightarrow> jv"
  self_pid :: jv
  realpath_of :: "string \<Rightarrow> string option"
  symlink :: "string \<Rightarrow> bool"
  working_dir :: string
  schema_manifest :: string

definition OPSLED_REGISTRY_SCHEMA :: string where
  "OPSLED_REGISTRY_SCHEMA = ''opsle.durable-supervisor.opsled-registry/v2''"

definition OPSLED_REPOSITORY_SCHEMA :: string where
  "OPSLED_REPOSITORY_SCHEMA = ''opsle.durable-supervisor.opsled-repository/v2''"

definition HOST_OWNERSHIP_SCHEMA :: string where
  "HOST_OWNERSHIP_SCHEMA = ''opsle.durable-supervisor.host-ownership/v1''"

definition LEGACY_OPSLED_REGISTRY_SCHEMA :: string where
  "LEGACY_OPSLED_REGISTRY_SCHEMA = ''opsle.durable-supervisor.opsled-registry/v1''"

definition LEGACY_OPSLED_REPOSITORY_SCHEMA :: string where
  "LEGACY_OPSLED_REPOSITORY_SCHEMA = ''opsle.durable-supervisor.opsled-repository/v1''"

definition FORBIDDEN_AUTHORITY_KEYS :: "string list" where
  "FORBIDDEN_AUTHORITY_KEYS = [''acceptance'', ''decisions'', ''evidence'', ''gearbox'', ''history'', ''objective'', ''policy'',
     ''requirements'', ''tasks'']"

section \<open>Validation\<close>

text \<open>No field at any depth may carry a repository's own authority.\<close>

fun assertNoAuthority :: "string \<Rightarrow> jv \<Rightarrow> err + unit"
and no_authority_items :: "string \<Rightarrow> nat \<Rightarrow> jv list \<Rightarrow> err + unit"
and no_authority_members :: "string \<Rightarrow> (string \<times> jv) list \<Rightarrow> err + unit" where
  "assertNoAuthority path (Arr xs) = no_authority_items path 0 xs"
| "assertNoAuthority path (Obj kvs) = no_authority_members path kvs"
| "assertNoAuthority path _ = Inr ()"
| "no_authority_items path i [] = Inr ()"
| "no_authority_items path i (x # xs) =
     bind_err (assertNoAuthority (path @ ''['' @ nat_str i @ '']'') x) (\<lambda>_. no_authority_items path (Suc i) xs)"
| "no_authority_members path [] = Inr ()"
| "no_authority_members path ((key, item) # kvs) =
     guard_err (map lower_char key \<in> set FORBIDDEN_AUTHORITY_KEYS)
       (classifiedError ''CORRUPT'' (''repository authority field is forbidden in opsled '' @ path @ '': '' @ key))
     (bind_err (assertNoAuthority (path @ ''.'' @ key) item) (\<lambda>_. no_authority_members path kvs))"

definition repositoryOperationalId :: "(string \<Rightarrow> string) \<Rightarrow> string \<Rightarrow> string" where
  "repositoryOperationalId sha p = ''repository-'' @ sha p"

record registry_paths =
  rp_root :: string
  rp_registry :: string
  rp_registryLock :: string
  rp_service :: string
  rp_serviceLock :: string
  rp_upgradeLock :: string
  rp_repositories :: string

definition registryPaths :: "string \<Rightarrow> string \<Rightarrow> registry_paths" where
  "registryPaths cwd hostRoot = (let root = resolve_path cwd hostRoot in \<lparr>
     rp_root = root,
     rp_registry = root @ ''/registry.json'',
     rp_registryLock = root @ ''/registry.lock'',
     rp_service = root @ ''/opsled.json'',
     rp_serviceLock = root @ ''/opsled.lock'',
     rp_upgradeLock = root @ ''/runtime/upgrade.lock'',
     rp_repositories = root @ ''/repositories''\<rparr>)"

definition ownership_pointer :: "string \<Rightarrow> string \<Rightarrow> string" where
  "ownership_pointer cwd repo = resolve_path cwd repo @ ''/.opsle/host-ownership.json''"

definition ownership_lock :: "string \<Rightarrow> string \<Rightarrow> string" where
  "ownership_lock cwd repo = resolve_path cwd repo @ ''/.opsle/host-ownership.lock''"

definition emptyRegistry :: jv where
  "emptyRegistry = Obj [
     (''schema'', Str OPSLED_REGISTRY_SCHEMA),
     (''revision'', Num 0),
     (''updated_at'', Null),
     (''repositories'', Obj [])]"

text \<open>\<open>Object.keys(value).sort().join(',')\<close>\<close>

definition has_keys :: "string list \<Rightarrow> jv \<Rightarrow> bool" where
  "has_keys ks v \<longleftrightarrow> join_with '','' (sort (keys_of v)) = join_with '','' (sort ks)"

definition is_absolute :: "jv \<Rightarrow> bool" where
  "is_absolute v \<longleftrightarrow> is_str v \<and> starts_with ''/'' (str_of v)"

definition validateHerdrPointer :: "bool \<Rightarrow> jv \<Rightarrow> bool" where
  "validateHerdrPointer nullable v \<longleftrightarrow> (nullable \<and> v = Null)
     \<or> (jget ''kind'' v = Str ''herdr'' \<and> is_str (jget ''workspace_id'' v) \<and> is_str (jget ''pane_id'' v)
        \<and> is_str (jget ''terminal_id'' v) \<and> is_absolute (jget ''sessions_root_realpath'' v)
        \<and> has_keys [''kind'', ''pane_id'', ''sessions_root_realpath'', ''terminal_id'', ''workspace_id''] v)"

definition mapping_keys :: "string list" where
  "mapping_keys = [''added_at'', ''enabled'', ''host_state_path'', ''herdr'', ''ownership_pointer_path'', ''repository_id'',
     ''repository_realpath'', ''schema'', ''updated_at'']"

definition mapping_ok :: "(string \<Rightarrow> string) \<Rightarrow> jv \<Rightarrow> jv \<Rightarrow> bool" where
  "mapping_ok sha mapping key \<longleftrightarrow> jget ''schema'' mapping = Str OPSLED_REPOSITORY_SCHEMA
     \<and> has_keys mapping_keys mapping
     \<and> is_absolute (jget ''repository_realpath'' mapping)
     \<and> jget ''repository_id'' mapping = Str (repositoryOperationalId sha (str_of (jget ''repository_realpath'' mapping)))
     \<and> strict_eq key (jget ''repository_id'' mapping)
     \<and> jget ''enabled'' mapping = JBool True
     \<and> is_str (jget ''host_state_path'' mapping)
     \<and> is_str (jget ''ownership_pointer_path'' mapping)
     \<and> validateHerdrPointer True (jget ''herdr'' mapping)
     \<and> is_str (jget ''added_at'' mapping)
     \<and> is_str (jget ''updated_at'' mapping)"

definition validateRepositoryMapping :: "(string \<Rightarrow> string) \<Rightarrow> jv \<Rightarrow> jv \<Rightarrow> err + unit" where
  "validateRepositoryMapping sha mapping key =
     bind_err (assertNoAuthority ''repository mapping'' mapping) (\<lambda>_.
     guard_err (\<not> mapping_ok sha mapping key) (classifiedError ''CORRUPT'' ''invalid opsled repository mapping'') (Inr ()))"

definition pointer_keys :: "string list" where
  "pointer_keys = [''herdr'', ''opsled_root'', ''registered_at'', ''registry_path'', ''repository_id'', ''repository_realpath'',
     ''schema'', ''session_binding_path'', ''updated_at'']"

definition session_binding_file :: "string \<Rightarrow> string" where
  "session_binding_file root = root @ ''/.opsle/wake/codex-session-binding.json''"

definition validateHostOwnershipPointer :: "(string \<Rightarrow> string) \<Rightarrow> string \<Rightarrow> jv \<Rightarrow> string \<Rightarrow> err + unit" where
  "validateHostOwnershipPointer sha cwd pointer repo =
     (let root = resolve_path cwd repo in
     guard_err (\<not> (jget ''schema'' pointer = Str HOST_OWNERSHIP_SCHEMA
         \<and> jget ''repository_realpath'' pointer = Str root
         \<and> jget ''repository_id'' pointer = Str (repositoryOperationalId sha root)
         \<and> is_absolute (jget ''opsled_root'' pointer)
         \<and> jget ''registry_path'' pointer = Str (rp_registry (registryPaths cwd (str_of (jget ''opsled_root'' pointer))))
         \<and> jget ''session_binding_path'' pointer = Str (session_binding_file root)
         \<and> validateHerdrPointer False (jget ''herdr'' pointer)
         \<and> is_str (jget ''registered_at'' pointer) \<and> is_str (jget ''updated_at'' pointer)
         \<and> has_keys pointer_keys pointer))
       (classifiedError ''CORRUPT'' ''invalid repository host ownership pointer'') (Inr ()))"

text \<open>The loop over the mappings, with the real paths and the workspaces seen so far.\<close>

fun validate_mappings :: "(string \<Rightarrow> string) \<Rightarrow> jv list \<Rightarrow> jv list \<Rightarrow> (string \<times> jv) list \<Rightarrow> err + unit" where
  "validate_mappings sha realpaths workspaces [] = Inr ()"
| "validate_mappings sha realpaths workspaces ((key, mapping) # kvs) =
     (let realpath = jget ''repository_realpath'' mapping; herdr = jget ''herdr'' mapping; workspace = jget ''workspace_id'' herdr in
     bind_err (validateRepositoryMapping sha mapping (Str key)) (\<lambda>_.
     guard_err (jincludes realpaths realpath)
       (classifiedError ''CORRUPT'' (''duplicate repository realpath in opsled registry: '' @ js_string realpath)) (
     guard_err (truthy herdr \<and> jincludes workspaces workspace)
       (classifiedError ''CORRUPT'' (''Herdr workspace is registered to more than one repository: '' @ js_string workspace)) (
     validate_mappings sha (realpath # realpaths) (if truthy herdr then workspace # workspaces else workspaces) kvs))))"

definition registry_shape :: "jv \<Rightarrow> bool" where
  "registry_shape registry \<longleftrightarrow> jget ''schema'' registry = Str OPSLED_REGISTRY_SCHEMA
     \<and> safe_int (jget ''revision'' registry) \<and> 0 \<le> int_of (jget ''revision'' registry)
     \<and> (jget ''updated_at'' registry = Null \<or> is_str (jget ''updated_at'' registry))
     \<and> is_obj (jget ''repositories'' registry)
     \<and> has_keys [''repositories'', ''revision'', ''schema'', ''updated_at''] registry"

definition validateRegistry :: "(string \<Rightarrow> string) \<Rightarrow> jv \<Rightarrow> err + unit" where
  "validateRegistry sha registry =
     bind_err (assertNoAuthority ''registry'' registry) (\<lambda>_.
     guard_err (\<not> registry_shape registry) (classifiedError ''CORRUPT'' ''invalid opsled registry'')
     (validate_mappings sha [] [] (members_of (jget ''repositories'' registry))))"

definition parseRegistry :: "(string \<Rightarrow> string) \<Rightarrow> bool \<Rightarrow> string \<Rightarrow> string \<Rightarrow> err + jv" where
  "parseRegistry sha permitLegacy path bytes =
     (case jparse bytes of
       None \<Rightarrow> Inl (classifiedError ''CORRUPT'' (''malformed opsled registry '' @ path))
     | Some v \<Rightarrow>
       guard_err (bytes \<noteq> canonicalJson v) (classifiedError ''CORRUPT'' (''opsled registry is not canonical JSON: '' @ path)) (
       guard_err (is_str (jget ''schema'' v)
           \<and> starts_with ''opsle.durable-supervisor.opsled-registry/'' (str_of (jget ''schema'' v))
           \<and> jget ''schema'' v \<noteq> Str OPSLED_REGISTRY_SCHEMA
           \<and> \<not> (permitLegacy \<and> jget ''schema'' v = Str LEGACY_OPSLED_REGISTRY_SCHEMA))
         (classifiedError ''UPGRADE_REQUIRED'' (''unsupported opsled registry schema '' @ str_of (jget ''schema'' v))) (
       bind_err (if permitLegacy then jdot ''schema'' v else Inr Undef) (\<lambda>schema.
       if permitLegacy \<and> schema = Str LEGACY_OPSLED_REGISTRY_SCHEMA then Inr v
       else bind_err (validateRegistry sha v) (\<lambda>_. Inr v)))))"

section \<open>Locks and files\<close>

text \<open>\<open>try { m } finally { release }\<close> around a held host lock.\<close>

definition finally_io :: "'a wio \<Rightarrow> 'b wio \<Rightarrow> 'a wio" where
  "finally_io m r w = (case m w of (x, w1) \<Rightarrow> (case r w1 of (Inl e, w2) \<Rightarrow> (Inl e, w2) | (Inr _, w2) \<Rightarrow> (x, w2)))"

definition with_lock :: "registry_env \<Rightarrow> string \<Rightarrow> 'a wio \<Rightarrow> 'a wio" where
  "with_lock env lockPath m =
     bind_io (acquireHostLock 40 (identity_of env) lockPath (self_pid env)) (\<lambda>owner.
     finally_io m (releaseHostLock False lockPath owner))"

definition unlinkSync :: "string \<Rightarrow> unit wio" where
  "unlinkSync p w = (if bytes_at w p = None then (Inl (Coded ''ENOENT'' (''no such file: '' @ p)), w)
     else (Inr (), w\<lparr>files := filter (\<lambda>pb. fst pb \<noteq> p) (files w)\<rparr>))"

definition ensureSafeHostRoot :: "registry_env \<Rightarrow> string \<Rightarrow> registry_paths wio" where
  "ensureSafeHostRoot env hostRoot =
     (let paths = registryPaths (working_dir env) hostRoot in
     bind_io (mkdirp (rp_root paths)) (\<lambda>_.
     guard_io (symlink env (rp_root paths))
       (classifiedError ''CORRUPT'' (''opsled host root must be a non-symlink directory: '' @ rp_root paths)) (
     ret paths)))"

text \<open>A temporary file, its \<open>fsync\<close> and a \<open>rename\<close>: the content is replaced as a whole.\<close>

definition durableReplace :: "string \<Rightarrow> string \<Rightarrow> unit wio" where
  "durableReplace path bytes = atomicWrite path bytes"

text \<open>\<open>createHash('sha256')\<close> is the world's digest.\<close>

definition with_digest :: "((string \<Rightarrow> string) \<Rightarrow> err + 'a) \<Rightarrow> 'a wio" where
  "with_digest f w = (f (digest w), w)"

section \<open>Migration of a version 1 registry\<close>

definition herdrFromBinding :: "jv \<Rightarrow> string \<Rightarrow> jv" where
  "herdrFromBinding binding repositoryRealpath =
     (if jget ''schema'' binding \<noteq> Str ''opsle.durable-supervisor.codex-session-binding/v3''
         \<or> jget ''state'' binding \<noteq> Str ''CURRENT'' \<or> jget ''repository_realpath'' binding \<noteq> Str repositoryRealpath
         \<or> jpath [''host'', ''kind''] binding \<noteq> Str ''herdr'' \<or> \<not> is_str (jpath [''host'', ''workspace_id''] binding)
         \<or> \<not> is_str (jpath [''host'', ''pane_id''] binding) \<or> \<not> is_str (jpath [''host'', ''terminal_id''] binding)
         \<or> \<not> is_str (jget ''sessions_root_realpath'' binding) then Null
      else Obj [
        (''kind'', Str ''herdr''),
        (''workspace_id'', jpath [''host'', ''workspace_id''] binding),
        (''pane_id'', jpath [''host'', ''pane_id''] binding),
        (''terminal_id'', jpath [''host'', ''terminal_id''] binding),
        (''sessions_root_realpath'', jget ''sessions_root_realpath'' binding)])"

definition herdrFromSessionBinding :: "string \<Rightarrow> jv wio" where
  "herdrFromSessionBinding repositoryRealpath =
     bind_io (existsSync (session_binding_file repositoryRealpath)) (\<lambda>there.
     if there then bind_io (readJson (session_binding_file repositoryRealpath)) (\<lambda>binding.
       guard_io (nullish binding) TypeErr (ret (herdrFromBinding binding repositoryRealpath)))
     else ret Null)"

text \<open>\<open>resolve\<close> throws a \<open>TypeError\<close> on what is not a string.\<close>

definition migrate_mapping :: "registry_env \<Rightarrow> string \<times> jv \<Rightarrow> (string \<times> jv) wio" where
  "migrate_mapping env km = (case km of (repositoryId, mapping) \<Rightarrow>
     guard_io (jget ''schema'' mapping \<noteq> Str LEGACY_OPSLED_REPOSITORY_SCHEMA)
       (classifiedError ''CORRUPT'' (''invalid legacy opsled mapping '' @ repositoryId)) (
     let realpath = jget ''repository_realpath'' mapping in
     guard_io (\<not> is_str realpath) TypeErr (
     bind_io (herdrFromSessionBinding (str_of realpath)) (\<lambda>herdr.
     ret (repositoryId, jsets [
       (''schema'', Str OPSLED_REPOSITORY_SCHEMA),
       (''ownership_pointer_path'', Str (ownership_pointer (working_dir env) (str_of realpath))),
       (''herdr'', herdr)] (jspread (Obj []) mapping))))))"

definition migrateRegistryV1 :: "registry_env \<Rightarrow> jv \<Rightarrow> jv wio" where
  "migrateRegistryV1 env registry =
     bind_io (map_io (migrate_mapping env) (members_of (jget ''repositories'' registry))) (\<lambda>repositories.
     bind_io now (\<lambda>t.
     let migrated = jsets [
       (''schema'', Str OPSLED_REGISTRY_SCHEMA),
       (''repositories'', Obj repositories),
       (''updated_at'', Str t)] registry in
     bind_io (with_digest (\<lambda>sha. validateRegistry sha migrated)) (\<lambda>_. ret migrated)))"

section \<open>Reading and updating the registry\<close>

definition current_registry :: "registry_env \<Rightarrow> jv \<Rightarrow> jv wio" where
  "current_registry env parsed =
     (if jget ''schema'' parsed = Str OPSLED_REGISTRY_SCHEMA then ret parsed else migrateRegistryV1 env parsed)"

definition readOptionalBytes :: "string \<Rightarrow> string option wio" where
  "readOptionalBytes p = bind_io (existsSync p) (\<lambda>there.
     if there then bind_io (readFile p) (\<lambda>b. ret (Some b)) else ret None)"

definition commit_registry :: "string \<Rightarrow> string option \<Rightarrow> jv \<Rightarrow> jv \<Rightarrow> jv \<Rightarrow> jv wio" where
  "commit_registry path beforeBytes before mutated result =
     bind_io now (\<lambda>t.
     let next = jset ''updated_at'' (Str t) (jset ''revision'' (Num (int_of (jget ''revision'' before) + 1)) mutated) in
     bind_io (with_digest (\<lambda>sha. validateRegistry sha next)) (\<lambda>_.
     bind_io (durableReplace path (canonicalJson next)) (\<lambda>_.
     bind_io (case beforeBytes of None \<Rightarrow> ret Null | Some b \<Rightarrow> bind_io (sha256 b) (\<lambda>h. ret (Str h))) (\<lambda>prior.
     bind_io (sha256 (canonicalJson next)) (\<lambda>current.
     ret (Obj [(''registry'', next), (''prior_sha256'', prior), (''current_sha256'', Str current), (''result'', result)]))))))"

text \<open>\<open>mutate\<close> returns the registry it changed and its own result; \<open>structuredClone\<close> makes it work on a copy.\<close>

definition update_locked :: "registry_env \<Rightarrow> string \<Rightarrow> (jv \<Rightarrow> (jv \<times> jv) wio) \<Rightarrow> jv wio" where
  "update_locked env path mutate =
     bind_io (readOptionalBytes path) (\<lambda>beforeBytes.
     bind_io (case beforeBytes of None \<Rightarrow> ret emptyRegistry
       | Some b \<Rightarrow> with_digest (\<lambda>sha. parseRegistry sha True path b)) (\<lambda>parsed.
     bind_io (current_registry env parsed) (\<lambda>before.
     bind_io (mutate before) (\<lambda>mutated.
     commit_registry path beforeBytes before (fst mutated) (snd mutated)))))"

definition updateRegistry :: "registry_env \<Rightarrow> string \<Rightarrow> (jv \<Rightarrow> (jv \<times> jv) wio) \<Rightarrow> jv wio" where
  "updateRegistry env hostRoot mutate =
     bind_io (ensureSafeHostRoot env hostRoot) (\<lambda>paths.
     with_lock env (rp_registryLock paths) (update_locked env (rp_registry paths) mutate))"

definition readRegistry :: "registry_env \<Rightarrow> bool \<Rightarrow> string \<Rightarrow> jv wio" where
  "readRegistry env create hostRoot =
     bind_io (ensureSafeHostRoot env hostRoot) (\<lambda>paths.
     bind_io (existsSync (rp_registry paths)) (\<lambda>there.
     if \<not> there then (if \<not> create then ret emptyRegistry else updateRegistry env hostRoot (\<lambda>registry. ret (registry, registry)))
     else
       guard_io (symlink env (rp_registry paths)) (classifiedError ''CORRUPT'' ''opsled registry must not be a symbolic link'') (
       bind_io (readFile (rp_registry paths)) (\<lambda>bytes.
       bind_io (with_digest (\<lambda>sha. parseRegistry sha True (rp_registry paths) bytes)) (\<lambda>parsed.
       if jget ''schema'' parsed = Str OPSLED_REGISTRY_SCHEMA then ret parsed
       else with_lock env (rp_registryLock paths) (
         bind_io (readFile (rp_registry paths)) (\<lambda>currentBytes.
         bind_io (with_digest (\<lambda>sha. parseRegistry sha True (rp_registry paths) currentBytes)) (\<lambda>current.
         if jget ''schema'' current = Str OPSLED_REGISTRY_SCHEMA then ret current
         else
           bind_io (migrateRegistryV1 env current) (\<lambda>migrated.
           bind_io (durableReplace (rp_registry paths) (canonicalJson migrated)) (\<lambda>_. ret migrated))))))))))"

definition acquireUpgradeLock :: "registry_env \<Rightarrow> string \<Rightarrow> jv wio" where
  "acquireUpgradeLock env hostRoot =
     bind_io (ensureSafeHostRoot env hostRoot) (\<lambda>paths.
     bind_io (mkdirp (dirname (rp_upgradeLock paths))) (\<lambda>_.
     acquireHostLock 40 (identity_of env) (rp_upgradeLock paths) (self_pid env)))"

section \<open>The ownership pointer of a repository\<close>

definition realpathSync :: "registry_env \<Rightarrow> string \<Rightarrow> string wio" where
  "realpathSync env p = (case realpath_of env p of
       None \<Rightarrow> throw (Coded ''ENOENT'' (''no such file: '' @ p))
     | Some r \<Rightarrow> ret r)"

definition checked_pointer :: "registry_env \<Rightarrow> jv \<Rightarrow> string \<Rightarrow> unit wio" where
  "checked_pointer env pointer root = with_digest (\<lambda>sha. validateHostOwnershipPointer sha (working_dir env) pointer root)"

definition readHostOwnershipPointer :: "registry_env \<Rightarrow> string \<Rightarrow> jv wio" where
  "readHostOwnershipPointer env repo =
     (let path = ownership_pointer (working_dir env) repo in
     bind_io (existsSync path) (\<lambda>there.
     if \<not> there then ret Null
     else
       bind_io (readJson path) (\<lambda>pointer.
       bind_io (realpathSync env (resolve_path (working_dir env) repo)) (\<lambda>root.
       bind_io (checked_pointer env pointer root) (\<lambda>_. ret pointer)))))"

definition ownership_record :: "string \<Rightarrow> string \<Rightarrow> string \<Rightarrow> string \<Rightarrow> jv \<Rightarrow> jv \<Rightarrow> jv \<Rightarrow> jv" where
  "ownership_record repositoryId realpath hostRoot registryFile herdr registered updated = Obj [
     (''schema'', Str HOST_OWNERSHIP_SCHEMA),
     (''repository_id'', Str repositoryId),
     (''repository_realpath'', Str realpath),
     (''opsled_root'', Str hostRoot),
     (''registry_path'', Str registryFile),
     (''herdr'', herdr),
     (''session_binding_path'', Str (session_binding_file realpath)),
     (''registered_at'', registered),
     (''updated_at'', updated)]"

definition establish_pointer :: "registry_env \<Rightarrow> jv \<Rightarrow> string \<Rightarrow> string \<Rightarrow> jv wio" where
  "establish_pointer env mapping realpath hostRoot =
     bind_io (readHostOwnershipPointer env realpath) (\<lambda>existing.
     if truthy existing then
       guard_io (jget ''opsled_root'' existing \<noteq> Str hostRoot
           \<or> \<not> strict_eq (jget ''repository_id'' existing) (jget ''repository_id'' mapping)
           \<or> canonicalJson (jget ''herdr'' existing) \<noteq> canonicalJson (jget ''herdr'' mapping))
         (classifiedError ''OWNERSHIP_CONFLICT'' ''repository host ownership pointer disagrees with the registry'')
       (ret existing)
     else
       (let pointer = ownership_record (str_of (jget ''repository_id'' mapping)) realpath hostRoot
          (rp_registry (registryPaths (working_dir env) hostRoot)) (jget ''herdr'' mapping)
          (jget ''added_at'' mapping) (jget ''updated_at'' mapping) in
       bind_io (checked_pointer env pointer realpath) (\<lambda>_.
       bind_io (writeJson (ownership_pointer (working_dir env) realpath) pointer) (\<lambda>_.
       ret pointer))))"

definition ensureRepositoryOwnershipPointer :: "registry_env \<Rightarrow> jv \<Rightarrow> jv wio" where
  "ensureRepositoryOwnershipPointer env mapping =
     bind_io (lift_io (jdot ''repository_id'' mapping)) (\<lambda>key.
     bind_io (with_digest (\<lambda>sha. validateRepositoryMapping sha mapping key)) (\<lambda>_.
     let realpath = str_of (jget ''repository_realpath'' mapping); hostState = str_of (jget ''host_state_path'' mapping);
         hostRoot = dirname (dirname hostState) in
     guard_io (jget ''ownership_pointer_path'' mapping \<noteq> Str (ownership_pointer (working_dir env) realpath)
         \<or> \<not> truthy (jget ''herdr'' mapping))
       (classifiedError ''CORRUPT'' ''registered repository cannot establish its host ownership pointer'') (
     guard_io (basename (dirname hostState) \<noteq> ''repositories'' \<or> Str (basename hostState) \<noteq> key)
       (classifiedError ''CORRUPT'' ''registered repository host state path is not canonical'') (
     with_lock env (ownership_lock (working_dir env) realpath) (establish_pointer env mapping realpath hostRoot)))))"

section \<open>Registration\<close>

text \<open>The first mapping that forbids registering \<open>repositoryId\<close> at \<open>realpath\<close> with workspace \<open>workspace\<close>.\<close>

fun registration_conflict :: "string \<Rightarrow> string \<Rightarrow> jv \<Rightarrow> (string \<times> jv) list \<Rightarrow> err option" where
  "registration_conflict realpath repositoryId workspace [] = None"
| "registration_conflict realpath repositoryId workspace ((key, mapping) # kvs) =
     (if jget ''repository_realpath'' mapping = Str realpath \<and> jget ''repository_id'' mapping \<noteq> Str repositoryId
      then Some (classifiedError ''CORRUPT'' (''conflicting mapping for repository realpath '' @ realpath))
      else if jget ''repository_id'' mapping \<noteq> Str repositoryId
          \<and> strict_eq (jpath [''herdr'', ''workspace_id''] mapping) workspace
      then Some (classifiedError ''OWNERSHIP_CONFLICT''
        (''Herdr workspace is already registered to '' @ js_string (jget ''repository_realpath'' mapping)))
      else registration_conflict realpath repositoryId workspace kvs)"

definition new_mapping :: "string \<Rightarrow> string \<Rightarrow> string \<Rightarrow> string \<Rightarrow> jv \<Rightarrow> jv \<Rightarrow> string \<Rightarrow> jv" where
  "new_mapping repositoryId realpath repositories pointerPath herdr existing t = Obj [
     (''schema'', Str OPSLED_REPOSITORY_SCHEMA),
     (''repository_id'', Str repositoryId),
     (''repository_realpath'', Str realpath),
     (''host_state_path'', Str (repositories @ ''/'' @ repositoryId)),
     (''ownership_pointer_path'', Str pointerPath),
     (''herdr'', herdr),
     (''enabled'', JBool True),
     (''added_at'', coalesce (jget ''added_at'' existing) (Str t)),
     (''updated_at'', Str t)]"

definition put_mapping :: "string \<Rightarrow> jv \<Rightarrow> jv \<Rightarrow> jv" where
  "put_mapping repositoryId mapping registry =
     jset ''repositories'' (jset repositoryId mapping (jget ''repositories'' registry)) registry"

definition register_mapping :: "registry_env \<Rightarrow> string \<Rightarrow> string \<Rightarrow> string \<Rightarrow> jv \<Rightarrow> jv \<Rightarrow> jv \<Rightarrow> (jv \<times> jv) wio" where
  "register_mapping env hostRoot repositoryId realpath herdr pointer registry =
     (case registration_conflict realpath repositoryId (jget ''workspace_id'' herdr) (members_of (jget ''repositories'' registry)) of
       Some e \<Rightarrow> throw e
     | None \<Rightarrow>
       bind_io now (\<lambda>t.
       let existing = jpath [''repositories'', repositoryId] registry;
           mapping = new_mapping repositoryId realpath (rp_repositories (registryPaths (working_dir env) hostRoot))
             (ownership_pointer (working_dir env) realpath) herdr existing t in
       ret (put_mapping repositoryId mapping registry, Obj [
         (''created'', JBool (\<not> truthy existing)), (''repository_id'', Str repositoryId), (''ownership'', pointer)])))"

text \<open>A failed update of the registry takes back a pointer that this call created.\<close>

definition undo_pointer :: "string \<Rightarrow> jv \<Rightarrow> err \<Rightarrow> 'a wio" where
  "undo_pointer path existingPointer e =
     bind_io (existsSync path) (\<lambda>there.
     bind_io (if \<not> truthy existingPointer \<and> there then unlinkSync path else ret ()) (\<lambda>_.
     throw e))"

definition session_binding_or :: "string \<Rightarrow> jv \<Rightarrow> jv wio" where
  "session_binding_or realpath sessionBinding =
     (if \<not> nullish sessionBinding then ret sessionBinding
      else
        bind_io (existsSync (session_binding_file realpath)) (\<lambda>there.
        if there then readJson (session_binding_file realpath) else ret Null))"

definition register_owned :: "registry_env \<Rightarrow> string \<Rightarrow> string \<Rightarrow> string \<Rightarrow> jv \<Rightarrow> jv wio" where
  "register_owned env hostRoot realpath repositoryId sessionBinding =
     (let host = registryPaths (working_dir env) hostRoot; path = ownership_pointer (working_dir env) realpath in
     bind_io (readHostOwnershipPointer env realpath) (\<lambda>existingPointer.
     guard_io (truthy existingPointer \<and> jget ''opsled_root'' existingPointer \<noteq> Str (rp_root host))
       (classifiedError ''OWNERSHIP_CONFLICT''
         (''repository is already owned by opsled '' @ js_string (jget ''opsled_root'' existingPointer))) (
     bind_io (ensureDurableCompatibility no_hook (schema_manifest env) realpath) (\<lambda>_.
     bind_io (session_binding_or realpath sessionBinding) (\<lambda>binding.
     let herdr = (if truthy binding then herdrFromBinding binding realpath else Null) in
     guard_io (\<not> truthy herdr)
       (classifiedError ''CORRUPT'' ''registration requires a current repository Herdr/Codex binding'') (
     bind_io now (\<lambda>t.
     let pointer = ownership_record repositoryId realpath (rp_root host) (rp_registry host) herdr
           (coalesce (jget ''registered_at'' existingPointer) (Str t)) (Str t) in
     bind_io (checked_pointer env pointer realpath) (\<lambda>_.
     bind_io (writeJson path pointer) (\<lambda>_.
     try_io (updateRegistry env hostRoot (register_mapping env hostRoot repositoryId realpath herdr pointer))
       (undo_pointer path existingPointer))))))))))"

definition registerRepository :: "registry_env \<Rightarrow> string \<Rightarrow> string \<Rightarrow> jv \<Rightarrow> jv wio" where
  "registerRepository env hostRoot repositoryPath sessionBinding =
     bind_io (realpathSync env (resolve_path (working_dir env) repositoryPath)) (\<lambda>realpath.
     bind_io (existsSync (realpath @ ''/.opsle/supervisor.json'')) (\<lambda>there.
     guard_io (\<not> there) (Err (''repository is not initialized for Opsle: '' @ realpath)) (
     bind_io (with_digest (\<lambda>sha. Inr (repositoryOperationalId sha realpath))) (\<lambda>repositoryId.
     with_lock env (ownership_lock (working_dir env) realpath)
       (register_owned env hostRoot realpath repositoryId sessionBinding)))))"

definition realpath_or :: "registry_env \<Rightarrow> string \<Rightarrow> string" where
  "realpath_or env repositoryPath =
     (let candidate = resolve_path (working_dir env) repositoryPath in
     case realpath_of env candidate of None \<Rightarrow> candidate | Some r \<Rightarrow> r)"

definition remove_mapping :: "string \<Rightarrow> jv \<Rightarrow> (jv \<times> jv) wio" where
  "remove_mapping realpath registry =
     (let repositories = members_of (jget ''repositories'' registry);
          matches = filter (\<lambda>km. jget ''repository_realpath'' (snd km) = Str realpath) repositories in
     guard_io (1 < length matches)
       (classifiedError ''CORRUPT'' (''duplicate repository mappings prevent safe removal: '' @ realpath)) (
     case matches of
       [] \<Rightarrow> ret (registry, Obj [(''removed'', JBool False), (''repository_id'', Null)])
     | (repositoryId, _) # _ \<Rightarrow> ret
         (jset ''repositories'' (Obj (filter (\<lambda>km. fst km \<noteq> repositoryId) repositories)) registry,
          Obj [(''removed'', JBool True), (''repository_id'', Str repositoryId)])))"

definition unregisterRepository :: "registry_env \<Rightarrow> string \<Rightarrow> string \<Rightarrow> jv wio" where
  "unregisterRepository env hostRoot repositoryPath =
     (let realpath = realpath_or env repositoryPath; path = ownership_pointer (working_dir env) realpath in
     with_lock env (ownership_lock (working_dir env) realpath) (
       bind_io (readHostOwnershipPointer env realpath) (\<lambda>pointer.
       guard_io (truthy pointer \<and> jget ''opsled_root'' pointer \<noteq> Str (rp_root (registryPaths (working_dir env) hostRoot)))
         (classifiedError ''OWNERSHIP_CONFLICT''
           (''repository is owned by another opsled: '' @ js_string (jget ''opsled_root'' pointer))) (
       bind_io (updateRegistry env hostRoot (remove_mapping realpath)) (\<lambda>result.
       bind_io (existsSync path) (\<lambda>there.
       bind_io (if truthy pointer \<and> there then unlinkSync path else ret ()) (\<lambda>_.
       ret result)))))))"

definition refresh_mapping :: "string \<Rightarrow> jv \<Rightarrow> jv \<Rightarrow> string \<Rightarrow> jv \<Rightarrow> (jv \<times> jv) wio" where
  "refresh_mapping repositoryId mapping herdr t registry =
     (let current = jpath [''repositories'', repositoryId] registry in
     guard_io (\<not> truthy current
         \<or> \<not> strict_eq (jget ''repository_realpath'' current) (jget ''repository_realpath'' mapping))
       (classifiedError ''OWNERSHIP_CONFLICT'' ''repository registry changed during session refresh'')
     (ret (put_mapping repositoryId (jsets [(''herdr'', herdr), (''updated_at'', Str t)] current) registry, Null)))"

definition refresh_owned :: "registry_env \<Rightarrow> string \<Rightarrow> string \<Rightarrow> jv \<Rightarrow> jv \<Rightarrow> jv wio" where
  "refresh_owned env hostRoot repositoryId mapping herdr =
     (let realpath = str_of (jget ''repository_realpath'' mapping) in
     bind_io (readHostOwnershipPointer env realpath) (\<lambda>pointer.
     guard_io (\<not> truthy pointer
         \<or> jget ''opsled_root'' pointer \<noteq> Str (rp_root (registryPaths (working_dir env) hostRoot)))
       (classifiedError ''OWNERSHIP_CONFLICT'' ''repository host ownership changed during session refresh'') (
     bind_io now (\<lambda>t.
     bind_io (if canonicalJson (jget ''herdr'' mapping) \<noteq> canonicalJson herdr
       then bind_io (updateRegistry env hostRoot (refresh_mapping repositoryId mapping herdr t)) (\<lambda>updated.
         ret (jpath [''registry'', ''repositories'', repositoryId] updated))
       else ret mapping) (\<lambda>nextMapping.
     bind_io (if canonicalJson (jget ''herdr'' pointer) \<noteq> canonicalJson herdr
       then (let nextPointer = jsets [(''herdr'', herdr), (''updated_at'', Str t)] pointer in
         bind_io (checked_pointer env nextPointer realpath) (\<lambda>_.
         writeJson (ownership_pointer (working_dir env) realpath) nextPointer))
       else ret ()) (\<lambda>_.
     ret nextMapping))))))"

definition updateRepositoryHerdrBinding :: "registry_env \<Rightarrow> string \<Rightarrow> string \<Rightarrow> jv \<Rightarrow> jv wio" where
  "updateRepositoryHerdrBinding env hostRoot repositoryId binding =
     bind_io (readRegistry env False hostRoot) (\<lambda>registry.
     let mapping = jpath [''repositories'', repositoryId] registry in
     guard_io (\<not> truthy mapping) (Err (''repository is not registered with opsled: '' @ repositoryId)) (
     guard_io (nullish binding) TypeErr (
     let realpath = str_of (jget ''repository_realpath'' mapping); herdr = herdrFromBinding binding realpath in
     guard_io (\<not> truthy herdr)
       (classifiedError ''CORRUPT'' ''current session cannot update the registered Herdr pointer'') (
     with_lock env (ownership_lock (working_dir env) realpath) (refresh_owned env hostRoot repositoryId mapping herdr)))))"

definition resolveRepositoryMapping :: "registry_env \<Rightarrow> string \<Rightarrow> string \<Rightarrow> jv wio" where
  "resolveRepositoryMapping env hostRoot repositoryPathOrId =
     bind_io (readRegistry env False hostRoot) (\<lambda>registry.
     let direct = jpath [''repositories'', repositoryPathOrId] registry; realpath = realpath_or env repositoryPathOrId;
         matches = filter (\<lambda>m. jget ''repository_realpath'' m = Str realpath)
           (map snd (members_of (jget ''repositories'' registry))) in
     if truthy direct then ret direct
     else
       guard_io (matches = []) (Err (''repository is not registered with opsled: '' @ realpath)) (
       guard_io (length matches \<noteq> 1) (Err (''repository registry mapping is ambiguous: '' @ realpath)) (
       ret (hd matches))))"

section \<open>Files a lock leaves alone\<close>

lemma under_below: "under (d @ CHR ''/'' # s) p \<Longrightarrow> under d p"
proof -
  assume "under (d @ CHR ''/'' # s) p"
  then obtain r where "p = (d @ ''/'') @ r"
    by (auto simp: under_def starts_with_def) (metis append_Cons append_assoc append_take_drop_id)
  then show "under d p" by (auto simp: under_def simp del: append_assoc)
qed

lemma not_owner_file: "\<not> under d p \<Longrightarrow> p \<noteq> owner_file d"
  by (auto simp: owner_file_def under_def starts_with_def)

lemma keeps_rmTree [keeping]: "\<not> under d p \<Longrightarrow> keeps p (rmTree d)"
  by (simp add: keeps_def)

lemma keeps_lock_reads [keeping]: "keeps p (readOwner d)" "keeps p (readdirNames d)"
  by (simp_all add: keeps_def readOwner_def readdirNames_def)

lemma keeps_install [keeping]: "\<not> under d p \<Longrightarrow> keeps p (install_lock d owner)"
  by (simp add: keeps_def install_lock_def not_owner_file)

lemma keeps_live_candidates [keeping]: "\<not> under d p \<Longrightarrow> keeps p (live_candidates identity d names)"
proof (induction names)
  case (Cons name names)
  then have "\<not> under (d @ ''/'' @ name) p" using under_below [of d name p] by auto
  with Cons show ?case unfolding live_candidates.simps Let_def by (intro keeping) simp_all
qed (unfold live_candidates.simps, intro keeping)

lemma keeps_retire [keeping]:
  assumes "\<not> under d p"
  shows "keeps p (retireStaleLock identity d text me)"
proof -
  have t: "\<not> under (d @ ''/.takeovers'') p" using assms under_below [of d "''.takeovers''" p] by auto
  have c: "\<not> under ((d @ ''/.takeovers'') @ ''/'' @ takeoverName me) p"
    using t under_below [of "d @ ''/.takeovers''" "takeoverName me" p] by auto
  show ?thesis unfolding retireStaleLock_def Let_def still_owned_def
    using assms t c not_owner_file [OF c] by (intro keeping) simp_all
qed

lemma keeps_attempts [keeping]: "\<not> under d p \<Longrightarrow> keeps p (lock_attempts n identity d me owner)"
proof (induction n)
  case (Suc n)
  then show ?case unfolding lock_attempts.simps by (intro keeping) simp_all
qed (unfold lock_attempts.simps, intro keeping)

lemma keeps_acquire [keeping]: "\<not> under d p \<Longrightarrow> keeps p (acquireHostLock n identity d pid)"
  unfolding acquireHostLock_def Let_def by (intro keeping) simp

lemma keeps_release [keeping]: "\<not> under d p \<Longrightarrow> keeps p (releaseHostLock released d owner)"
  unfolding releaseHostLock_def by (intro keeping) simp

lemma keeps_finally [keeping]: "keeps p m \<Longrightarrow> keeps p r \<Longrightarrow> keeps p (finally_io m r)"
  by (auto simp: keeps_def finally_io_def split: prod.splits sum.splits) (metis snd_conv)+

lemma keeps_with_lock [keeping]: "\<not> under d p \<Longrightarrow> keeps p m \<Longrightarrow> keeps p (with_lock env d m)"
  unfolding with_lock_def by (intro keeping)

lemma bytes_at_unlinked [simp]:
  "bytes_at (w\<lparr>files := filter (\<lambda>pb. fst pb \<noteq> q) (files w)\<rparr>) p = (if p = q then None else bytes_at w p)"
proof -
  have "map_of (filter (\<lambda>pb. fst pb \<noteq> q) fs) p = (if p = q then None else map_of fs p)" for fs :: "(string \<times> string) list"
    by (induction fs) auto
  then show ?thesis by (simp add: bytes_at_def)
qed

lemma keeps_registry_steps [keeping]:
  "keeps p (with_digest f)" "p \<noteq> q \<Longrightarrow> keeps p (unlinkSync q)" "p \<noteq> q \<Longrightarrow> keeps p (durableReplace q b)"
  "keeps p (ensureSafeHostRoot env hostRoot)"
  subgoal by (simp add: keeps_def with_digest_def)
  subgoal by (auto simp: keeps_def unlinkSync_def)
  subgoal unfolding durableReplace_def by (intro keeping)
  subgoal unfolding ensureSafeHostRoot_def Let_def by (intro keeping)
  done

section \<open>A registry that validates\<close>

definition realpaths_of :: "(string \<times> jv) list \<Rightarrow> jv list" where
  "realpaths_of kvs = map (\<lambda>km. jget ''repository_realpath'' (snd km)) kvs"

definition workspaces_of :: "(string \<times> jv) list \<Rightarrow> jv list" where
  "workspaces_of kvs = map (\<lambda>km. jpath [''herdr'', ''workspace_id''] (snd km)) (filter (\<lambda>km. truthy (jget ''herdr'' (snd km))) kvs)"

lemma mapping_okD:
  assumes "validateRepositoryMapping sha mapping key = Inr ()"
  shows "is_str (jget ''repository_realpath'' mapping)"
    "key = Str k \<Longrightarrow> k = repositoryOperationalId sha (str_of (jget ''repository_realpath'' mapping))"
    "truthy (jget ''herdr'' mapping) \<Longrightarrow> is_str (jpath [''herdr'', ''workspace_id''] mapping)"
proof -
  from assms have m: "mapping_ok sha mapping key"
    by (auto simp: validateRepositoryMapping_def bind_err_def guard_err_def split: sum.splits if_splits)
  then show "is_str (jget ''repository_realpath'' mapping)" by (simp add: mapping_ok_def is_absolute_def)
  from m show "key = Str k \<Longrightarrow> k = repositoryOperationalId sha (str_of (jget ''repository_realpath'' mapping))"
    by (auto simp: mapping_ok_def)
  from m have "validateHerdrPointer True (jget ''herdr'' mapping)" by (simp add: mapping_ok_def)
  then show "truthy (jget ''herdr'' mapping) \<Longrightarrow> is_str (jpath [''herdr'', ''workspace_id''] mapping)"
    by (auto simp: validateHerdrPointer_def)
qed

lemma not_included: "\<not> jincludes xs v \<Longrightarrow> is_str v \<Longrightarrow> v \<notin> set xs"
  by (cases v) (auto simp: jincludes_def list_ex_iff)

lemma validate_mappings_ok:
  "validate_mappings sha rs ws kvs = Inr () \<Longrightarrow>
     list_all (\<lambda>km. fst km = repositoryOperationalId sha (str_of (jget ''repository_realpath'' (snd km)))) kvs
     \<and> distinct (realpaths_of kvs) \<and> distinct (workspaces_of kvs)
     \<and> set (realpaths_of kvs) \<inter> set rs = {} \<and> set (workspaces_of kvs) \<inter> set ws = {}"
proof (induction sha rs ws kvs rule: validate_mappings.induct)
  case (2 sha rs ws key mapping kvs)
  let ?r = "jget ''repository_realpath'' mapping" and ?h = "jget ''herdr'' mapping"
  let ?ws = "if truthy ?h then jget ''workspace_id'' ?h # ws else ws"
  from "2.prems" have v: "validateRepositoryMapping sha mapping (Str key) = Inr ()"
    and r: "\<not> jincludes rs ?r" and h: "truthy ?h \<Longrightarrow> \<not> jincludes ws (jget ''workspace_id'' ?h)"
    and rest: "validate_mappings sha (?r # rs) ?ws kvs = Inr ()"
    by (auto simp: bind_err_def guard_err_def Let_def split: sum.splits if_splits)
  have "?r \<notin> set rs" by (rule not_included [OF r mapping_okD(1) [OF v]])
  moreover have "truthy ?h \<Longrightarrow> jget ''workspace_id'' ?h \<notin> set ws"
    using not_included [OF h] mapping_okD(3) [OF v] by simp
  moreover have "key = repositoryOperationalId sha (str_of ?r)" by (rule mapping_okD(2) [OF v]) simp
  moreover note "2.IH" [OF refl refl refl rest]
  ultimately show ?case by (auto simp: realpaths_of_def workspaces_of_def split: if_splits)
qed (simp add: realpaths_of_def workspaces_of_def)

lemma validateRegistryD:
  assumes "validateRegistry sha registry = Inr ()"
  shows "validate_mappings sha [] [] (members_of (jget ''repositories'' registry)) = Inr ()" "registry_shape registry"
  using assms by (auto simp: validateRegistry_def bind_err_def guard_err_def split: sum.splits if_splits)

lemma empty_registry_valid: "validateRegistry sha emptyRegistry = Inr ()"
  by (simp add: validateRegistry_def emptyRegistry_def) code_simp

section \<open>An update is atomic\<close>

lemma registry_outside_lock: "\<not> under (rp_registryLock (registryPaths cwd h)) (rp_registry (registryPaths cwd h))"
  by (simp add: registryPaths_def Let_def under_def starts_with_def)

lemma release_returns: "\<exists>b. fst (releaseHostLock False d owner w) = Inr b"
  by (auto simp: releaseHostLock_def bind_io_def readOwner_def rmTree_def split: option.splits)

lemma with_lock_cases:
  assumes "\<not> under d p" "with_lock env d m w = (r, w')"
  obtains (refused) e where "r = Inl e" "bytes_at w' p = bytes_at w p"
  | (ran) w1 w2 where "bytes_at w1 p = bytes_at w p" "m w1 = (r, w2)" "bytes_at w' p = bytes_at w2 p"
proof -
  let ?a = "acquireHostLock 40 (identity_of env) d (self_pid env)"
  obtain ro w1 where a: "?a w = (ro, w1)" by fastforce
  have b1: "bytes_at w1 p = bytes_at w p" by (rule keepsD [OF keeps_acquire [OF assms(1)] a])
  show thesis
  proof (cases ro)
    case (Inl e)
    then show thesis using assms(2) a b1 by (intro refused [of e]) (auto simp: with_lock_def bind_io_def)
  next
    case (Inr owner)
    obtain x w2 where m: "m w1 = (x, w2)" by fastforce
    obtain b w3 where q: "releaseHostLock False d owner w2 = (Inr b, w3)"
      using release_returns [of d owner w2] by (metis surjective_pairing)
    have "bytes_at w3 p = bytes_at w2 p" by (rule keepsD [OF keeps_release [OF assms(1)] q])
    then show thesis using assms(2) a b1 m q Inr by (intro ran [of w1 w2]) (auto simp: with_lock_def bind_io_def finally_io_def)
  qed
qed

lemma keeps_migrate [keeping]: "keeps p (current_registry env parsed)"
  unfolding current_registry_def migrateRegistryV1_def migrate_mapping_def herdrFromSessionBinding_def Let_def
  by (intro keeping)

lemma commit_registry_result:
  assumes "commit_registry path b before mutated result w = (r, w')"
  shows "case r of Inl e \<Rightarrow> bytes_at w' path = bytes_at w path
    | Inr out \<Rightarrow> bytes_at w' path = Some (canonicalJson (jget ''registry'' out))
        \<and> validateRegistry (digest w') (jget ''registry'' out) = Inr ()
        \<and> jget ''revision'' (jget ''registry'' out) = Num (int_of (jget ''revision'' before) + 1)"
proof -
  let ?next = "\<lambda>t. jset ''updated_at'' (Str t) (jset ''revision'' (Num (int_of (jget ''revision'' before) + 1)) mutated)"
  have "post (commit_registry path b before mutated result) w (\<lambda>r w'. case r of Inl e \<Rightarrow> bytes_at w' path = bytes_at w path
    | Inr out \<Rightarrow> bytes_at w' path = Some (canonicalJson (jget ''registry'' out))
        \<and> validateRegistry (digest w') (jget ''registry'' out) = Inr ()
        \<and> jget ''revision'' (jget ''registry'' out) = Num (int_of (jget ''revision'' before) + 1))"
    unfolding commit_registry_def Let_def with_digest_def durableReplace_def
    by (auto simp: post_def bind_io_def atomicWrite_def split: option.splits sum.splits)
  then show ?thesis using postD assms by fastforce
qed

definition registry_file :: "registry_env \<Rightarrow> string \<Rightarrow> string" where
  "registry_file env hostRoot = rp_registry (registryPaths (working_dir env) hostRoot)"

definition revision_at :: "string \<Rightarrow> world \<Rightarrow> int" where
  "revision_at p w = (case bytes_at w p of None \<Rightarrow> 0 | Some b \<Rightarrow>
     (case jparse b of None \<Rightarrow> 0 | Some v \<Rightarrow> int_of (jget ''revision'' v)))"

text \<open>No repository and no Herdr workspace is registered twice.\<close>

definition exclusive :: "jv \<Rightarrow> bool" where
  "exclusive registry \<longleftrightarrow> distinct (realpaths_of (members_of (jget ''repositories'' registry)))
     \<and> distinct (workspaces_of (members_of (jget ''repositories'' registry)))"

lemma valid_exclusive: "validateRegistry sha registry = Inr () \<Longrightarrow> exclusive registry"
  using validate_mappings_ok [OF validateRegistryD(1)] by (simp add: exclusive_def)

lemma schema_is_obj: "jget ''schema'' v = Str s \<Longrightarrow> is_obj v"
  by (cases v) auto

lemma parseRegistry_Inr:
  assumes "parseRegistry sha True p b = Inr v"
  shows "jparse b = Some v" "is_obj v"
  using assms validateRegistryD(2) [of sha v]
  by (auto simp: parseRegistry_def bind_err_eq_Inr guard_err_eq_Inr registry_shape_def jdot_def split: option.splits if_splits
      intro: schema_is_obj)

lemma current_registry_revision:
  assumes "current_registry env parsed w = (Inr before, w')" "is_obj parsed"
  shows "jget ''revision'' before = jget ''revision'' parsed"
  using assms unfolding current_registry_def migrateRegistryV1_def
  by (auto simp: Let_def with_digest_def split: if_splits elim!: bind_io_InrE)

lemma keeps_then:
  assumes "keeps p m" "\<And>e w'. bytes_at w' p = bytes_at w p \<Longrightarrow> Q (Inl e) w'"
    and "\<And>x w1. m w = (Inr x, w1) \<Longrightarrow> bytes_at w1 p = bytes_at w p \<Longrightarrow> post (f x) w1 Q"
  shows "post (bind_io m f) w Q"
proof -
  obtain r w1 where m: "m w = (r, w1)" by fastforce
  note b = keepsD [OF assms(1) m]
  show ?thesis using assms(2) [OF b] assms(3) [OF _ b] m by (cases r) (simp_all add: post_def bind_io_def)
qed

definition updated_at :: "string \<Rightarrow> string option \<Rightarrow> int \<Rightarrow> err + jv \<Rightarrow> world \<Rightarrow> bool" where
  "updated_at p old n r w' = (case r of
       Inl e \<Rightarrow> bytes_at w' p = old
     | Inr out \<Rightarrow> bytes_at w' p = Some (canonicalJson (jget ''registry'' out))
         \<and> jget ''revision'' (jget ''registry'' out) = Num n \<and> exclusive (jget ''registry'' out))"

lemma updated_at_Inl [simp]: "updated_at p old n (Inl e) w' \<longleftrightarrow> bytes_at w' p = old"
  by (simp add: updated_at_def)

lemma readOptionalBytes_run: "readOptionalBytes p w = (Inr (bytes_at w p), w)"
  by (auto simp: readOptionalBytes_def bind_io_def readFile_def split: option.splits)

lemma update_locked_result:
  assumes "\<And>b. keeps p (mutate b)"
  shows "post (update_locked env p mutate) w (updated_at p (bytes_at w p) (revision_at p w + 1))"
  unfolding update_locked_def
proof (rule keeps_then [where p = p])
  show "keeps p (readOptionalBytes p)" unfolding readOptionalBytes_def by (intro keeping)
  fix bytes w1
  assume o1: "readOptionalBytes p w = (Inr bytes, w1)"
  then have b: "bytes = bytes_at w p" "w1 = w" by (auto simp: readOptionalBytes_run)
  let ?Q = "updated_at p (bytes_at w p) (revision_at p w + 1)"
  let ?parse = "case bytes of None \<Rightarrow> ret emptyRegistry | Some c \<Rightarrow> with_digest (\<lambda>sha. parseRegistry sha True p c)"
  show "post (bind_io ?parse (\<lambda>parsed. bind_io (current_registry env parsed) (\<lambda>before. bind_io (mutate before)
      (\<lambda>mutated. commit_registry p bytes before (fst mutated) (snd mutated))))) w1 ?Q"
  proof (rule keeps_then [where p = p])
    show "keeps p ?parse" by (intro keeping)
    fix parsed w2
    assume o2: "?parse w1 = (Inr parsed, w2)" and b2: "bytes_at w2 p = bytes_at w1 p"
    from o2 have parsed: "is_obj parsed" "int_of (jget ''revision'' parsed) = revision_at p w"
      unfolding b revision_at_def
      by (auto simp: with_digest_def emptyRegistry_def dest: parseRegistry_Inr split: option.splits)
    show "post (bind_io (current_registry env parsed) (\<lambda>before. bind_io (mutate before)
        (\<lambda>mutated. commit_registry p bytes before (fst mutated) (snd mutated)))) w2 ?Q"
    proof (rule keeps_then [where p = p])
      fix before w3
      assume o3: "current_registry env parsed w2 = (Inr before, w3)" and b3: "bytes_at w3 p = bytes_at w2 p"
      show "post (bind_io (mutate before) (\<lambda>mutated. commit_registry p bytes before (fst mutated) (snd mutated))) w3 ?Q"
      proof (rule keeps_then [where p = p])
        fix mutated w4
        assume b4: "bytes_at w4 p = bytes_at w3 p"
        show "post (commit_registry p bytes before (fst mutated) (snd mutated)) w4 ?Q"
        proof (rule postI)
          fix r w'
          assume c: "commit_registry p bytes before (fst mutated) (snd mutated) w4 = (r, w')"
          show "?Q r w'" using commit_registry_result [OF c] b b2 b3 b4 current_registry_revision [OF o3 parsed(1)] parsed(2)
            by (auto simp: updated_at_def valid_exclusive split: sum.splits)
        qed
      qed (use b b2 b3 assms in \<open>simp_all\<close>)
    qed (use b b2 in \<open>simp_all add: keeps_migrate\<close>)
  qed (use b in simp_all)
qed simp

lemma ensureSafe_returns: "ensureSafeHostRoot env h w = (Inr ps, w1) \<Longrightarrow> ps = registryPaths (working_dir env) h"
  by (auto simp: ensureSafeHostRoot_def Let_def guard_io_eq_Inr elim!: bind_io_InrE)

text \<open>C23: an update of the registry replaces it as a whole or leaves it: when \<open>updateRegistry\<close> throws, whatever the
  reason (the lock, a corrupt registry, the mutation, the validation), the file is unchanged; when it returns, the
  file is the canonical JSON of the registry it returns, one revision after the one it read, and in it no repository
  and no Herdr workspace is registered twice.\<close>

theorem registry_update_is_atomic:
  assumes "\<And>registry. keeps (registry_file env hostRoot) (mutate registry)"
  shows "post (updateRegistry env hostRoot mutate) w (\<lambda>r w'. case r of
       Inl e \<Rightarrow> bytes_at w' (registry_file env hostRoot) = bytes_at w (registry_file env hostRoot)
     | Inr out \<Rightarrow> bytes_at w' (registry_file env hostRoot) = Some (canonicalJson (jget ''registry'' out))
         \<and> jget ''revision'' (jget ''registry'' out) = Num (revision_at (registry_file env hostRoot) w + 1)
         \<and> exclusive (jget ''registry'' out))"
proof -
  let ?p = "registry_file env hostRoot"
  let ?Q = "updated_at ?p (bytes_at w ?p) (revision_at ?p w + 1)"
  have "post (updateRegistry env hostRoot mutate) w ?Q"
    unfolding updateRegistry_def
  proof (rule keeps_then [where p = ?p])
    fix ps w1
    assume e: "ensureSafeHostRoot env hostRoot w = (Inr ps, w1)" and b1: "bytes_at w1 ?p = bytes_at w ?p"
    note ps = ensureSafe_returns [OF e]
    have lock: "\<not> under (rp_registryLock ps) ?p" unfolding ps registry_file_def by (rule registry_outside_lock)
    show "post (with_lock env (rp_registryLock ps) (update_locked env (rp_registry ps) mutate)) w1 ?Q"
    proof (rule postI)
      fix r w'
      assume "with_lock env (rp_registryLock ps) (update_locked env (rp_registry ps) mutate) w1 = (r, w')"
      then show "?Q r w'"
      proof (cases rule: with_lock_cases [OF lock, consumes 1, case_names refused ran])
        case (ran w2 w3)
        have "update_locked env ?p mutate w2 = (r, w3)" using ran(2) by (simp add: ps registry_file_def)
        then have "updated_at ?p (bytes_at w2 ?p) (revision_at ?p w2 + 1) r w3"
          by (rule postD [OF update_locked_result [OF assms]])
        with ran(1,3) b1 show ?thesis by (simp add: updated_at_def revision_at_def split: sum.splits)
      qed (use b1 in simp)
    qed
  qed (auto intro: keeping)
  then show ?thesis by (rule post_weaken) (auto simp: updated_at_def split: sum.splits)
qed

text \<open>A registry that validates keys every mapping by the digest of its repository's real path, and registers no
  repository and no Herdr workspace twice.\<close>

theorem valid_registry_is_injective:
  assumes "validateRegistry sha registry = Inr ()"
  shows "list_all (\<lambda>(key, mapping). key = repositoryOperationalId sha (str_of (jget ''repository_realpath'' mapping)))
        (members_of (jget ''repositories'' registry))
    \<and> distinct (map (\<lambda>(key, mapping). jget ''repository_realpath'' mapping) (members_of (jget ''repositories'' registry)))
    \<and> distinct (map (\<lambda>(key, mapping). jpath [''herdr'', ''workspace_id''] mapping)
        (filter (\<lambda>(key, mapping). truthy (jget ''herdr'' mapping)) (members_of (jget ''repositories'' registry))))"
  using validate_mappings_ok [OF validateRegistryD(1) [OF assms]]
  by (simp add: realpaths_of_def workspaces_of_def case_prod_unfold)

section \<open>A failed registration\<close>

lemma keeps_durable_json [keeping]: "keeps p (readDurableJson q)"
  unfolding readDurableJson_def by (intro keeping)

lemma keeps_check_core [keeping]: "keeps p (check_core ps)"
  by (induction ps) (unfold check_core.simps, (intro keeping | assumption)+)

lemma keeps_compatibility [keeping]:
  "p \<noteq> compatibilityPath root \<Longrightarrow> keeps p (ensureDurableCompatibility no_hook manifest root)"
  unfolding ensureDurableCompatibility_def write_header_def migrateToCurrent_def validateCoreState_def Let_def no_hook_def
    durableSchemaManifest_def
  by (intro keeping)

lemma keeps_commit_registry [keeping]: "p \<noteq> q \<Longrightarrow> keeps p (commit_registry q b before mutated result)"
  unfolding commit_registry_def Let_def by (intro keeping)

lemma keeps_update [keeping]:
  assumes "p \<noteq> registry_file env hostRoot" "\<not> under (rp_registryLock (registryPaths (working_dir env) hostRoot)) p"
    and "\<And>b. keeps p (mutate b)"
  shows "keeps p (updateRegistry env hostRoot mutate)"
proof -
  have "post (updateRegistry env hostRoot mutate) w (\<lambda>r w'. bytes_at w' p = bytes_at w p)" for w
    unfolding updateRegistry_def
  proof (rule keeps_then [where p = p])
    fix ps w1
    assume e: "ensureSafeHostRoot env hostRoot w = (Inr ps, w1)" and b1: "bytes_at w1 p = bytes_at w p"
    have "keeps p (with_lock env (rp_registryLock ps) (update_locked env (rp_registry ps) mutate))"
      unfolding update_locked_def readOptionalBytes_def using assms
      by (intro keeping) (simp_all add: ensureSafe_returns [OF e] registry_file_def)
    then show "post (with_lock env (rp_registryLock ps) (update_locked env (rp_registry ps) mutate)) w1
        (\<lambda>r w'. bytes_at w' p = bytes_at w p)" using b1 by (auto intro: post_weaken [OF post_keeps])
  qed (auto intro: keeping)
  then show ?thesis by (simp add: keeps_def post_def)
qed

lemma keeps_register_mapping [keeping]: "keeps p (register_mapping env hostRoot repositoryId realpath herdr pointer b)"
  unfolding register_mapping_def Let_def by (intro keeping)

lemma undo_removes:
  "undo_pointer path Null e w = (r, w') \<Longrightarrow> isl r \<and> bytes_at w' path = None"
  by (auto simp: undo_pointer_def bind_io_def unlinkSync_def split: if_splits)

lemma no_pointer_read:
  "bytes_at w (ownership_pointer (working_dir env) root) = None \<Longrightarrow> readHostOwnershipPointer env root w = (Inr Null, w)"
  by (simp add: readHostOwnershipPointer_def Let_def bind_io_def)

lemma pointer_outside_lock: "\<not> under (ownership_lock cwd root) (ownership_pointer cwd root)"
  by (simp add: ownership_lock_def ownership_pointer_def under_def starts_with_def)

text \<open>Absent stays absent through a step that keeps the file, and when it throws.\<close>

definition unless_kept :: "string \<Rightarrow> err + 'a \<Rightarrow> world \<Rightarrow> bool" where
  "unless_kept p r w' \<longleftrightarrow> (isl r \<longrightarrow> bytes_at w' p = None)"

lemma absent_then:
  assumes "bytes_at w p = None" "keeps p m" "\<And>x w1. bytes_at w1 p = None \<Longrightarrow> post (f x) w1 (unless_kept p)"
  shows "post (bind_io m f) w (unless_kept p)"
  by (rule keeps_then [OF assms(2)]) (use assms in \<open>simp_all add: unless_kept_def\<close>)

lemma absent_guard:
  "bytes_at w p = None \<Longrightarrow> post m w (unless_kept p) \<Longrightarrow> post (guard_io c e m) w (unless_kept p)"
  by (simp add: guard_io_def post_def unless_kept_def)

lemma write_or_undo: "post (bind_io (writeJson p v) (\<lambda>_. try_io m (undo_pointer p Null))) w (unless_kept p)"
  by (rule postI) (auto simp: bind_io_def try_io_def unless_kept_def writeJson_def atomicWrite_def
      dest: undo_removes split: prod.splits sum.splits)

text \<open>The part of a registration under the ownership lock, when there was no pointer.\<close>

lemma register_owned_undone:
  assumes "bytes_at w p = None" "p = ownership_pointer (working_dir env) realpath" "p \<noteq> compatibilityPath realpath"
  shows "post (register_owned env hostRoot realpath repositoryId binding) w (unless_kept p)"
proof -
  have "readHostOwnershipPointer env realpath w = (Inr Null, w)"
    using assms(1,2) by (simp add: no_pointer_read)
  then have head: "post (bind_io (readHostOwnershipPointer env realpath) f) w Q \<longleftrightarrow> post (f Null) w Q" for f and Q :: "err + jv \<Rightarrow> world \<Rightarrow> bool"
    by (simp add: post_def bind_io_def)
  show ?thesis
    unfolding register_owned_def Let_def assms(2) [symmetric] head session_binding_or_def checked_pointer_def
    by (intro absent_guard absent_then write_or_undo keeping assms)
qed

lemma pointer_not_header: "ownership_pointer cwd root \<noteq> compatibilityPath root2"
proof
  assume "ownership_pointer cwd root = compatibilityPath root2"
  then have "rev (ownership_pointer cwd root) = rev (compatibilityPath root2)" by simp
  then show False by (simp add: ownership_pointer_def compatibilityPath_def paths_def Let_def)
qed

lemma register_locked_undone:
  assumes "bytes_at w (ownership_pointer (working_dir env) realpath) = None"
  shows "post (with_lock env (ownership_lock (working_dir env) realpath)
      (register_owned env hostRoot realpath repositoryId binding)) w (unless_kept (ownership_pointer (working_dir env) realpath))"
proof (rule postI)
  fix r w2
  assume "with_lock env (ownership_lock (working_dir env) realpath)
    (register_owned env hostRoot realpath repositoryId binding) w = (r, w2)"
  then show "unless_kept (ownership_pointer (working_dir env) realpath) r w2"
  proof (cases rule: with_lock_cases [OF pointer_outside_lock, consumes 1, case_names refused ran])
    case (ran w3 w4)
    then show ?thesis
      using postD [OF register_owned_undone [OF _ refl pointer_not_header] ran(2)] assms by (simp add: unless_kept_def)
  qed (simp add: unless_kept_def assms)
qed


definition registry_demo :: registry_env where
  "registry_demo = \<lparr>
     identity_of = (\<lambda>v. Obj [(''pid'', v), (''start_time_ticks'', Str ''100''), (''executable'', Str ''/bin/node'')]),
     self_pid = Num 41, realpath_of = Some, symlink = (\<lambda>p. False), working_dir = ''/'', schema_manifest = ''/m.json''\<rparr>"

definition registry_world :: world where
  "registry_world = \<lparr>files = [(''/r/.opsle/supervisor.json'', ''{}'')], dirs = [], clock = (\<lambda>n. ''T''), ticks = 0,
     uuids = nat_str, drawn = 0, digest = id\<rparr>"

text \<open>The update that changes nothing, on a host without a registry.\<close>

lemma demo_update:
  "\<not> isl (fst (updateRegistry registry_demo ''/h'' (\<lambda>registry. ret (registry, Null)) registry_world))"
  "revision_at ''/h/registry.json'' registry_world = 0" "registry_file registry_demo ''/h'' = ''/h/registry.json''"
  by code_simp+

lemma registry_update_is_atomic_witness:
  "\<exists>out w'. updateRegistry registry_demo ''/h'' (\<lambda>registry. ret (registry, Null)) registry_world = (Inr out, w')
     \<and> bytes_at w' ''/h/registry.json'' = Some (canonicalJson (jget ''registry'' out))
     \<and> jget ''revision'' (jget ''registry'' out) = Num 1"
proof -
  have k: "keeps (registry_file registry_demo ''/h'') (ret (registry, Null))" for registry :: jv by (intro keeping)
  obtain out w' where u: "updateRegistry registry_demo ''/h'' (\<lambda>registry. ret (registry, Null)) registry_world = (Inr out, w')"
    using demo_update(1) by (metis eq_fst_iff isl_def sum.exhaust_sel surj_pair)
  from postD [OF registry_update_is_atomic [OF k] u] u show ?thesis by (simp add: demo_update)
qed

text \<open>A registry with two repositories.\<close>

definition demo_mapping :: "string \<Rightarrow> string \<Rightarrow> jv" where
  "demo_mapping p workspace = new_mapping (repositoryOperationalId id p) p ''/h/repositories'' (ownership_pointer ''/'' p)
     (Obj [(''kind'', Str ''herdr''), (''workspace_id'', Str workspace), (''pane_id'', Str ''p''), (''terminal_id'', Str ''t''),
       (''sessions_root_realpath'', Str ''/s'')]) Undef ''T''"

definition demo_registry :: jv where
  "demo_registry = Obj [(''schema'', Str OPSLED_REGISTRY_SCHEMA), (''revision'', Num 2), (''updated_at'', Str ''T''),
     (''repositories'', Obj [(''repository-/a'', demo_mapping ''/a'' ''w1''), (''repository-/b'', demo_mapping ''/b'' ''w2'')])]"

lemma demo_registry_valid: "validateRegistry id demo_registry = Inr ()"
  by code_simp

lemma valid_registry_is_injective_witness:
  "validateRegistry id demo_registry = Inr () \<and>
     distinct (map (\<lambda>(key, mapping). jget ''repository_realpath'' mapping) (members_of (jget ''repositories'' demo_registry)))"
  using valid_registry_is_injective [OF demo_registry_valid] demo_registry_valid by blast

lemma demo_registration_fails:
  "isl (fst (registerRepository registry_demo ''/h'' ''/r'' Null registry_world))"
  "realpath_of registry_demo (resolve_path (working_dir registry_demo) ''/r'') = Some ''/r''"
  "bytes_at registry_world (ownership_pointer (working_dir registry_demo) ''/r'') = None"
  by code_simp+


end
