(* ===== verification/Resume.thy ===== *)
theory Resume imports Git State Lease begin

text \<open>
  Reconstruction (src/reconstruction.js), the first half: the readers and collectors of a resume
  packet, the wakes that need attention, the active work, the latest decision and the next action.
  The collectors are mutable objects of the code; here they are one record that the programs pass on.
\<close>

section \<open>Bounded text and paths\<close>

definition PACKET_BYTE_CEILING :: nat where
  "PACKET_BYTE_CEILING = 4000"

definition PACKET_CHARACTER_CEILING :: nat where
  "PACKET_CHARACTER_CEILING = 4000"

definition EVIDENCE_OUTPUT_BYTE_CEILING :: nat where
  "EVIDENCE_OUTPUT_BYTE_CEILING = 16384"

definition ACTIVE_CHILD_STATES :: "string list" where
  "ACTIVE_CHILD_STATES = [''QUEUED'', ''LAUNCHING'', ''RUNNING'']"

definition TERMINAL_CHILD_STATES :: "string list" where
  "TERMINAL_CHILD_STATES = [''COMPLETED'', ''FAILED'', ''STALLED'', ''CANCELLED'']"

definition TERMINAL_TASK_STATES :: "string list" where
  "TERMINAL_TASK_STATES = [''ACCEPTED'', ''REJECTED'']"

definition classification_priority :: "string \<Rightarrow> nat" where
  "classification_priority c = (if c = ''incomplete'' then 1 else if c = ''requires_escalation'' then 2
     else if c = ''contradictory'' then 3 else 0)"

fun relative_segments :: "string list \<Rightarrow> string list \<Rightarrow> string list" where
  "relative_segments (a # as) (b # bs) =
     (if a = b then relative_segments as bs else map (\<lambda>_. ''..'') (a # as) @ b # bs)"
| "relative_segments as bs = map (\<lambda>_. ''..'') as @ bs"

definition segments :: "string \<Rightarrow> string list" where
  "segments p = resolved_segments [] (split_on (CHR ''/'') p)"

text \<open>\<open>relative(root, path)\<close> of absolute paths\<close>

definition relativePath :: "string \<Rightarrow> string \<Rightarrow> string" where
  "relativePath root p = join_with ''/'' (relative_segments (segments root) (segments p))"

definition boundedText :: "(string \<Rightarrow> string) \<Rightarrow> jv \<Rightarrow> nat \<Rightarrow> jv" where
  "boundedText sha v maximum =
     (if nullish v then Null
      else let text = (if is_str v then str_of v else trim (canonicalJson v)) in
        if length text \<le> maximum then Str text
        else Str (take (maximum - 17) text @ ''...[sha256:'' @ take 8 (sha text) @ '']''))"

text \<open>UTF-8 bytes of a string of 8-bit characters\<close>

definition byte_weight :: "char \<Rightarrow> nat" where
  "byte_weight c = (if of_char c < (128 :: nat) then 1 else 2)"

definition byte_length :: "string \<Rightarrow> nat" where
  "byte_length s = sum_list (map byte_weight s)"

text \<open>A stable sort by a comparator, as \<open>Array.prototype.sort\<close>.\<close>

fun insert_cmp :: "('a \<Rightarrow> 'a \<Rightarrow> int) \<Rightarrow> 'a \<Rightarrow> 'a list \<Rightarrow> 'a list" where
  "insert_cmp cmp x [] = [x]"
| "insert_cmp cmp x (y # ys) = (if cmp x y \<le> 0 then x # y # ys else y # insert_cmp cmp x ys)"

definition sort_cmp :: "('a \<Rightarrow> 'a \<Rightarrow> int) \<Rightarrow> 'a list \<Rightarrow> 'a list" where
  "sort_cmp cmp xs = foldr (insert_cmp cmp) xs []"

section \<open>The collectors\<close>

record source =
  src_bytes :: nat
  src_sha :: string
  src_snapshot :: string
  src_path :: string

record collected =
  issue_records :: "(string \<times> string) list"
  considered :: "(string \<times> source) list"
  authoritative :: "string list"
  escalations :: "(string \<times> jv) list"

definition nothing_collected :: collected where
  "nothing_collected = \<lparr>issue_records = [], considered = [], authoritative = [], escalations = []\<rparr>"

text \<open>A program of the reconstruction: it acts on the world and on what was collected so far.\<close>

type_synonym 'a rio = "(world \<times> collected, 'a) io"

definition on_disk :: "'a wio \<Rightarrow> 'a rio" where
  "on_disk m s = (case m (fst s) of (r, w) \<Rightarrow> (r, (w, snd s)))"

definition look :: "(world \<Rightarrow> collected \<Rightarrow> 'a \<times> collected) \<Rightarrow> 'a rio" where
  "look f s = (case f (fst s) (snd s) of (x, c) \<Rightarrow> (Inr x, (fst s, c)))"

definition add_issue :: "string \<Rightarrow> string \<Rightarrow> collected \<Rightarrow> collected" where
  "add_issue code classification c =
     (let higher = (case map_of (issue_records c) code of None \<Rightarrow> True
        | Some prior \<Rightarrow> classification_priority prior < classification_priority classification) in
      if higher then c\<lparr>issue_records := AList.update code classification (issue_records c)\<rparr> else c)"

definition issue :: "string \<Rightarrow> string \<Rightarrow> unit rio" where
  "issue code classification = look (\<lambda>w c. ((), add_issue code classification c))"

definition issue_classification :: "(string \<times> string) list \<Rightarrow> string" where
  "issue_classification records = foldl (\<lambda>selected r. if classification_priority selected < classification_priority (snd r)
     then snd r else selected) ''complete_for_resume'' records"

definition issue_codes :: "(string \<times> string) list \<Rightarrow> string list" where
  "issue_codes records = (let codes = sort (map fst records) in
     if length codes \<le> 16 then codes
     else take 15 codes @ [''additional-issues:'' @ nat_str (length codes - 15)])"

definition IRRELEVANT_KEYS :: "string list" where
  "IRRELEVANT_KEYS = [''heartbeat_at'', ''updated_at'', ''changed_at'', ''created_at'', ''effective_at'', ''inspected_at'',
     ''recovered_at'', ''bound_at'', ''queued_at'', ''claimed_at'', ''delivered_at'', ''consumed_at'', ''prepared_at'',
     ''registered_at'', ''deadline_at'', ''launch_time'', ''terminal_at'', ''last_durable_event'', ''telemetry'',
     ''evidence'', ''raw_evidence'', ''raw_evidence_references'']"

fun snapshotValue :: "jv \<Rightarrow> jv" where
  "snapshotValue (Arr xs) = Arr (map snapshotValue xs)"
| "snapshotValue (Obj kvs) =
     Obj (filter (\<lambda>kv. fst kv \<notin> set IRRELEVANT_KEYS) (map (\<lambda>kv. (fst kv, snapshotValue (snd kv))) kvs))"
| "snapshotValue v = v"

definition snapshot_sha :: "(string \<Rightarrow> string) \<Rightarrow> string \<Rightarrow> string" where
  "snapshot_sha sha raw = (case jparse raw of None \<Rightarrow> sha raw | Some v \<Rightarrow> sha (canonicalJson (snapshotValue v)))"

definition source_of :: "(string \<Rightarrow> string) \<Rightarrow> string \<Rightarrow> string \<Rightarrow> string \<Rightarrow> source" where
  "source_of sha root p raw = \<lparr>src_bytes = byte_length raw, src_sha = sha raw, src_snapshot = snapshot_sha sha raw,
     src_path = relativePath root p\<rparr>"

definition consider_source :: "string \<Rightarrow> source \<Rightarrow> collected \<Rightarrow> collected" where
  "consider_source p src c = c\<lparr>considered := AList.update p src (considered c)\<rparr>"

definition reader_read :: "string \<Rightarrow> bool \<Rightarrow> string \<Rightarrow> world \<Rightarrow> collected \<Rightarrow> jv \<times> collected" where
  "reader_read root required p w c = (case bytes_at w p of
       None \<Rightarrow> (Null, if required then add_issue (''missing:'' @ relativePath root p) ''incomplete'' c else c)
     | Some raw \<Rightarrow> (case jparse raw of
         Some v \<Rightarrow> if is_obj v then (v, consider_source p (source_of (digest w) root p raw) c)
           else (Null, add_issue (''invalid-json:'' @ relativePath root p) ''contradictory'' c)
       | None \<Rightarrow> (Null, add_issue (''invalid-json:'' @ relativePath root p) ''contradictory'' c)))"

definition read_source :: "string \<Rightarrow> bool \<Rightarrow> string \<Rightarrow> jv rio" where
  "read_source root required p = look (reader_read root required p)"

definition track_source :: "string \<Rightarrow> string \<Rightarrow> unit rio" where
  "track_source root p = look (\<lambda>w c. (case bytes_at w p of
       None \<Rightarrow> ((), c)
     | Some raw \<Rightarrow> ((), consider_source p (source_of (digest w) root p raw) c)))"

text \<open>\<open>verifyUnchanged\<close>\<close>

fun changed_source :: "world \<Rightarrow> (string \<times> source) list \<Rightarrow> string option" where
  "changed_source w [] = None"
| "changed_source w ((p, src) # rest) =
     (case bytes_at w p of
       None \<Rightarrow> Some (src_path src)
     | Some raw \<Rightarrow> if snapshot_sha (digest w) raw \<noteq> src_snapshot src then Some (src_path src) else changed_source w rest)"

definition verifyUnchanged :: "unit rio" where
  "verifyUnchanged s = (case changed_source (fst s) (considered (snd s)) of
       Some p \<Rightarrow> (Inl (Err (''authoritative state changed during reconstruction: '' @ p)), s)
     | None \<Rightarrow> (Inr (), s))"

definition authorityFingerprint :: "(string \<Rightarrow> string \<Rightarrow> int) \<Rightarrow> (string \<Rightarrow> string) \<Rightarrow> collected \<Rightarrow> string" where
  "authorityFingerprint collate sha c = sha (canonicalJson (Arr (map (\<lambda>src. Obj [
       (''path'', Str (src_path src)), (''authority_sha256'', Str (src_snapshot src))])
     (sort_cmp (\<lambda>a b. collate (src_path a) (src_path b)) (map snd (considered c))))))"

section \<open>Selected evidence\<close>

definition fields_or_null :: "string list \<Rightarrow> jv \<Rightarrow> jv" where
  "fields_or_null ks v = Obj (map (\<lambda>k. (k, coalesce (jget k v) Null)) ks)"

definition identitySelector :: "jv \<Rightarrow> jv" where
  "identitySelector v = Obj (map (\<lambda>k. (k, jget k v)) (filter (\<lambda>k. jget k v \<noteq> Undef)
     [''schema'', ''task_id'', ''attempt_id'', ''claim_id'', ''state'', ''child_state'', ''fence_generation'', ''status'',
      ''owner_supervisor_id'', ''owner_generation'']))"

text \<open>\<open>v?.find((item) => item[k] === x)\<close>\<close>

definition find_by :: "string \<Rightarrow> jv \<Rightarrow> jv \<Rightarrow> err + jv" where
  "find_by k x v = (if nullish v then Inr Undef
     else bind_err (array_of v) (\<lambda>xs.
       bind_err (find_err (\<lambda>item. bind_err (jdot k item) (\<lambda>y. Inr (strict_eq y x))) xs) (\<lambda>found.
       Inr (case found of None \<Rightarrow> Undef | Some item \<Rightarrow> item))))"

definition current_revision :: "jv \<Rightarrow> err + jv" where
  "current_revision objective = find_by ''revision'' (jget ''current_revision'' objective) (jget ''history'' objective)"

definition select_objective :: "jv \<Rightarrow> err + jv" where
  "select_objective v = bind_err (current_revision v) (\<lambda>current. Inr (Obj [
     (''objective_id'', coalesce (jget ''objective_id'' v) Null),
     (''current_revision'', coalesce (jget ''current_revision'' v) Null),
     (''current'', coalesce current Null)]))"

definition select_requirements :: "jv \<Rightarrow> err + jv" where
  "select_requirements v =
     bind_err (unsatisfiedRequirements v) (\<lambda>items.
     Inr (Obj [(''unsatisfied'', Arr (map (\<lambda>item. Obj [(''id'', jget ''id'' item), (''state'', jget ''state'' item)]) items))]))"

definition selectedEvidence :: "jv \<Rightarrow> string \<Rightarrow> err + jv" where
  "selectedEvidence v selector =
     (if selector = ''identity'' then Inr (identitySelector v)
      else if selector = ''session_binding'' then Inr v
      else if selector = ''wake_request'' then guard_err (nullish v) TypeErr
        (Inr (fields_or_null [''schema'', ''event_id'', ''terminal_type'', ''target'', ''task_id'', ''attempt_id''] v))
      else if selector = ''wake_decision'' then guard_err (nullish v) TypeErr
        (Inr (fields_or_null [''schema'', ''event_id'', ''decision_id'', ''status'', ''failure''] v))
      else if selector = ''current_objective'' then guard_err (nullish v) TypeErr (select_objective v)
      else if selector = ''requirement_states'' then guard_err (nullish v) TypeErr (select_requirements v)
      else if selector = ''resume_fields'' then guard_err (nullish v) TypeErr
        (Inr (fields_or_null [''supervisor_state'', ''phase'', ''pause'', ''active_task_id'', ''active_attempt_id'',
          ''latest_unresolved_issue'', ''pending_next_action''] v))
      else if starts_with ''task-'' selector then guard_err (nullish v) TypeErr (Inr (coalesce (jget selector v) Null))
      else Inl (Err (''unsupported bounded evidence selector: '' @ selector)))"

text \<open>The digest of the selected part of a file, \<open>null\<close> when it cannot be read.\<close>

definition selected_sha :: "world \<Rightarrow> string \<Rightarrow> string \<Rightarrow> jv" where
  "selected_sha w p selector = (case bytes_at w p of
       None \<Rightarrow> Null
     | Some raw \<Rightarrow> (case jparse raw of
         None \<Rightarrow> Null
       | Some v \<Rightarrow> (case selectedEvidence v selector of
           Inl e \<Rightarrow> Null
         | Inr selected \<Rightarrow> Str (digest w (canonicalJson selected)))))"

definition note_authoritative :: "string \<Rightarrow> string \<Rightarrow> unit rio" where
  "note_authoritative root p = look (\<lambda>w c.
     ((), c\<lparr>authoritative := (if relativePath root p \<in> set (authoritative c) then authoritative c
        else authoritative c @ [relativePath root p])\<rparr>))"

definition escalate :: "string \<Rightarrow> string \<Rightarrow> string \<Rightarrow> string \<Rightarrow> unit rio" where
  "escalate root p selector reason = look (\<lambda>w c.
     (let rel = relativePath root p;
          entry = Obj [(''path'', Str rel), (''selector'', Str selector), (''reason'', Str reason), (''sha256'', selected_sha w p selector)];
          key = rel @ CHR 0x00 # selector @ CHR 0x00 # reason in
     ((), c\<lparr>escalations := AList.update key entry (escalations c)\<rparr>)))"

definition tracked_snapshot :: "collected \<Rightarrow> string \<Rightarrow> jv" where
  "tracked_snapshot c rel = (case find (\<lambda>src. src_path src = rel) (map snd (considered c)) of
       None \<Rightarrow> Null | Some src \<Rightarrow> Str (src_snapshot src))"

definition evidence_value :: "(string \<Rightarrow> string \<Rightarrow> int) \<Rightarrow> (string \<Rightarrow> string) \<Rightarrow> collected \<Rightarrow> jv" where
  "evidence_value collate sha c =
     (let entries = map (\<lambda>rel. Obj [(''path'', Str rel), (''sha256'', tracked_snapshot c rel)]) (sort (authoritative c)) in
     Obj [
       (''authoritative'', Obj [
          (''count'', Num (int (length entries))),
          (''manifest_sha256'', Str (sha (canonicalJson (Arr entries))))]),
       (''escalation'', Arr (take 8 (sort_cmp (\<lambda>a b. collate (canonicalJson a) (canonicalJson b)) (map snd (escalations c)))))])"

section \<open>Compact statuses\<close>

text \<open>\<open>[...new Set(values)].sort()\<close>\<close>

definition set_values :: "jv list \<Rightarrow> jv list" where
  "set_values xs = foldl (\<lambda>acc x. if jincludes acc x then acc else acc @ [x]) [] xs"

definition sorted_values :: "jv list \<Rightarrow> jv list" where
  "sorted_values xs = sort_key js_string xs"

definition compactSessionStatus :: "jv \<Rightarrow> err + jv" where
  "compactSessionStatus status =
     (let binding = jget ''binding'' status in
     bind_err (spread_list (coalesce (jget ''reasons'' status) (Arr []))) (\<lambda>reasons.
     Inr (Obj [
       (''classification'', coalesce (jget ''classification'' status) (Str ''unknown'')),
       (''valid'', JBool (jget ''valid'' status = JBool True)),
       (''supported'', JBool (jget ''supported'' status = JBool True)),
       (''binding_revision'', coalesce (jget ''binding_revision'' binding) (coalesce (jget ''binding_revision'' status) Null)),
       (''codex_session_uuid'', coalesce (jget ''codex_session_uuid'' binding) Null),
       (''supervisor_generation'', coalesce (jget ''supervisor_generation'' binding) Null),
       (''reasons'', Arr (sorted_values (set_values reasons)))])))"

definition compactHerdr :: "jv \<Rightarrow> jv" where
  "compactHerdr status =
     (let binding = jget ''binding'' status; host = jget ''host'' binding in
     Obj [
       (''authority'', coalesce (jget ''authority'' host) (Str ''none'')),
       (''kind'', coalesce (jget ''kind'' host) Null),
       (''status'', Str (if jget ''valid'' status = JBool True then ''current'' else if truthy binding then ''stale'' else ''unbound'')),
       (''workspace_id'', coalesce (jget ''workspace_id'' host) Null),
       (''host_pid'', coalesce (jpath [''process'', ''pid''] host) Null)])"

fun without_keys :: "string list \<Rightarrow> jv \<Rightarrow> jv" where
  "without_keys ks (Obj kvs) = Obj (filter (\<lambda>kv. fst kv \<notin> set ks) kvs)"
| "without_keys ks v = v"

definition freshnessValue :: "jv \<Rightarrow> jv" where
  "freshnessValue packet = without_keys [''budget'', ''evidence'', ''freshness''] packet"

definition applyFreshness :: "(string \<Rightarrow> string) \<Rightarrow> jv \<Rightarrow> string \<Rightarrow> jv \<Rightarrow> jv" where
  "applyFreshness sha packet authority ephemeral =
     jset ''freshness'' (Obj [
       (''schema'', Str ''opsle.durable-supervisor.resume-freshness/v1''),
       (''authority_sha256'', Str (sha (canonicalJson (Obj [
          (''packet'', freshnessValue packet), (''sources'', Str authority), (''ephemeral'', ephemeral)]))))]) packet"

section \<open>Wakes that need attention\<close>

definition wake_dir :: "string \<Rightarrow> string" where
  "wake_dir root = root @ ''/.opsle/wake''"

definition named_json :: "string \<Rightarrow> jv \<Rightarrow> string" where
  "named_json dir name = dir @ ''/'' @ js_string name @ ''.json''"

definition wake_item :: "jv \<Rightarrow> string \<Rightarrow> string \<Rightarrow> string \<Rightarrow> jv \<Rightarrow> jv" where
  "wake_item request requestFile classification reason decisionFile = Obj [
     (''event_id'', jget ''event_id'' request),
     (''task_id'', coalesce (jget ''task_id'' request) Null),
     (''attempt_id'', coalesce (jget ''attempt_id'' request) Null),
     (''queued_at'', coalesce (jget ''queued_at'' request) Null),
     (''terminal_type'', coalesce (jget ''terminal_type'' request) Null),
     (''classification'', Str classification),
     (''reason'', Str reason),
     (''request_path'', Str requestFile),
     (''decision_path'', decisionFile)]"

text \<open>\<open>TERMINAL_TASK_STATES.has(task?.state) || attempt?.supervisor_evaluation\<close>\<close>

definition settled_work :: "jv \<Rightarrow> jv \<Rightarrow> bool" where
  "settled_work task attempt \<longleftrightarrow> in_strs TERMINAL_TASK_STATES (jget ''state'' task) \<or> truthy (jget ''supervisor_evaluation'' attempt)"

definition read_named :: "string \<Rightarrow> string \<Rightarrow> jv \<Rightarrow> jv rio" where
  "read_named root dir name = (if truthy name then read_source root False (named_json dir name) else ret Null)"

definition consumption_seen :: "jv \<Rightarrow> jv \<Rightarrow> jv \<Rightarrow> bool" where
  "consumption_seen request delivery consumption \<longleftrightarrow> jget ''status'' delivery = Str ''CONSUMED''
     \<or> (jget ''schema'' consumption = Str ''opsle.durable-supervisor.wake-consumption/v1''
        \<and> strict_eq (jget ''event_id'' consumption) (jget ''event_id'' request)
        \<and> list_all (\<lambda>k. strict_eq (jget k consumption) (jget k delivery))
            [''delivery_id'', ''supervisor_id'', ''supervisor_generation''])"

definition delivered_wake :: "string \<Rightarrow> string \<Rightarrow> jv \<Rightarrow> jv \<Rightarrow> jv option rio" where
  "delivered_wake root requestFile request delivery =
     bind_io (read_source root False (named_json (wake_dir root @ ''/consumptions'') (jget ''event_id'' request))) (\<lambda>consumption.
     if consumption_seen request delivery consumption then ret None
     else
       bind_io (read_named root (p_tasks (paths root)) (jget ''task_id'' request)) (\<lambda>task.
       bind_io (read_named root (p_attempts (paths root)) (jget ''attempt_id'' request)) (\<lambda>attempt.
       if settled_work task attempt then ret None
       else ret (Some (wake_item request requestFile ''awaiting-consumption'' ''delivered-terminal-wake-unconsumed'' Null)))))"

definition pending_item :: "jv \<Rightarrow> string \<Rightarrow> bool \<Rightarrow> jv \<Rightarrow> string \<Rightarrow> jv" where
  "pending_item request requestFile validSchema decision decisionFile =
     (let uncertain = \<not> validSchema \<or> jget ''status'' decision = Str ''UNCERTAIN'';
          reason = (if \<not> validSchema then Str ''invalid-wake-request''
            else if uncertain then coalesce (jget ''failure'' decision) (Str ''activation-decision-uncertain'')
            else coalesce (jget ''status'' decision) (Str ''receipt-free'')) in
     jset ''reason'' reason (wake_item request requestFile (if uncertain then ''uncertain'' else ''queued'') ''''
       (if truthy decision then Str decisionFile else Null)))"

definition pending_wake :: "string \<Rightarrow> string \<Rightarrow> jv \<Rightarrow> bool \<Rightarrow> jv \<Rightarrow> jv option rio" where
  "pending_wake root requestFile request validSchema state =
     bind_io (if nullish (jget ''processed_event_ids'' state) then ret False
       else lift_io (includes_call (jget ''processed_event_ids'' state) (jget ''event_id'' request))) (\<lambda>processed.
     if processed then ret None
     else
       bind_io (if truthy (jget ''task_id'' request) \<and> truthy (jget ''attempt_id'' request) then
           bind_io (read_named root (p_tasks (paths root)) (jget ''task_id'' request)) (\<lambda>task.
           bind_io (read_named root (p_attempts (paths root)) (jget ''attempt_id'' request)) (\<lambda>attempt.
           ret (settled_work task attempt)))
         else ret False) (\<lambda>settled.
       if settled then ret None
       else
         (let decisionFile = named_json (wake_dir root @ ''/activation-decisions'') (jget ''event_id'' request) in
         bind_io (read_source root False decisionFile) (\<lambda>decision.
         if jget ''status'' decision = Str ''DELIVERED'' then ret None
         else ret (Some (pending_item request requestFile validSchema decision decisionFile))))))"

definition wake_of_request :: "string \<Rightarrow> jv \<Rightarrow> jv \<Rightarrow> string \<Rightarrow> jv option rio" where
  "wake_of_request root supervisor state name =
     (let requestFile = wake_dir root @ ''/requests/'' @ name in
     bind_io (read_source root False requestFile) (\<lambda>request.
     if \<not> truthy request then ret None
     else if \<not> strict_eq (jpath [''target'', ''supervisor_id''] request) (jget ''supervisor_id'' supervisor)
         \<or> \<not> strict_eq (jpath [''target'', ''supervisor_generation''] request) (jget ''generation'' supervisor) then ret None
     else
       bind_io (read_source root False (named_json (wake_dir root @ ''/deliveries'') (jget ''event_id'' request))) (\<lambda>delivery.
       if truthy delivery \<and> in_strs [''DELIVERED'', ''CONSUMED''] (jget ''status'' delivery)
       then delivered_wake root requestFile request delivery
       else pending_wake root requestFile request
         (in_strs [''opsle.durable-supervisor.host-wake-request/v1'', ''opsle.durable-supervisor.native-wake-request/v2'']
           (jget ''schema'' request)) state)))"

definition wake_rank :: "jv \<Rightarrow> int" where
  "wake_rank item = (if jget ''classification'' item = Str ''awaiting-consumption'' then 0
     else if jget ''classification'' item = Str ''uncertain'' then 1
     else if jget ''classification'' item = Str ''queued'' then 2 else 3)"

definition current_item :: "jv \<Rightarrow> jv \<Rightarrow> bool" where
  "current_item state item \<longleftrightarrow> strict_eq (jget ''task_id'' item) (jget ''active_task_id'' state)
     \<and> strict_eq (jget ''attempt_id'' item) (jget ''active_attempt_id'' state)"

definition compare_wakes :: "(string \<Rightarrow> string \<Rightarrow> int) \<Rightarrow> jv \<Rightarrow> jv \<Rightarrow> jv \<Rightarrow> int" where
  "compare_wakes collate state a b =
     (if current_item state a \<noteq> current_item state b then (if current_item state a then - 1 else 1)
      else if wake_rank a \<noteq> wake_rank b then wake_rank a - wake_rank b
      else collate (js_string (coalesce (jget ''queued_at'' b) (Str []))) (js_string (coalesce (jget ''queued_at'' a) (Str []))))"

definition wake_summary :: "jv list \<Rightarrow> jv" where
  "wake_summary ranked = Obj [
     (''attention_count'', Num (int (length ranked))),
     (''queued'', Num (int (length (filter (\<lambda>i. jget ''classification'' i = Str ''queued'') ranked)))),
     (''uncertain'', Num (int (length (filter (\<lambda>i. jget ''classification'' i = Str ''uncertain'') ranked)))),
     (''selected_count'', Num (int (min 1 (length ranked)))),
     (''omitted_count'', Num (int (length ranked - 1))),
     (''items'', Arr (take 1 ranked))]"

definition summarizeWake :: "(string \<Rightarrow> string \<Rightarrow> int) \<Rightarrow> string \<Rightarrow> jv \<Rightarrow> jv \<Rightarrow> jv \<Rightarrow> jv rio" where
  "summarizeWake collate root supervisor state injected =
     (if truthy injected then ret injected
      else
        bind_io (on_disk (existsDir (wake_dir root @ ''/requests''))) (\<lambda>there.
        if \<not> there then ret (Obj [(''attention_count'', Num 0), (''queued'', Num 0), (''uncertain'', Num 0), (''items'', Arr [])])
        else
          bind_io (on_disk (readdirJson (wake_dir root @ ''/requests''))) (\<lambda>names.
          bind_io (map_io (wake_of_request root supervisor state) (sort names)) (\<lambda>found.
          ret (wake_summary (sort_cmp (compare_wakes collate state) (map the (filter (\<lambda>o1. o1 \<noteq> None) found))))))))"

section \<open>The latest decision\<close>

definition compactDecision :: "jv \<Rightarrow> jv \<Rightarrow> jv" where
  "compactDecision attempt taskId =
     (let evaluation = jget ''supervisor_evaluation'' attempt; gearbox = jpath [''policy_snapshot'', ''gearbox_decision''] attempt in
     if truthy evaluation then Obj [
       (''kind'', Str ''supervisor_evaluation''),
       (''decision_id'', coalesce (jget ''decision_id'' evaluation) Null),
       (''decision'', coalesce (jget ''decision'' evaluation) Null),
       (''task_id'', taskId),
       (''evaluated_at'', coalesce (jget ''evaluated_at'' evaluation) Null)]
     else if truthy gearbox then Obj [
       (''kind'', Str ''gearbox''),
       (''decision_id'', coalesce (jget ''decision_id'' gearbox) Null),
       (''decision'', coalesce (jget ''selected_route'' gearbox) Null),
       (''task_id'', taskId)]
     else Null)"

section \<open>The active work\<close>

definition mismatch :: "string \<Rightarrow> bool \<Rightarrow> string \<Rightarrow> string \<Rightarrow> string \<Rightarrow> unit rio" where
  "mismatch root wrong code classification p =
     (if wrong then bind_io (issue code classification) (\<lambda>_. escalate root p ''identity'' code) else ret ())"

definition note_if :: "bool \<Rightarrow> string \<Rightarrow> string \<Rightarrow> unit rio" where
  "note_if wrong code classification = (if wrong then issue code classification else ret ())"

text \<open>A file named by an identifier that may be absent.\<close>

definition read_authoritative :: "string \<Rightarrow> string \<Rightarrow> jv \<Rightarrow> jv rio" where
  "read_authoritative root dir name =
     (if truthy name then
        bind_io (read_source root True (named_json dir name)) (\<lambda>v.
        bind_io (note_authoritative root (named_json dir name)) (\<lambda>_. ret v))
      else ret Null)"

text \<open>\<open>!task.attempts?.includes(attemptId)\<close>\<close>

definition not_listed :: "jv \<Rightarrow> jv \<Rightarrow> err + bool" where
  "not_listed task attemptId = (if nullish (jget ''attempts'' task) then Inr True
     else bind_err (includes_call (jget ''attempts'' task) attemptId) (\<lambda>b. Inr (\<not> b)))"

definition check_active_task :: "string \<Rightarrow> jv \<Rightarrow> jv \<Rightarrow> jv \<Rightarrow> jv \<Rightarrow> jv \<Rightarrow> jv \<Rightarrow> unit rio" where
  "check_active_task root task attempt taskId attemptId supervisor objective =
     (let taskFile = named_json (p_tasks (paths root)) taskId; attemptFile = named_json (p_attempts (paths root)) attemptId in
     bind_io (mismatch root (truthy task \<and> (jget ''schema'' task \<noteq> Str ''opsle.durable-supervisor.task-handoff/v1''
         \<or> \<not> strict_eq (jget ''task_id'' task) taskId
         \<or> \<not> strict_eq (jget ''supervisor_id'' task) (jget ''supervisor_id'' supervisor)))
       ''active-task-identity-mismatch'' ''contradictory'' taskFile) (\<lambda>_.
     bind_io (mismatch root (truthy attempt \<and> (jget ''schema'' attempt \<noteq> Str ''opsle.durable-supervisor.child-attempt/v1''
         \<or> \<not> strict_eq (jget ''attempt_id'' attempt) attemptId \<or> \<not> strict_eq (jget ''task_id'' attempt) taskId))
       ''active-attempt-identity-mismatch'' ''contradictory'' attemptFile) (\<lambda>_.
     bind_io (if truthy task \<and> truthy attemptId then lift_io (not_listed task attemptId) else ret False) (\<lambda>unlisted.
     bind_io (mismatch root unlisted ''active-attempt-not-listed-by-task'' ''contradictory'' taskFile) (\<lambda>_.
     mismatch root (truthy task \<and> truthy objective
         \<and> (\<not> strict_eq (jget ''parent_objective_id'' task) (jget ''objective_id'' objective)
            \<or> \<not> strict_eq (jget ''parent_objective_revision'' task) (jget ''current_revision'' objective)))
       ''active-task-objective-revision-stale'' ''requires_escalation'' taskFile)))))"

definition claim_exact :: "jv \<Rightarrow> jv \<Rightarrow> jv \<Rightarrow> jv \<Rightarrow> jv \<Rightarrow> jv \<Rightarrow> jv \<Rightarrow> bool" where
  "claim_exact claim index indexed attempt taskId attemptId supervisor \<longleftrightarrow> truthy claim
     \<and> jget ''schema'' claim = Str ''opsle.durable-supervisor.claim/v1''
     \<and> strict_eq (jget ''claim_id'' claim) (jget ''claim_id'' attempt)
     \<and> strict_eq (jget ''task_id'' claim) taskId
     \<and> strict_eq (jget ''attempt_id'' claim) attemptId
     \<and> strict_eq (jget ''fence_generation'' claim) (jget ''fence_generation'' attempt)
     \<and> strict_eq (jget ''owner_supervisor_id'' claim) (jget ''supervisor_id'' supervisor)
     \<and> strict_eq (jget ''owner_generation'' claim) (jpath [''policy_snapshot'', ''supervisor_generation''] attempt)
     \<and> strict_eq (jpath [''policy_snapshot'', ''claim_id''] attempt) (jget ''claim_id'' claim)
     \<and> strict_eq (jpath [''policy_snapshot'', ''fence_generation''] attempt) (jget ''fence_generation'' claim)
     \<and> jget ''schema'' index = Str ''opsle.durable-supervisor.claim-index/v1''
     \<and> strict_eq (jget ''claim_id'' indexed) (jget ''claim_id'' claim)
     \<and> strict_eq (jget ''fence_generation'' indexed) (jget ''fence_generation'' claim)
     \<and> strict_eq (jget ''status'' indexed) (jget ''status'' claim)"

definition check_active_claim :: "string \<Rightarrow> jv \<Rightarrow> jv \<Rightarrow> jv \<Rightarrow> jv \<Rightarrow> jv rio" where
  "check_active_claim root attempt taskId attemptId supervisor =
     (let claimFile = named_json (p_claims (paths root)) (jget ''claim_id'' attempt);
          indexFile = p_claims (paths root) @ ''/index.json''; key = ''task-'' @ js_string taskId in
     bind_io (read_source root True claimFile) (\<lambda>claim.
     bind_io (note_authoritative root claimFile) (\<lambda>_.
     bind_io (read_source root True indexFile) (\<lambda>index.
     bind_io (note_authoritative root indexFile) (\<lambda>_.
     bind_io (if claim_exact claim index (coalesce (jget key index) Null) attempt taskId attemptId supervisor then ret ()
       else
         bind_io (issue ''active-claim-fence-relationship-contradictory'' ''contradictory'') (\<lambda>_.
         bind_io (escalate root claimFile ''identity'' ''active-claim-fence-relationship-contradictory'') (\<lambda>_.
         escalate root indexFile key ''active-claim-index-relationship-contradictory''))) (\<lambda>_.
     bind_io (note_if (in_strs ACTIVE_CHILD_STATES (jget ''child_state'' attempt) \<and> jget ''status'' claim \<noteq> Str ''ACTIVE'')
       ''nonterminal-attempt-without-active-claim'' ''contradictory'') (\<lambda>_.
     bind_io (note_if (in_strs TERMINAL_CHILD_STATES (jget ''child_state'' attempt) \<and> jget ''status'' claim = Str ''ACTIVE'')
       ''terminal-attempt-with-active-claim'' ''contradictory'') (\<lambda>_.
     ret claim))))))))"

definition check_child_state :: "string \<Rightarrow> jv \<Rightarrow> jv \<Rightarrow> jv \<Rightarrow> unit rio" where
  "check_child_state root task attempt attemptId =
     (let attemptFile = named_json (p_attempts (paths root)) attemptId; child = jget ''child_state'' attempt; state = jget ''state'' task in
     bind_io (mismatch root (child = Str ''UNKNOWN'') ''active-child-state-unknown'' ''requires_escalation'' attemptFile) (\<lambda>_.
     bind_io (mismatch root (truthy attempt \<and> \<not> in_strs ACTIVE_CHILD_STATES child \<and> \<not> in_strs TERMINAL_CHILD_STATES child
         \<and> child \<noteq> Str ''UNKNOWN'')
       ''active-child-state-unclassified'' ''contradictory'' attemptFile) (\<lambda>_.
     if truthy task \<and> truthy attempt then
       bind_io (note_if (in_strs ACTIVE_CHILD_STATES child \<and> state \<noteq> Str ''QUEUED'')
         ''nonterminal-attempt-task-state-mismatch'' ''contradictory'') (\<lambda>_.
       bind_io (note_if (in_strs TERMINAL_CHILD_STATES child \<and> state \<noteq> Str ''AWAITING_SUPERVISOR'')
         ''terminal-attempt-task-state-mismatch'' ''contradictory'') (\<lambda>_.
       note_if (in_strs TERMINAL_TASK_STATES state) ''terminal-task-remains-active'' ''contradictory''))
     else ret ())))"

definition active_work :: "(string \<Rightarrow> string) \<Rightarrow> jv \<Rightarrow> jv \<Rightarrow> jv \<Rightarrow> jv \<Rightarrow> jv \<Rightarrow> jv" where
  "active_work sha task attempt claim taskId attemptId = Obj [
     (''task_id'', taskId),
     (''title'', boundedText sha (jget ''title'' task) 160),
     (''task_state'', coalesce (jget ''state'' task) Null),
     (''attempt_id'', attemptId),
     (''child_state'', coalesce (jget ''child_state'' attempt) Null),
     (''claim_id'', coalesce (jget ''claim_id'' attempt) Null),
     (''claim_status'', coalesce (jget ''status'' claim) Null),
     (''fence_generation'', coalesce (jget ''fence_generation'' attempt) Null),
     (''route'', coalesce (jget ''gearbox_route'' attempt) Null)]"

record active =
  activeWork :: jv
  active_decision :: jv
  active_attempt :: jv

definition classifyActiveWork :: "string \<Rightarrow> jv \<Rightarrow> jv \<Rightarrow> jv \<Rightarrow> active rio" where
  "classifyActiveWork root state supervisor objective =
     (let taskId = coalesce (jget ''active_task_id'' state) Null; attemptId = coalesce (jget ''active_attempt_id'' state) Null in
     if \<not> truthy taskId \<and> \<not> truthy attemptId then ret \<lparr>activeWork = Null, active_decision = Null, active_attempt = Null\<rparr>
     else
       bind_io (note_if (\<not> truthy taskId \<or> \<not> truthy attemptId) ''active-task-attempt-pair-incomplete'' ''contradictory'') (\<lambda>_.
       bind_io (read_authoritative root (p_tasks (paths root)) taskId) (\<lambda>task.
       bind_io (read_authoritative root (p_attempts (paths root)) attemptId) (\<lambda>attempt.
       bind_io (check_active_task root task attempt taskId attemptId supervisor objective) (\<lambda>_.
       bind_io (if truthy (jget ''claim_id'' attempt) then check_active_claim root attempt taskId attemptId supervisor
         else bind_io (note_if (truthy attempt) ''active-attempt-claim-missing'' ''incomplete'') (\<lambda>_. ret Null)) (\<lambda>claim.
       bind_io (check_child_state root task attempt attemptId) (\<lambda>_.
       bind_io (on_disk (\<lambda>w. (Inr (digest w), w))) (\<lambda>sha.
       ret \<lparr>activeWork = active_work sha task attempt claim taskId attemptId, active_decision = compactDecision attempt taskId,
            active_attempt = attempt\<rparr>))))))))"

section \<open>Supervisor decisions\<close>

definition id_char :: "char \<Rightarrow> bool" where
  "id_char c \<longleftrightarrow> (CHR ''A'' \<le> c \<and> c \<le> CHR ''Z'') \<or> (CHR ''a'' \<le> c \<and> c \<le> CHR ''z'') \<or> (CHR ''0'' \<le> c \<and> c \<le> CHR ''9'')
     \<or> c = CHR ''.'' \<or> c = CHR ''_'' \<or> c = CHR ''-''"

text \<open>\<open>/^Supervisor rejected ([A-Za-z0-9][A-Za-z0-9._-]*):/\<close>\<close>

definition rejectedTaskId :: "jv \<Rightarrow> jv" where
  "rejectedTaskId unresolved =
     (let prefix = ''Supervisor rejected ''; rest = drop (length prefix) (str_of unresolved); name = takeWhile id_char rest in
     if is_str unresolved \<and> starts_with prefix (str_of unresolved) \<and> name \<noteq> [] \<and> hd name \<notin> set ''._-''
       \<and> starts_with '':'' (drop (length name) rest)
     then Str name else Null)"

text \<open>\<open>attempts?.at(-1)\<close>\<close>

fun last_attempt :: "jv \<Rightarrow> err + jv" where
  "last_attempt Undef = Inr Undef"
| "last_attempt Null = Inr Undef"
| "last_attempt (Arr xs) = Inr (if xs = [] then Undef else last xs)"
| "last_attempt (Str s) = Inr (if s = [] then Undef else Str [last s])"
| "last_attempt v = Inl TypeErr"

definition decided_attempt :: "string \<Rightarrow> jv \<Rightarrow> jv \<Rightarrow> string \<Rightarrow> string \<Rightarrow> jv rio" where
  "decided_attempt root task taskId expectedTaskState relationship =
     bind_io (lift_io (last_attempt (jget ''attempts'' task))) (\<lambda>attemptId.
     if \<not> truthy attemptId then bind_io (issue (relationship @ ''-attempt-missing'') ''incomplete'') (\<lambda>_. ret Null)
     else
       (let attemptFile = named_json (p_attempts (paths root)) attemptId;
            expected = (if expectedTaskState = ''ACCEPTED'' then ''ACCEPT'' else ''REJECT'') in
       bind_io (read_source root True attemptFile) (\<lambda>attempt.
       bind_io (note_authoritative root attemptFile) (\<lambda>_.
       bind_io (mismatch root (truthy attempt \<and> (jget ''schema'' attempt \<noteq> Str ''opsle.durable-supervisor.child-attempt/v1''
           \<or> \<not> strict_eq (jget ''task_id'' attempt) taskId \<or> \<not> strict_eq (jget ''attempt_id'' attempt) attemptId
           \<or> \<not> truthy (jget ''supervisor_evaluation'' attempt)
           \<or> jpath [''supervisor_evaluation'', ''decision''] attempt \<noteq> Str expected))
         (relationship @ ''-decision-relationship-contradictory'') ''contradictory'' attemptFile) (\<lambda>_.
       ret (compactDecision attempt taskId))))))"

definition loadTaskSupervisorDecision :: "string \<Rightarrow> jv \<Rightarrow> jv \<Rightarrow> string \<Rightarrow> string \<Rightarrow> jv rio" where
  "loadTaskSupervisorDecision root objective taskId expectedTaskState relationship =
     (let taskFile = named_json (p_tasks (paths root)) taskId in
     if \<not> truthy taskId then ret Null
     else
       bind_io (read_source root True taskFile) (\<lambda>task.
       if \<not> truthy task then ret Null
       else
         bind_io (note_authoritative root taskFile) (\<lambda>_.
         if \<not> strict_eq (jget ''parent_objective_id'' task) (jget ''objective_id'' objective)
             \<or> \<not> strict_eq (jget ''parent_objective_revision'' task) (jget ''current_revision'' objective) then ret Null
         else
           bind_io (mismatch root (jget ''schema'' task \<noteq> Str ''opsle.durable-supervisor.task-handoff/v1''
               \<or> \<not> strict_eq (jget ''task_id'' task) taskId \<or> jget ''state'' task \<noteq> Str expectedTaskState)
             (relationship @ ''-task-relationship-contradictory'') ''contradictory'' taskFile) (\<lambda>_.
           decided_attempt root task taskId expectedTaskState relationship))))"

definition loadLatestSupervisorDecision :: "(string \<Rightarrow> string \<Rightarrow> int) \<Rightarrow> string \<Rightarrow> jv \<Rightarrow> jv \<Rightarrow> jv rio" where
  "loadLatestSupervisorDecision collate root state objective =
     bind_io (loadTaskSupervisorDecision root objective (jget ''latest_accepted_task_id'' state) ''ACCEPTED'' ''latest-accepted'') (\<lambda>accepted.
     bind_io (loadTaskSupervisorDecision root objective (rejectedTaskId (jget ''latest_unresolved_issue'' state)) ''REJECTED''
       ''latest-rejected'') (\<lambda>rejected.
     let evaluated = (\<lambda>d. js_string (coalesce (jget ''evaluated_at'' d) (Str [])));
         ranked = sort_cmp (\<lambda>a b. collate (evaluated b) (evaluated a)) (filter truthy [accepted, rejected]) in
     ret (case ranked of [] \<Rightarrow> Null | d # ds \<Rightarrow> d)))"

section \<open>The next action\<close>

record situation =
  sit_state :: jv
  sit_active :: active
  sit_wake :: jv
  sit_session :: jv
  objective_complete :: bool
  unsatisfied_count :: nat
  requirement_driven :: bool
  sit_classification :: string

definition session_current :: "jv \<Rightarrow> bool" where
  "session_current session \<longleftrightarrow> jget ''classification'' session = Str ''bound-authoritative-herdr''
     \<and> jget ''valid'' session = JBool True \<and> jget ''supported'' session = JBool True"

definition positive_count :: "jv \<Rightarrow> bool" where
  "positive_count v \<longleftrightarrow> (case js_number v of Some n \<Rightarrow> 0 < n | None \<Rightarrow> False)"

definition wake_count :: "jv \<Rightarrow> jv" where
  "wake_count wake = coalesce (jget ''attention_count'' wake) (coalesce (jpath [''items'', ''length''] wake) (Num 0))"

definition paused_action :: "bool \<Rightarrow> jv" where
  "paused_action clean =
     (if \<not> clean then Str ''No automatic action while PAUSED; operator must perform bounded reconciliation before explicit resume.''
      else Str ''No automatic action while PAUSED; operator must explicitly resume.'')"

definition runner_action :: "string \<Rightarrow> bool \<Rightarrow> bool \<Rightarrow> string" where
  "runner_action task sessionCurrent attention =
     (if \<not> sessionCurrent then ''Runner exclusively monitors detached task '' @ task @
        ''; operator must perform bounded reconciliation of the authoritative Herdr/Codex session binding.''
      else if attention then ''Runner exclusively monitors detached task '' @ task @
        ''; perform bounded reconciliation of the selected wake evidence.''
      else ''No supervisor monitoring action; Runner exclusively monitors detached task '' @ task @ ''.'')"

definition idle_action :: "situation \<Rightarrow> bool \<Rightarrow> jv" where
  "idle_action s unresolved =
     (if unresolved \<or> sit_classification s \<noteq> ''complete_for_resume''
      then Str ''Perform bounded reconciliation using only the selected escalation evidence.''
      else if objective_complete s then Null
      else if 0 < unsatisfied_count s then Str ''Select the next unsatisfied requirement slice.''
      else Str (if requirement_driven s then ''Evaluate objective completion from the authoritative requirement state.''
        else ''Evaluate objective completion from authoritative objective and task evidence.''))"

definition working_action :: "situation \<Rightarrow> string \<Rightarrow> bool \<Rightarrow> bool \<Rightarrow> bool \<Rightarrow> jv" where
  "working_action s task sessionCurrent attention unresolved =
     (let attempt = active_attempt (sit_active s); child = jget ''child_state'' attempt;
          evaluation = truthy attempt \<and> in_strs TERMINAL_CHILD_STATES child
            \<and> jget ''task_state'' (activeWork (sit_active s)) = Str ''AWAITING_SUPERVISOR'' in
     if \<not> sessionCurrent then
       (if evaluation then Str (''Operator must perform bounded reconciliation of the authoritative Herdr/Codex session binding, then evaluate ''
          @ task @ ''.'')
        else Str ''Operator must perform bounded reconciliation of the authoritative Herdr/Codex session binding before automatic work resumes.'')
     else if attention then Str ''Perform bounded reconciliation of the selected current-generation wake evidence.''
     else if evaluation then Str (''Perform bounded supervisor evaluation of '' @ task @ ''.'')
     else if truthy (activeWork (sit_active s)) \<and> in_strs ACTIVE_CHILD_STATES child
       then Str (''Continue only the bounded execution path for '' @ task @ ''.'')
     else idle_action s unresolved)"

definition deriveNextAction :: "situation \<Rightarrow> err + jv" where
  "deriveNextAction s =
     (let work = activeWork (sit_active s); attempt = active_attempt (sit_active s);
          task = js_string (jget ''task_id'' work);
          current = session_current (sit_session s);
          attention = positive_count (wake_count (sit_wake s));
          unresolved = truthy (jget ''latest_unresolved_issue'' (sit_state s)) in
     bind_err (find_by ''classification'' (Str ''awaiting-consumption'') (jget ''items'' (sit_wake s))) (\<lambda>awaiting.
     Inr (if jget ''supervisor_state'' (sit_state s) = Str ''PAUSED'' \<and> \<not> truthy work
       then paused_action (current \<and> \<not> attention \<and> \<not> unresolved \<and> sit_classification s = ''complete_for_resume'')
       else if truthy awaiting then
         Str (''Consume delivered terminal wake '' @ js_string (jget ''event_id'' awaiting) @ '' before evaluating '' @ task @ ''.'')
       else if in_strs ACTIVE_CHILD_STATES (jget ''child_state'' attempt)
           \<and> jpath [''wait_registration'', ''detached_dormancy'', ''monitoring_owner''] attempt = Str ''RUNNER_ONLY''
         then Str (runner_action task current attention)
       else working_action s task current attention unresolved)))"

end
