(* ===== verification/Packet.thy ===== *)
theory Packet imports Resume Frames begin

text \<open>
  Reconstruction (src/reconstruction.js), the second half: the resume packet itself.  It is measured
  until its own size is in it, compacted when it is too large, checked against the sources it was
  made of, and read back behind its freshness fence; evidence is handed out by reference only.
\<close>

text \<open>
  What the code reads outside the durable files: \<open>localeCompare\<close>, the session status
  (\<open>refreshCodexSessionBinding\<close> of wakeup.js, which inspects processes and may rewrite the binding), the
  elapsed time, the quotient of the telemetry, and whether a path is a regular file.
\<close>

record packet_env =
  collate :: "string \<Rightarrow> string \<Rightarrow> int"
  refresh :: "jv wio"
  elapsed_ms :: jv
  suppression :: "nat \<Rightarrow> nat \<Rightarrow> jv"
  is_regular :: "string \<Rightarrow> bool"

section \<open>Measuring\<close>

definition with_budget :: "nat \<Rightarrow> nat \<Rightarrow> jv \<Rightarrow> jv" where
  "with_budget bytes characters packet = jset ''budget'' (jsets [
     (''packet_bytes'', Num (int bytes)),
     (''packet_characters'', Num (int characters))] (jget ''budget'' packet)) packet"

text \<open>The loop of \<open>measurePacket\<close> with the iterations left; it returns the packet it has updated.\<close>

fun measure_loop :: "nat \<Rightarrow> string \<Rightarrow> jv \<Rightarrow> err + jv" where
  "measure_loop 0 prior packet = Inl (Err ''resume packet measurement did not converge'')"
| "measure_loop (Suc n) prior packet =
     (let serialized = canonicalJson packet;
          measured = with_budget (byte_length serialized) (length serialized) packet;
          text = canonicalJson measured in
      if text = prior \<or> text = serialized then Inr measured
      else measure_loop n text measured)"

definition measurePacket :: "jv \<Rightarrow> err + jv" where
  "measurePacket packet = measure_loop 12 [] packet"

section \<open>The checks of a reconstruction\<close>

definition PACKET_SCHEMA :: string where
  "PACKET_SCHEMA = ''opsle.durable-supervisor.resume-packet/v1''"

record sources =
  so_supervisor :: jv
  so_state :: jv
  so_objective :: jv
  so_policy :: jv
  so_requirements :: jv
  so_objective_entry :: jv
  so_unsatisfied :: "jv list"

definition read_core :: "string \<Rightarrow> sources rio" where
  "read_core root =
     (let p = paths root in
     bind_io (read_source root True (p_supervisor p)) (\<lambda>supervisor.
     bind_io (read_source root True (p_state p)) (\<lambda>state.
     bind_io (read_source root True (p_objective p)) (\<lambda>objective.
     bind_io (read_source root True (p_policy p)) (\<lambda>policy.
     bind_io (read_source root False (p_bootstrap p)) (\<lambda>bootstrap.
     bind_io (read_source root False (p_requirements p)) (\<lambda>matrix.
     bind_io (on_disk (effectiveRequirementMatrix root (Some bootstrap) (Some matrix))) (\<lambda>requirements.
     bind_io (map_io (note_authoritative root) ([p_supervisor p, p_state p, p_objective p, p_policy p]
       @ (if truthy bootstrap then [p_bootstrap p] else []) @ (if truthy requirements then [p_requirements p] else []))) (\<lambda>_.
     ret \<lparr>so_supervisor = supervisor, so_state = state, so_objective = objective, so_policy = policy,
       so_requirements = requirements, so_objective_entry = Null, so_unsatisfied = []\<rparr>)))))))))"

definition wrong_authority :: "string \<Rightarrow> jv \<Rightarrow> bool" where
  "wrong_authority root supervisor \<longleftrightarrow> truthy supervisor
     \<and> (jget ''repository'' supervisor \<noteq> Str root \<or> jget ''authority_status'' supervisor \<noteq> Str ''AUTHORITATIVE''
        \<or> \<not> pos_safe (jget ''generation'' supervisor))"

definition flag :: "string \<Rightarrow> bool \<Rightarrow> string \<Rightarrow> string \<Rightarrow> string \<Rightarrow> string \<Rightarrow> unit rio" where
  "flag root wrong code classification p selector =
     (if wrong then bind_io (issue code classification) (\<lambda>_. escalate root p selector code) else ret ())"

text \<open>\<open>requirements?.requirements?.filter(...) ?? []\<close>\<close>

definition open_requirements :: "jv \<Rightarrow> err + jv list" where
  "open_requirements requirements =
     (if nullish (jget ''requirements'' requirements) then Inr [] else unsatisfiedRequirements requirements)"

definition check_pause :: "jv \<Rightarrow> unit rio" where
  "check_pause state =
     bind_io (note_if (jget ''supervisor_state'' state = Str ''PAUSED'' \<and> jpath [''pause'', ''active''] state \<noteq> JBool True)
       ''paused-state-without-active-pause'' ''contradictory'') (\<lambda>_.
     note_if (jpath [''pause'', ''after_current''] state = JBool True
         \<and> (\<not> truthy (jpath [''pause'', ''active''] state) \<or> \<not> truthy (jget ''active_attempt_id'' state)))
       ''pause-after-current-without-active-attempt'' ''contradictory'')"

definition check_core_state :: "string \<Rightarrow> sources \<Rightarrow> sources rio" where
  "check_core_state root so =
     (let p = paths root; state = so_state so; requirements = so_requirements so; complete = (jget ''phase'' state = Str ''COMPLETE'') in
     bind_io (flag root (wrong_authority root (so_supervisor so)) ''supervisor-authority-contradictory'' ''contradictory''
       (p_supervisor p) ''identity'') (\<lambda>_.
     bind_io (lift_io (current_revision (so_objective so))) (\<lambda>found.
     bind_io (flag root (\<not> truthy found) ''current-objective-revision-missing'' ''contradictory'' (p_objective p) ''current_objective'') (\<lambda>_.
     bind_io (lift_io (open_requirements requirements)) (\<lambda>unsatisfied.
     bind_io (flag root (truthy requirements \<and> \<not> is_arr (jget ''requirements'' requirements)) ''requirements-state-missing'' ''incomplete''
       (p_requirements p) ''requirement_states'') (\<lambda>_.
     bind_io (flag root (complete \<and> unsatisfied \<noteq> []) ''complete-phase-has-unsatisfied-requirements'' ''contradictory''
       (p_requirements p) ''requirement_states'') (\<lambda>_.
     bind_io (flag root (complete \<and> unsatisfied = [] \<and> \<not> nullish (jget ''pending_next_action'' state))
       ''complete-objective-has-next-action'' ''contradictory'' (p_state p) ''resume_fields'') (\<lambda>_.
     bind_io (check_pause state) (\<lambda>_.
     ret (so\<lparr>so_objective_entry := coalesce found Null, so_unsatisfied := unsatisfied\<rparr>))))))))))"

definition bound_session_file :: "string \<Rightarrow> string" where
  "bound_session_file root = wake_dir root @ ''/codex-session-binding.json''"

definition failed_session :: jv where
  "failed_session = Obj [(''classification'', Str ''unknown''), (''valid'', JBool False), (''supported'', JBool False),
     (''reasons'', Arr [Str ''session-status-check-failed''])]"

definition session_status :: "packet_env \<Rightarrow> jv \<Rightarrow> jv rio" where
  "session_status env given =
     (if truthy given then ret given
      else try_io (on_disk (refresh env)) (\<lambda>e.
        bind_io (issue ''session-status-check-failed'' ''incomplete'') (\<lambda>_. ret failed_session)))"

definition session_contradictory :: "jv \<Rightarrow> jv \<Rightarrow> bool" where
  "session_contradictory session supervisor \<longleftrightarrow> (let binding = jget ''binding'' session in
     \<not> truthy (jget ''valid'' session) \<or> \<not> truthy (jget ''supported'' session)
     \<or> \<not> strict_eq (jget ''supervisor_id'' binding) (jget ''supervisor_id'' supervisor)
     \<or> \<not> strict_eq (jget ''supervisor_generation'' binding) (jget ''generation'' supervisor)
     \<or> jpath [''host'', ''kind''] binding \<noteq> Str ''herdr''
     \<or> jpath [''host'', ''authority''] binding \<noteq> Str ''authoritative'')"

definition check_session :: "string \<Rightarrow> jv \<Rightarrow> jv \<Rightarrow> unit rio" where
  "check_session root session supervisor =
     bind_io (lift_io (jdot ''classification'' session)) (\<lambda>classification.
     if classification = Str ''unbound'' then issue ''codex-session-binding-unbound'' ''requires_escalation''
     else if in_strs [''stale'', ''attention''] classification then
       flag root True ''codex-session-binding-stale'' ''requires_escalation'' (bound_session_file root) ''session_binding''
     else if classification \<noteq> Str ''bound-authoritative-herdr'' then issue ''codex-session-binding-status-unknown'' ''incomplete''
     else flag root (session_contradictory session supervisor) ''authoritative-herdr-binding-relationship-contradictory''
       ''contradictory'' (bound_session_file root) ''session_binding'')"

text \<open>\<open>relative\<close> throws a \<open>TypeError\<close> on what is not a string.\<close>

definition check_wake_item :: "string \<Rightarrow> jv \<Rightarrow> unit rio" where
  "check_wake_item root item =
     bind_io (lift_io (jdot ''request_path'' item)) (\<lambda>requestFile.
     let code = (if jget ''classification'' item = Str ''uncertain'' then ''uncertain-wake-activation'' else ''queued-wake-activation'');
         target = coalesce (jget ''decision_path'' item) requestFile in
     guard_io (truthy requestFile \<and> \<not> is_str requestFile) TypeErr (
     bind_io (if truthy requestFile then note_authoritative root (str_of requestFile) else ret ()) (\<lambda>_.
     bind_io (issue code ''requires_escalation'') (\<lambda>_.
     guard_io (truthy target \<and> \<not> is_str target) TypeErr (
     if truthy target then escalate root (str_of target)
       (if truthy (jget ''decision_path'' item) then ''wake_decision'' else ''wake_request'') code
     else ret ())))))"

section \<open>The packet\<close>

definition provider_entry :: "string \<times> jv \<Rightarrow> err + (string \<times> jv)" where
  "provider_entry nv = (case nv of (name, v) \<Rightarrow>
     bind_err (jdot ''enabled'' v) (\<lambda>enabled.
     Inr (name, Obj ((''enabled'', JBool (enabled = JBool True))
       # (if nullish (jget ''model'' v) then [] else [(''model'', jget ''model'' v)])
       @ (if nullish (jget ''reasoning_effort'' v) then [] else [(''reasoning_effort'', jget ''reasoning_effort'' v)])))))"

definition packet_policy :: "jv \<Rightarrow> err + jv" where
  "packet_policy policy =
     (if \<not> truthy policy then Inr Null
      else
        bind_err (map_err provider_entry
          (sort_key (\<lambda>nv. js_string (Arr [Str (fst nv), snd nv])) (members_of (jget ''providers'' policy)))) (\<lambda>providers.
        Inr (Obj [
          (''version'', coalesce (jget ''version'' policy) Null),
          (''providers'', Obj providers),
          (''review'', coalesce (jget ''review'' policy) Null),
          (''gearbox_required'', coalesce (jpath [''gearbox'', ''required''] policy) Null),
          (''model_polling_permitted'', coalesce (jpath [''model_polling'', ''permitted''] policy) Null),
          (''affected_verification'', coalesce (jpath [''affected_verification'', ''authority''] policy) Null)])))"

definition item_count :: "jv \<Rightarrow> jv" where
  "item_count wake = coalesce (jpath [''items'', ''length''] wake) (Num 0)"

definition attention_item :: "(string \<Rightarrow> string) \<Rightarrow> jv \<Rightarrow> err + jv" where
  "attention_item sha item =
     bind_err (jdot ''event_id'' item) (\<lambda>eventId.
     Inr (Obj [
       (''event_id'', eventId),
       (''terminal_type'', coalesce (jget ''terminal_type'' item) Null),
       (''classification'', jget ''classification'' item),
       (''reason'', boundedText sha (jget ''reason'' item) 96)]))"

definition wake_attention :: "(string \<Rightarrow> string) \<Rightarrow> jv \<Rightarrow> err + jv" where
  "wake_attention sha wake =
     bind_err (array_of (coalesce (jget ''items'' wake) (Arr []))) (\<lambda>items.
     bind_err (map_err (attention_item sha) (take 1 items)) (\<lambda>shown.
     Inr (Obj [
       (''attention_count'', wake_count wake),
       (''queued'', coalesce (jget ''queued'' wake) (Num 0)),
       (''uncertain'', coalesce (jget ''uncertain'' wake) (Num 0)),
       (''selected_count'', coalesce (jget ''selected_count'' wake) (Num (min 1 (int_of (item_count wake))))),
       (''omitted_count'', coalesce (jget ''omitted_count'' wake) (Num (max 0 (int_of (item_count wake) - 1)))),
       (''items'', Arr shown)])))"

definition objective_text :: "jv \<Rightarrow> jv" where
  "objective_text v = (if nullish v then Null else if is_str v then v else Str (trim (canonicalJson v)))"

definition packet_objective :: "jv \<Rightarrow> jv \<Rightarrow> bool \<Rightarrow> jv \<Rightarrow> jv" where
  "packet_objective objective text complete unsatisfied = Obj [
     (''id'', coalesce (jget ''objective_id'' objective) Null),
     (''revision'', coalesce (jget ''current_revision'' objective) Null),
     (''text'', text),
     (''objective_compacted'', JBool False),
     (''complete'', JBool complete),
     (''unsatisfied_requirements'', unsatisfied)]"

definition packet_supervisor :: "jv \<Rightarrow> jv \<Rightarrow> jv" where
  "packet_supervisor supervisor state = Obj [
     (''id'', coalesce (jget ''supervisor_id'' supervisor) Null),
     (''generation'', coalesce (jget ''generation'' supervisor) Null),
     (''authority'', coalesce (jget ''authority_status'' supervisor) Null),
     (''state'', coalesce (jget ''supervisor_state'' state) Null),
     (''phase'', coalesce (jget ''phase'' state) Null)]"

definition empty_budget :: jv where
  "empty_budget = Obj [
     (''measurement'', Str ''exact serialized UTF-8 bytes and Unicode characters''),
     (''byte_ceiling'', Num (int PACKET_BYTE_CEILING)),
     (''character_ceiling'', Num (int PACKET_CHARACTER_CEILING)),
     (''packet_bytes'', Num 0),
     (''packet_characters'', Num 0)]"

record draft =
  dr_sources :: sources
  dr_situation :: situation
  dr_decision :: jv

definition build_packet ::
  "packet_env \<Rightarrow> (string \<Rightarrow> string) \<Rightarrow> string \<Rightarrow> draft \<Rightarrow> collected \<Rightarrow> err + jv" where
  "build_packet env sha root d c =
     (let so = dr_sources d; s = dr_situation d; session = sit_session s; state = so_state so in
     bind_err (deriveNextAction s) (\<lambda>nextAction.
     bind_err (compactSessionStatus session) (\<lambda>binding.
     bind_err (packet_policy (so_policy so)) (\<lambda>policy.
     bind_err (wake_attention sha (sit_wake s)) (\<lambda>attention.
     Inr (Obj [
       (''schema'', Str PACKET_SCHEMA),
       (''version'', Num 1),
       (''classification'', Str (sit_classification s)),
       (''complete_for_resume'', JBool (sit_classification s = ''complete_for_resume'')),
       (''requires_escalation'', JBool (sit_classification s \<in> {''requires_escalation'', ''contradictory''})),
       (''repository'', Str root),
       (''supervisor'', packet_supervisor (so_supervisor so) state),
       (''herdr'', compactHerdr session),
       (''session_binding'', binding),
       (''objective'', packet_objective (so_objective so) (objective_text (jget ''objective'' (so_objective_entry so)))
          (objective_complete s) (if requirement_driven s then Num (int (length (so_unsatisfied so))) else Null)),
       (''policy'', policy),
       (''pause'', coalesce (jget ''pause'' state) Null),
       (''active_work'', activeWork (sit_active s)),
       (''wake_attention'', attention),
       (''latest_relevant_decision'', dr_decision d),
       (''unresolved'', boundedText sha (jget ''latest_unresolved_issue'' state) 140),
       (''next_action'', nextAction),
       (''issues'', Arr (map Str (issue_codes (issue_records c)))),
       (''evidence'', evidence_value (collate env) sha c),
       (''budget'', empty_budget)]))))))"

definition compacted_objective :: "(string \<Rightarrow> string) \<Rightarrow> string \<Rightarrow> jv \<Rightarrow> jv \<Rightarrow> jv" where
  "compacted_objective sha root source objective = jsets [
     (''text'', boundedText sha source 120),
     (''objective_compacted'', JBool True),
     (''source_sha256'', case objective_text source of Str s \<Rightarrow> Str (sha s) | _ \<Rightarrow> Null),
     (''source_reference'', Obj [(''path'', Str (relativePath root (p_objective (paths root)))), (''selector'', Str ''current_objective'')])]
     objective"

definition compact_packet ::
  "packet_env \<Rightarrow> (string \<Rightarrow> string) \<Rightarrow> string \<Rightarrow> draft \<Rightarrow> jv \<Rightarrow> collected \<Rightarrow> err + jv" where
  "compact_packet env sha root d packet c =
     (let classification = issue_classification (issue_records c) in
     bind_err (deriveNextAction ((dr_situation d)\<lparr>sit_classification := classification\<rparr>)) (\<lambda>nextAction.
     Inr (jsets [
       (''classification'', Str classification),
       (''complete_for_resume'', JBool False),
       (''requires_escalation'', JBool True),
       (''objective'', compacted_objective sha root (jget ''objective'' (so_objective_entry (dr_sources d))) (jget ''objective'' packet)),
       (''issues'', Arr (map Str (issue_codes (issue_records c)))),
       (''evidence'', evidence_value (collate env) sha c),
       (''next_action'', nextAction)] packet)))"

section \<open>generateResumePacket\<close>

definition gather_sources :: "packet_env \<Rightarrow> string \<Rightarrow> jv \<Rightarrow> jv \<Rightarrow> draft rio" where
  "gather_sources env root givenSession givenWake =
     bind_io (read_core root) (\<lambda>core.
     bind_io (check_core_state root core) (\<lambda>so.
     let state = so_state so; supervisor = so_supervisor so; driven = truthy (so_requirements so) in
     bind_io (classifyActiveWork root state supervisor (so_objective so)) (\<lambda>work.
     bind_io (loadLatestSupervisorDecision (collate env) root state (so_objective so)) (\<lambda>latest.
     bind_io (session_status env givenSession) (\<lambda>session.
     bind_io (track_source root (bound_session_file root)) (\<lambda>_.
     bind_io (note_authoritative root (bound_session_file root)) (\<lambda>_.
     bind_io (check_session root session supervisor) (\<lambda>_.
     bind_io (summarizeWake (collate env) root supervisor state givenWake) (\<lambda>wake.
     bind_io (lift_io (spread_list (coalesce (jget ''items'' wake) (Arr [])))) (\<lambda>items.
     bind_io (map_io (check_wake_item root) items) (\<lambda>_.
     bind_io (flag root (truthy (jget ''latest_unresolved_issue'' state)) ''unresolved-supervisor-state'' ''requires_escalation''
       (p_state (paths root)) ''resume_fields'') (\<lambda>_.
     bind_io (look (\<lambda>w c. (issue_classification (issue_records c), c))) (\<lambda>classification.
     ret \<lparr>dr_sources = so,
       dr_situation = \<lparr>sit_state = state, sit_active = work, sit_wake = wake, sit_session = session,
         objective_complete = (jget ''phase'' state = Str ''COMPLETE'' \<and> (\<not> driven \<or> so_unsatisfied so = [])),
         unsatisfied_count = (if driven then length (so_unsatisfied so) else 0),
         requirement_driven = driven, sit_classification = classification\<rparr>,
       dr_decision = (if jget ''kind'' (active_decision work) = Str ''supervisor_evaluation'' then active_decision work
         else coalesce latest (active_decision work))\<rparr>)))))))))))))"

definition session_identity :: "jv \<Rightarrow> jv" where
  "session_identity session = Obj [(''session_binding_id'', coalesce (jpath [''binding'', ''binding_id''] session) Null)]"

definition fresh :: "packet_env \<Rightarrow> (string \<Rightarrow> string) \<Rightarrow> draft \<Rightarrow> collected \<Rightarrow> jv \<Rightarrow> jv" where
  "fresh env sha d c packet = applyFreshness sha packet (authorityFingerprint (collate env) sha c)
     (session_identity (sit_session (dr_situation d)))"

definition too_large :: "jv \<Rightarrow> bool" where
  "too_large packet \<longleftrightarrow> PACKET_BYTE_CEILING < byte_length (canonicalJson packet)
     \<or> PACKET_CHARACTER_CEILING < length (canonicalJson packet)"

definition from_collected :: "(collected \<Rightarrow> err + 'a) \<Rightarrow> 'a rio" where
  "from_collected f s = (f (snd s), s)"

definition size_error :: "jv \<Rightarrow> err" where
  "size_error packet = Err (''resume packet exceeds deterministic ceiling ('' @ nat_str (byte_length (canonicalJson packet))
     @ '' bytes, '' @ nat_str (length (canonicalJson packet)) @ '' characters)'')"

definition generate_packet :: "packet_env \<Rightarrow> string \<Rightarrow> jv \<Rightarrow> jv \<Rightarrow> jv rio" where
  "generate_packet env root givenSession givenWake =
     bind_io (gather_sources env root givenSession givenWake) (\<lambda>d.
     bind_io (look (\<lambda>w c. (digest w, c))) (\<lambda>sha.
     bind_io (from_collected (\<lambda>c. bind_err (build_packet env sha root d c) (\<lambda>packet.
       measurePacket (fresh env sha d c packet)))) (\<lambda>measured.
     if \<not> too_large measured then ret measured
     else
       (let code = ''objective-text-requires-bounded-escalation'' in
       bind_io (issue code ''requires_escalation'') (\<lambda>_.
       bind_io (escalate root (p_objective (paths root)) ''current_objective'' code) (\<lambda>_.
       bind_io (from_collected (\<lambda>c. bind_err (compact_packet env sha root d measured c) (\<lambda>packet.
         measurePacket (fresh env sha d c packet)))) (\<lambda>compacted.
       guard_io (too_large compacted) (size_error compacted) (ret compacted))))))))"

definition telemetry_record :: "packet_env \<Rightarrow> string \<Rightarrow> jv \<Rightarrow> collected \<Rightarrow> jv" where
  "telemetry_record env t packet c =
     (let durable = sum_list (map (\<lambda>ps. src_bytes (snd ps)) (considered c)); text = canonicalJson packet in
     Obj [
       (''schema'', Str ''opsle.durable-supervisor.reconstruction-telemetry/v1''),
       (''generated_at'', Str t),
       (''duration_ms'', elapsed_ms env),
       (''packet_schema'', Str PACKET_SCHEMA),
       (''packet_version'', Num 1),
       (''durable_state_bytes_considered'', Num (int durable)),
       (''durable_source_files_considered'', Arr (map Str (sort (map (\<lambda>ps. src_path (snd ps)) (considered c))))),
       (''packet_bytes'', Num (int (byte_length text))),
       (''packet_characters'', Num (int (length text))),
       (''byte_suppression_ratio'', if durable = 0 then Num 0 else suppression env (byte_length text) durable),
       (''evidence_reference_count'', Num (int_of (jpath [''evidence'', ''authoritative'', ''count''] packet)
          + int (length (elems (jpath [''evidence'', ''escalation''] packet))))),
       (''escalation'', jget ''requires_escalation'' packet)])"

definition persist_packet :: "string \<Rightarrow> bool \<Rightarrow> jv \<Rightarrow> jv \<Rightarrow> unit wio" where
  "persist_packet root persist packet telemetry =
     (if \<not> persist then ret ()
      else
        bind_io (writeJson (p_resumePacket (paths root)) packet) (\<lambda>_.
        writeJson (p_reconstructionTelemetry (paths root)) telemetry))"

definition verified_packet :: "packet_env \<Rightarrow> string \<Rightarrow> bool \<Rightarrow> jv \<Rightarrow> jv \<Rightarrow> (jv \<times> jv) rio" where
  "verified_packet env root persist givenSession givenWake =
     bind_io (generate_packet env root givenSession givenWake) (\<lambda>packet.
     bind_io verifyUnchanged (\<lambda>_.
     bind_io (on_disk now) (\<lambda>t.
     bind_io (look (\<lambda>w c. (telemetry_record env t packet c, c))) (\<lambda>telemetry.
     bind_io (on_disk (persist_packet root persist packet telemetry)) (\<lambda>_.
     ret (packet, telemetry))))))"

text \<open>Every run starts with empty collectors; the serialized packet is \<open>canonicalJson\<close> of the one returned.\<close>

definition generateResumePacket :: "packet_env \<Rightarrow> string \<Rightarrow> bool \<Rightarrow> jv \<Rightarrow> jv \<Rightarrow> (jv \<times> jv) wio" where
  "generateResumePacket env root persist givenSession givenWake w =
     (case verified_packet env root persist givenSession givenWake (w, nothing_collected) of (r, s) \<Rightarrow> (r, fst s))"

section \<open>Reading a packet and its evidence\<close>

text \<open>\<open>JSON.parse(readFileSync(p))\<close>; a parse failure is a \<open>SyntaxError\<close>.\<close>

definition readParsed :: "string \<Rightarrow> jv wio" where
  "readParsed p = bind_io (readFile p) (\<lambda>b. lift_io (case jparse b of
     None \<Rightarrow> Inl (Err (''malformed JSON: '' @ p)) | Some v \<Rightarrow> Inr v))"

definition readResumePacket :: "packet_env \<Rightarrow> string \<Rightarrow> bool \<Rightarrow> jv \<Rightarrow> jv \<Rightarrow> jv wio" where
  "readResumePacket env root verifyFreshness givenSession givenWake =
     bind_io (readParsed (p_resumePacket (paths root))) (\<lambda>packet.
     guard_io (jget ''schema'' packet \<noteq> Str PACKET_SCHEMA) (Err ''unsupported resume packet schema'') (
     if verifyFreshness \<and> truthy (jget ''complete_for_resume'' packet) then
       guard_io (jpath [''freshness'', ''schema''] packet \<noteq> Str ''opsle.durable-supervisor.resume-freshness/v1''
           \<or> \<not> is_str (jpath [''freshness'', ''authority_sha256''] packet))
         (Err ''complete resume packet lacks a freshness fence; regenerate it'') (
       bind_io (generateResumePacket env root False givenSession givenWake) (\<lambda>current.
       if jpath [''freshness'', ''authority_sha256''] (fst current) \<noteq> jpath [''freshness'', ''authority_sha256''] packet then
         bind_io (persist_packet root True (fst current) (snd current)) (\<lambda>_. ret (fst current))
       else ret packet))
     else ret packet))"

definition readResumeEvidence :: "packet_env \<Rightarrow> string \<Rightarrow> string \<Rightarrow> jv wio" where
  "readResumeEvidence env root referencePath =
     bind_io (readResumePacket env root True Null Null) (\<lambda>packet.
     bind_io (lift_io (find_by ''path'' (Str referencePath) (jpath [''evidence'', ''escalation''] packet))) (\<lambda>reference.
     guard_io (\<not> truthy reference) (Err ''evidence path is not selected by the current resume packet'') (
     let path = str_of (jget ''path'' reference); absolute = resolve_path root path; selector = js_string (jget ''selector'' reference) in
     guard_io (starts_with ''/'' path \<or> \<not> starts_with (resolve_path root [] @ ''/'') absolute)
       (Err ''evidence reference escapes repository'') (
     bind_io (existsSync absolute) (\<lambda>there.
     guard_io (\<not> there) (Coded ''ENOENT'' (''no such file: '' @ absolute)) (
     guard_io (\<not> is_regular env absolute) (Err ''evidence reference is not a regular file'') (
     bind_io (readFile absolute) (\<lambda>raw.
     bind_io (readParsed absolute) (\<lambda>v.
     bind_io (lift_io (selectedEvidence v selector)) (\<lambda>selected.
     bind_io (sha256 (canonicalJson selected)) (\<lambda>h.
     guard_io (jget ''sha256'' reference \<noteq> Str h) (Err ''selected evidence changed since reconstruction'') (
     guard_io (EVIDENCE_OUTPUT_BYTE_CEILING < byte_length (canonicalJson selected))
       (Err ''selected evidence exceeds bounded output ceiling'') (
     ret (Obj [
       (''reference'', reference),
       (''source_bytes'', Num (int (byte_length raw))),
       (''selected_bytes'', Num (int (byte_length (canonicalJson selected)))),
       (''evidence'', selected)]))))))))))))))"

section \<open>The size of a packet\<close>

lemma canonicalJson_not_empty: "canonicalJson v \<noteq> []"
  by (simp add: canonicalJson_def)

definition measured :: "jv \<Rightarrow> bool" where
  "measured packet \<longleftrightarrow> jpath [''budget'', ''packet_bytes''] packet = Num (int (byte_length (canonicalJson packet)))
     \<and> jpath [''budget'', ''packet_characters''] packet = Num (int (length (canonicalJson packet)))"

lemma with_budget_fields:
  "jpath [''budget'', ''packet_bytes''] (with_budget b n packet) = Num (int b)"
  "jpath [''budget'', ''packet_characters''] (with_budget b n packet) = Num (int n)"
  by (simp_all add: with_budget_def)

lemma measure_loop_measured:
  "measure_loop n prior packet = Inr m \<Longrightarrow> prior = [] \<or> prior = canonicalJson packet \<Longrightarrow> measured m"
proof (induction n prior packet rule: measure_loop.induct)
  case (2 n prior packet)
  let ?s = "canonicalJson packet" let ?m = "with_budget (byte_length ?s) (length ?s) packet"
  show ?case
  proof (cases "canonicalJson ?m = prior \<or> canonicalJson ?m = ?s")
    case True
    then have "canonicalJson ?m = ?s" using 2(3) canonicalJson_not_empty [of ?m] by auto
    moreover have "m = ?m" using 2(2) True by (simp add: Let_def)
    ultimately show ?thesis by (simp add: measured_def with_budget_fields del: jpath.simps)
  next
    case False
    then have "measure_loop n (canonicalJson ?m) ?m = Inr m" using 2(2) by (simp add: Let_def)
    then show ?thesis using 2(1) [OF refl refl refl False] by simp
  qed
qed simp

lemma measurePacket_measured: "measurePacket packet = Inr m \<Longrightarrow> measured m"
  unfolding measurePacket_def by (erule measure_loop_measured) (rule disjI1, rule refl)

lemma from_collected_Inr: "from_collected f s = (Inr x, s') \<longleftrightarrow> f (snd s) = Inr x \<and> s' = s"
  by (auto simp: from_collected_def)

lemma generate_packet_result:
  assumes "generate_packet env root sess wake s = (Inr packet, s')"
  shows "measured packet \<and> \<not> too_large packet"
  using assms unfolding generate_packet_def
proof (elim bind_io_InrE)
  fix m s1 s2 s3 d sha
  assume m: "from_collected (\<lambda>c. bind_err (build_packet env sha root d c) (\<lambda>packet. measurePacket (fresh env sha d c packet))) s1 = (Inr m, s2)"
    and rest: "(if \<not> too_large m then ret m
      else let code = ''objective-text-requires-bounded-escalation'' in bind_io (issue code ''requires_escalation'') (\<lambda>_.
        bind_io (escalate root (p_objective (paths root)) ''current_objective'' code) (\<lambda>_.
        bind_io (from_collected (\<lambda>c. bind_err (compact_packet env sha root d m c) (\<lambda>packet. measurePacket (fresh env sha d c packet))))
          (\<lambda>compacted. guard_io (too_large compacted) (size_error compacted) (ret compacted))))) s2 = (Inr packet, s')"
  show ?thesis
  proof (cases "too_large m")
    case False
    then show ?thesis using m rest by (auto simp: from_collected_Inr bind_err_eq_Inr measurePacket_measured)
  next
    case True
    then show ?thesis using rest
      by (auto simp: Let_def from_collected_Inr bind_err_eq_Inr guard_io_eq_Inr dest: measurePacket_measured elim!: bind_io_InrE)
  qed
qed

lemma verified_packet_result:
  assumes "verified_packet env root persist sess wake s = (Inr (packet, telemetry), s')"
  shows "measured packet \<and> \<not> too_large packet
    \<and> (\<exists>w1. persist_packet root persist packet telemetry w1 = (Inr (), fst s'))"
  using assms unfolding verified_packet_def
proof (elim bind_io_InrE)
  fix p1 s1 s2 s3 s4 s5 t tele and u1 u2 :: unit
  assume g: "generate_packet env root sess wake s = (Inr p1, s1)"
    and l: "look (\<lambda>w c. (telemetry_record env t p1 c, c)) s3 = (Inr tele, s4)"
    and d: "on_disk (persist_packet root persist p1 tele) s4 = (Inr u2, s5)"
    and r: "ret (p1, tele) s5 = (Inr (packet, telemetry), s')"
  from r have "p1 = packet" "tele = telemetry" "s5 = s'" by simp_all
  with d generate_packet_result [OF g] show ?thesis by (auto simp: on_disk_def split: prod.splits)
qed

lemma persisted:
  assumes "persist_packet root True packet telemetry w = (Inr (), w')"
  shows "bytes_at w' (p_resumePacket (paths root)) = Some (canonicalJson packet)"
  using assms by (auto simp: persist_packet_def writeJson_def atomicWrite_def bind_io_def paths_def)

text \<open>C17: a resume packet is bounded and tells its own size: when \<open>generateResumePacket\<close> returns, the serialized packet
  has at most 4000 UTF-8 bytes and 4000 characters, the two numbers in its budget are exactly its bytes and its
  characters, and when it is persisted these bytes are what is on disk.\<close>

theorem resume_packet_is_bounded:
  assumes "generateResumePacket env root persist sess wake w = (Inr (packet, telemetry), w')"
  shows "byte_length (canonicalJson packet) \<le> 4000 \<and> length (canonicalJson packet) \<le> 4000
    \<and> jpath [''budget'', ''packet_bytes''] packet = Num (int (byte_length (canonicalJson packet)))
    \<and> jpath [''budget'', ''packet_characters''] packet = Num (int (length (canonicalJson packet)))
    \<and> (persist \<longrightarrow> bytes_at w' (p_resumePacket (paths root)) = Some (canonicalJson packet))"
proof -
  obtain s' where v: "verified_packet env root persist sess wake (w, nothing_collected) = (Inr (packet, telemetry), s')" "w' = fst s'"
    using assms by (auto simp: generateResumePacket_def split: prod.splits)
  from verified_packet_result [OF v(1)] obtain w1 where m: "measured packet" "\<not> too_large packet"
    and p: "persist_packet root persist packet telemetry w1 = (Inr (), fst s')" by blast
  have "persist \<Longrightarrow> bytes_at w' (p_resumePacket (paths root)) = Some (canonicalJson packet)"
    using persisted [of root packet telemetry w1 w'] p v(2) by simp
  moreover have "byte_length (canonicalJson packet) \<le> 4000" "length (canonicalJson packet) \<le> 4000"
    using m(2) by (simp_all add: too_large_def PACKET_BYTE_CEILING_def PACKET_CHARACTER_CEILING_def)
  ultimately show ?thesis using m(1) unfolding measured_def by blast
qed

end
