(* ===== verification/Measure.thy ===== *)
theory Measure imports Packet begin

text \<open>
  The measuring loop of a resume packet converges: the size of a canonical object depends on the two
  size fields only through their numbers of digits, and these settle within the twelve rounds of the code.
\<close>

section \<open>The weight of canonical JSON\<close>

definition weigh :: "(char \<Rightarrow> nat) \<Rightarrow> string \<Rightarrow> nat" where
  "weigh f s = sum_list (map f s)"

lemma weigh_simps [simp]: "weigh f [] = 0" "weigh f (c # s) = f c + weigh f s" "weigh f (s @ t) = weigh f s + weigh f t"
  by (simp_all add: weigh_def)

lemma byte_length_weigh: "byte_length = weigh byte_weight"
  by (simp add: byte_length_def weigh_def fun_eq_iff)

lemma length_weigh: "length s = weigh (\<lambda>_. 1) s"
  by (induction s) simp_all

definition text_of :: "jv \<Rightarrow> string" where
  "text_of v = the (ser (canonicalize v))"

definition entry_of :: "string \<times> jv \<Rightarrow> string" where
  "entry_of kv = quote (fst kv) @ CHR '':'' # text_of (snd kv)"

definition present :: "(string \<times> jv) list \<Rightarrow> (string \<times> jv) list" where
  "present kvs = filter (\<lambda>kv. snd kv \<noteq> Undef) kvs"

lemma ser_canonical: "ser (canonicalize v) = (if v = Undef then None else Some (text_of v))"
  by (cases v) (simp_all add: text_of_def)

lemma canonicalJson_split: "v \<noteq> Undef \<Longrightarrow> canonicalJson v = text_of v @ [CHR 0x0A]"
  by (simp add: canonicalJson_def ser_canonical)

lemma weigh_join: "weigh f (join_with '','' xs) = sum_list (map (weigh f) xs) + f CHR '','' * (length xs - 1)"
  by (induction xs rule: induct_list012) (simp_all add: join_with_Cons)

lemma object_entries:
  "text_of (Obj kvs) = CHR ''{'' # join_with '','' (map entry_of (present (sort_key fst kvs))) @ ''}''"
proof -
  let ?c = "\<lambda>kv :: string \<times> jv. (fst kv, canonicalize (snd kv))"
  have m: "sort_key fst (map ?c kvs) = map ?c (sort_key fst kvs)"
    by (rule sort_key_map [where h = fst]) simp
  have "concat (map (\<lambda>kv. case ser (snd kv) of None \<Rightarrow> [] | Some s \<Rightarrow> [quote (fst kv) @ CHR '':'' # s]) (map ?c xs))
      = map entry_of (present xs)" for xs
    by (induction xs) (simp_all add: ser_canonical entry_of_def present_def)
  then show ?thesis by (simp add: text_of_def m)
qed

lemma sum_sorted: "sum_list (map g (present (sort_key fst kvs))) = (sum_list (map g (present kvs)) :: nat)"
proof -
  have "mset (present (sort_key fst kvs)) = mset (present kvs)" by (simp add: present_def)
  then have "mset (map g (present (sort_key fst kvs))) = mset (map g (present kvs))" by simp
  then show ?thesis by (metis sum_mset_sum_list)
qed

lemma length_sorted: "length (present (sort_key fst kvs)) = length (present kvs)"
proof -
  have "mset (present (sort_key fst kvs)) = mset (present kvs)" by (simp add: present_def)
  then show ?thesis by (metis size_mset)
qed

lemma weigh_object:
  "weigh f (text_of (Obj kvs)) = f CHR ''{'' + sum_list (map (\<lambda>kv. weigh f (entry_of kv)) (present kvs))
     + f CHR '','' * (length (present kvs) - 1) + f CHR ''}''"
  by (simp add: object_entries weigh_join comp_def sum_sorted length_sorted)

lemma update_weight:
  assumes "map_of kvs k = Some u" "u \<noteq> Undef" "v \<noteq> Undef"
  shows "sum_list (map (\<lambda>kv. weigh f (entry_of kv)) (present (AList.update k v kvs))) + weigh f (text_of u)
      = sum_list (map (\<lambda>kv. weigh f (entry_of kv)) (present kvs)) + weigh f (text_of v)"
    "length (present (AList.update k v kvs)) = length (present kvs)"
proof -
  show "sum_list (map (\<lambda>kv. weigh f (entry_of kv)) (present (AList.update k v kvs))) + weigh f (text_of u)
      = sum_list (map (\<lambda>kv. weigh f (entry_of kv)) (present kvs)) + weigh f (text_of v)"
    using assms by (induction kvs) (auto simp: present_def entry_of_def split: if_splits)
  show "length (present (AList.update k v kvs)) = length (present kvs)"
    using assms by (induction kvs) (auto simp: present_def split: if_splits)
qed

lemma weigh_jset:
  assumes "jget k o1 = u" "is_obj o1" "u \<noteq> Undef" "v \<noteq> Undef"
  shows "weigh f (text_of (jset k v o1)) + weigh f (text_of u) = weigh f (text_of o1) + weigh f (text_of v)"
proof -
  from assms(2) obtain kvs where o1: "o1 = Obj kvs" by (cases o1) auto
  with assms have "map_of kvs k = Some u" by (auto split: option.splits)
  from update_weight [OF this assms(3,4)] show ?thesis by (simp add: o1 weigh_object)
qed

section \<open>Numbers\<close>

abbreviation digit_count :: "nat \<Rightarrow> nat" where
  "digit_count n \<equiv> length (nat_str n)"

lemma weigh_digits: "\<forall>c. is_digit c \<longrightarrow> f c = 1 \<Longrightarrow> list_all is_digit s \<Longrightarrow> weigh f s = length s"
  by (induction s) simp_all

lemma weigh_number: "\<forall>c. is_digit c \<longrightarrow> f c = 1 \<Longrightarrow> weigh f (text_of (Num (int n))) = digit_count n"
  by (simp add: text_of_def int_str_def weigh_digits nat_str_digits)

lemma digits_mono: "m \<le> n \<Longrightarrow> digit_count m \<le> digit_count n"
proof (induction n arbitrary: m rule: nat_str.induct)
  case (1 n)
  show ?case
  proof (cases "m < 10")
    case True
    then show ?thesis using nat_str_ne [of n] by (subst nat_str.simps [of m]) (cases "nat_str n", simp_all)
  next
    case False
    then have "\<not> n < 10" "m div 10 \<le> n div 10" using 1(2) by (auto intro: div_le_mono)
    then show ?thesis using 1(1) False by (simp add: nat_str.simps [of m] nat_str.simps [of n])
  qed
qed

lemma digits_bound: "n < 10 ^ Suc k \<Longrightarrow> digit_count n \<le> Suc k"
proof (induction k arbitrary: n)
  case 0
  then show ?case by (simp add: nat_str.simps [of n])
next
  case (Suc k)
  then have "n div 10 < 10 ^ Suc k" by (simp add: less_mult_imp_div_less)
  with Suc.IH [of "n div 10"] show ?case by (subst nat_str.simps [of n]) simp
qed

lemma digits_pos: "1 \<le> digit_count n"
  by (cases "nat_str n") (use nat_str_ne [of n] in auto)

section \<open>The budget of a packet\<close>

definition shape :: "jv \<Rightarrow> nat \<Rightarrow> nat \<Rightarrow> bool" where
  "shape P x y \<longleftrightarrow> is_obj P \<and> is_obj (jget ''budget'' P)
     \<and> jpath [''budget'', ''packet_bytes''] P = Num (int x) \<and> jpath [''budget'', ''packet_characters''] P = Num (int y)"

lemma shape_with_budget: "shape P x y \<Longrightarrow> shape (with_budget x' y' P) x' y'"
  by (simp add: shape_def with_budget_def)

lemma weigh_budget:
  assumes "shape P x y" "\<forall>c. is_digit c \<longrightarrow> f c = 1"
  shows "weigh f (canonicalJson (with_budget x' y' P)) + digit_count x + digit_count y = weigh f (canonicalJson P) + digit_count x' + digit_count y'"
proof -
  let ?B = "jget ''budget'' P"
  let ?B1 = "jset ''packet_bytes'' (Num (int x')) ?B" let ?B2 = "jset ''packet_characters'' (Num (int y')) ?B1"
  from assms(1) have p: "is_obj P" "is_obj ?B" "jget ''packet_bytes'' ?B = Num (int x)" "jget ''packet_characters'' ?B = Num (int y)"
    by (simp_all add: shape_def)
  have u: "?B \<noteq> Undef" "P \<noteq> Undef" using p(1,2) by auto
  have "weigh f (text_of ?B1) + digit_count x = weigh f (text_of ?B) + digit_count x'"
    using weigh_jset [OF p(3,2), of "Num (int x')" f] by (simp add: weigh_number assms(2))
  moreover have "weigh f (text_of ?B2) + digit_count y = weigh f (text_of ?B1) + digit_count y'"
    using weigh_jset [of "''packet_characters''" ?B1 "Num (int y)" "Num (int y')" f] p by (simp add: weigh_number assms(2))
  moreover have "weigh f (text_of (jset ''budget'' ?B2 P)) + weigh f (text_of ?B) = weigh f (text_of P) + weigh f (text_of ?B2)"
    by (rule weigh_jset [OF refl p(1) u(1)]) simp
  ultimately show ?thesis by (simp add: with_budget_def canonicalJson_split u)
qed

lemma digit_weights: "\<forall>c. is_digit c \<longrightarrow> byte_weight c = 1" "\<forall>c. is_digit c \<longrightarrow> (\<lambda>_. 1 :: nat) c = 1"
  by (auto simp: is_digit_def byte_weight_def)

lemma sizes_with_budget:
  assumes "shape P x y"
  shows "byte_length (canonicalJson (with_budget x' y' P)) + (digit_count x + digit_count y)
      = byte_length (canonicalJson P) + (digit_count x' + digit_count y')"
    "length (canonicalJson (with_budget x' y' P)) + (digit_count x + digit_count y) = length (canonicalJson P) + (digit_count x' + digit_count y')"
  using weigh_budget [OF assms digit_weights(1), of x' y'] weigh_budget [OF assms digit_weights(2), of x' y']
  by (simp_all add: byte_length_weigh length_weigh)

lemma jset_twice: "jset k v (jset k u o1) = jset k v o1"
  by (cases o1) simp_all

lemma update_same: "map_of kvs k = Some v \<Longrightarrow> AList.update k v kvs = kvs"
  by (induction kvs) (auto split: if_splits)

lemma jset_same: "is_obj o1 \<Longrightarrow> jget k o1 = v \<Longrightarrow> v \<noteq> Undef \<Longrightarrow> jset k v o1 = o1"
  by (cases o1) (auto simp: update_same split: option.splits)

lemma with_budget_same: "shape P x y \<Longrightarrow> with_budget x y P = P"
  by (auto simp: shape_def with_budget_def jset_same intro!: jset_same)

section \<open>Convergence\<close>

text \<open>A round whose numbers of digits did not change is followed by the last one.\<close>

lemma settled_round:
  assumes "shape P x y" "byte_length (canonicalJson P) = x'" "length (canonicalJson P) = y'"
    and "digit_count x' + digit_count y' = digit_count x + digit_count y" "0 < n"
  shows "measure_loop n prior (with_budget x' y' P) = Inr (with_budget x' y' P)"
proof -
  let ?M = "with_budget x' y' P"
  have "byte_length (canonicalJson ?M) = x'" "length (canonicalJson ?M) = y'"
    using sizes_with_budget [OF assms(1), of x' y'] assms(2-4) by simp_all
  then have "with_budget (byte_length (canonicalJson ?M)) (length (canonicalJson ?M)) ?M = ?M"
    by (simp only: with_budget_same [OF shape_with_budget [OF assms(1)]])
  then show ?thesis using assms(5) by (cases n) (simp_all add: Let_def)
qed

definition fits :: "nat \<Rightarrow> nat \<Rightarrow> nat \<Rightarrow> bool" where
  "fits x' y' D \<longleftrightarrow> x' + 12 < 10 ^ 6 + D \<and> y' + 12 < 10 ^ 6 + D \<and> D \<le> 12"

lemma fits_digits: "fits x y D \<Longrightarrow> digit_count x + digit_count y \<le> 12"
  using digits_bound [of x 5] digits_bound [of y 5] by (simp add: fits_def)

lemma fits_next:
  assumes "shape P x y" "fits (byte_length (canonicalJson P)) (length (canonicalJson P)) (digit_count x + digit_count y)"
    and "x' = byte_length (canonicalJson P)" "y' = length (canonicalJson P)"
  shows "fits (byte_length (canonicalJson (with_budget x' y' P))) (length (canonicalJson (with_budget x' y' P))) (digit_count x' + digit_count y')"
  using sizes_with_budget [OF assms(1), of x' y'] assms(2-4) fits_digits [OF assms(2)] by (simp add: fits_def)

text \<open>The numbers of digits move in one direction: \<open>up\<close> when the packet grows, down when it shrinks.\<close>

definition bounded_growth :: "jv \<Rightarrow> nat \<Rightarrow> jv \<Rightarrow> bool" where
  "bounded_growth P D m \<longleftrightarrow> byte_length (canonicalJson m) + D \<le> byte_length (canonicalJson P) + 12
     \<and> length (canonicalJson m) + D \<le> length (canonicalJson P) + 12"

lemma growth_step:
  assumes "shape P x y" "bounded_growth (with_budget x' y' P) (digit_count x' + digit_count y') m"
  shows "bounded_growth P (digit_count x + digit_count y) m"
  using sizes_with_budget [OF assms(1), of x' y'] assms(2) by (simp add: bounded_growth_def)

lemma growth_once:
  assumes "shape P x y" "digit_count x' + digit_count y' \<le> 12"
  shows "bounded_growth P (digit_count x + digit_count y) (with_budget x' y' P)"
  using sizes_with_budget [OF assms(1), of x' y'] assms(2) by (simp add: bounded_growth_def)

lemma measure_round:
  fixes P x y
  defines "x' \<equiv> byte_length (canonicalJson P)" and "y' \<equiv> length (canonicalJson P)"
  assumes "shape P x y" "fits x' y' (digit_count x + digit_count y)" "0 < n"
    and "digit_count x' + digit_count y' \<noteq> digit_count x + digit_count y \<Longrightarrow> \<exists>m. measure_loop n (canonicalJson (with_budget x' y' P)) (with_budget x' y' P)
      = Inr m \<and> bounded_growth (with_budget x' y' P) (digit_count x' + digit_count y') m"
  shows "\<exists>m. measure_loop (Suc n) prior P = Inr m \<and> bounded_growth P (digit_count x + digit_count y) m"
proof -
  let ?M = "with_budget x' y' P"
  have once: "bounded_growth P (digit_count x + digit_count y) ?M"
    by (rule growth_once [OF assms(3) fits_digits [OF assms(4)]])
  consider (stop) "measure_loop (Suc n) prior P = Inr ?M"
    | (go) "measure_loop (Suc n) prior P = measure_loop n (canonicalJson ?M) ?M"
    by (cases "canonicalJson ?M = prior \<or> canonicalJson ?M = canonicalJson P") (simp_all add: Let_def x'_def y'_def)
  then show ?thesis
  proof cases
    case go
    show ?thesis
    proof (cases "digit_count x' + digit_count y' = digit_count x + digit_count y")
      case True
      from settled_round [OF assms(3) x'_def [THEN meta_eq_to_obj_eq, symmetric] y'_def [THEN meta_eq_to_obj_eq, symmetric] True assms(5)] go once show ?thesis by metis
    next
      case False
      from assms(6) [OF this] show ?thesis using go growth_step [OF assms(3)] by metis
    qed
  qed (use once in blast)
qed

lemma measure_up:
  assumes "shape P x y" "fits (byte_length (canonicalJson P)) (length (canonicalJson P)) (digit_count x + digit_count y)"
    and "digit_count x + digit_count y \<le> digit_count (byte_length (canonicalJson P)) + digit_count (length (canonicalJson P))"
    and "14 \<le> n + (digit_count x + digit_count y)"
  shows "\<exists>m. measure_loop n prior P = Inr m \<and> bounded_growth P (digit_count x + digit_count y) m"
  using assms
proof (induction n arbitrary: prior P x y)
  case (Suc n)
  define x' y' where xy: "x' = byte_length (canonicalJson P)" "y' = length (canonicalJson P)"
  let ?M = "with_budget x' y' P"
  have "0 < n" using Suc.prems(2,4) by (simp add: fits_def)
  show ?case
  proof (rule measure_round [OF Suc.prems(1,2) \<open>0 < n\<close>, folded xy])
    assume "digit_count x' + digit_count y' \<noteq> digit_count x + digit_count y"
    then have more: "digit_count x + digit_count y < digit_count x' + digit_count y'" using Suc.prems(3) xy by simp
    have "x' \<le> byte_length (canonicalJson ?M)" "y' \<le> length (canonicalJson ?M)"
      using sizes_with_budget [OF Suc.prems(1), of x' y'] more xy by simp_all
    from add_mono [OF this [THEN digits_mono]]
    show "\<exists>m. measure_loop n (canonicalJson ?M) ?M = Inr m \<and> bounded_growth ?M (digit_count x' + digit_count y') m"
      using Suc.IH [OF shape_with_budget [OF Suc.prems(1)] fits_next [OF Suc.prems(1,2) xy]] more Suc.prems(4) by simp
  qed
qed (simp add: fits_def)

lemma measure_down:
  assumes "shape P x y" "fits (byte_length (canonicalJson P)) (length (canonicalJson P)) (digit_count x + digit_count y)"
    and "digit_count (byte_length (canonicalJson P)) + digit_count (length (canonicalJson P)) \<le> digit_count x + digit_count y"
    and "digit_count x + digit_count y \<le> n"
  shows "\<exists>m. measure_loop n prior P = Inr m \<and> bounded_growth P (digit_count x + digit_count y) m"
  using assms
proof (induction n arbitrary: prior P x y)
  case 0
  then show ?case using digits_pos [of x] by simp
next
  case (Suc n)
  define x' y' where xy: "x' = byte_length (canonicalJson P)" "y' = length (canonicalJson P)"
  let ?M = "with_budget x' y' P"
  have "0 < n" using Suc.prems(4) digits_pos [of x] digits_pos [of y] by simp
  show ?case
  proof (rule measure_round [OF Suc.prems(1,2) \<open>0 < n\<close>, folded xy])
    assume "digit_count x' + digit_count y' \<noteq> digit_count x + digit_count y"
    then have less: "digit_count x' + digit_count y' < digit_count x + digit_count y" using Suc.prems(3) xy by simp
    have "byte_length (canonicalJson ?M) \<le> x'" "length (canonicalJson ?M) \<le> y'"
      using sizes_with_budget [OF Suc.prems(1), of x' y'] less xy by simp_all
    from add_mono [OF this [THEN digits_mono]]
    show "\<exists>m. measure_loop n (canonicalJson ?M) ?M = Inr m \<and> bounded_growth ?M (digit_count x' + digit_count y') m"
      using Suc.IH [OF shape_with_budget [OF Suc.prems(1)] fits_next [OF Suc.prems(1,2) xy]] less Suc.prems(4) by simp
  qed
qed

lemma length_le_bytes: "length s \<le> byte_length s"
  by (induction s) (auto simp: byte_length_def byte_weight_def)

lemma converges:
  assumes "is_obj packet" "is_obj (jget ''budget'' packet)"
    and "jpath [''budget'', ''packet_bytes''] packet = Num (int x)" "jpath [''budget'', ''packet_characters''] packet = Num (int y)"
    and "x < 1000000" "y < 1000000" "byte_length (canonicalJson packet) < 999000"
  shows "\<exists>m. measurePacket packet = Inr m
    \<and> jpath [''budget'', ''packet_bytes''] m = Num (int (byte_length (canonicalJson m)))
    \<and> jpath [''budget'', ''packet_characters''] m = Num (int (length (canonicalJson m)))
    \<and> byte_length (canonicalJson m) \<le> byte_length (canonicalJson packet) + 12"
proof -
  let ?D = "digit_count x + digit_count y"
  have s: "shape packet x y" using assms(1-4) by (simp add: shape_def)
  have d: "?D \<le> 12" using digits_bound [of x 5] digits_bound [of y 5] assms(5,6) by simp
  have f: "fits (byte_length (canonicalJson packet)) (length (canonicalJson packet)) ?D"
    using assms(7) length_le_bytes [of "canonicalJson packet"] d by (simp add: fits_def)
  have "\<exists>m. measure_loop 12 [] packet = Inr m \<and> bounded_growth packet ?D m"
  proof (cases "?D \<le> digit_count (byte_length (canonicalJson packet)) + digit_count (length (canonicalJson packet))")
    case True
    then show ?thesis using measure_up [OF s f, of 12 "[]"] digits_pos [of x] digits_pos [of y] by simp
  next
    case False
    then show ?thesis using measure_down [OF s f, of 12 "[]"] d by simp
  qed
  then obtain m where m: "measurePacket packet = Inr m" "bounded_growth packet ?D m" by (auto simp: measurePacket_def)
  from measurePacket_measured [OF m(1)] m show ?thesis unfolding measured_def bounded_growth_def by auto
qed


section \<open>A packet that is small enough is returned\<close>

text \<open>A bound on the size of canonical JSON that is quick to compute: twice the characters of its strings.\<close>

fun plain_char :: "char \<Rightarrow> bool" where
  "plain_char (Char b0 b1 b2 b3 b4 b5 b6 b7) \<longleftrightarrow> b5 \<or> b6 \<or> b7"

fun json_plain :: "jv \<Rightarrow> bool" where
  "json_plain (Str s) = list_all plain_char s"
| "json_plain (Arr xs) = list_all json_plain xs"
| "json_plain (Obj kvs) = list_all (\<lambda>kv. list_all plain_char (fst kv) \<and> json_plain (snd kv)) kvs"
| "json_plain v = (v \<noteq> Undef)"

fun json_bound :: "jv \<Rightarrow> nat" where
  "json_bound (Num n) = length (int_str n)"
| "json_bound (Str s) = 2 * length s + 2"
| "json_bound (Arr xs) = 2 + sum_list (map (\<lambda>x. json_bound x + 1) xs)"
| "json_bound (Obj kvs) = 2 + sum_list (map (\<lambda>kv. 2 * length (fst kv) + json_bound (snd kv) + 4) kvs)"
| "json_bound v = 5"

lemma plain_weight: "plain_char c \<Longrightarrow> weigh byte_weight (esc_char c) \<le> 2"
proof -
  assume p: "plain_char c"
  obtain b0 b1 b2 b3 b4 b5 b6 b7 where c: "c = Char b0 b1 b2 b3 b4 b5 b6 b7" by (cases c)
  with p have "\<not> of_char c < (32 :: nat)" by (auto simp: of_char_def split: if_splits)
  moreover have "byte_weight d \<le> 2" for d by (simp add: byte_weight_def)
  ultimately show ?thesis by (simp add: esc_char_def byte_weight_def)
qed

lemma byte_weight_ascii [simp]: "byte_weight (Char b0 b1 b2 b3 b4 b5 b6 False) = 1"
  by (simp add: byte_weight_def)

lemma quote_weight: "list_all plain_char s \<Longrightarrow> weigh byte_weight (quote s) \<le> 2 * length s + 2"
proof -
  have "list_all plain_char s \<Longrightarrow> weigh byte_weight (concat (map esc_char s)) \<le> 2 * length s"
    by (induction s) (auto dest!: plain_weight)
  then show "list_all plain_char s \<Longrightarrow> ?thesis" by (simp add: quote_def byte_weight_def)
qed

lemma plain_present: "json_plain v \<Longrightarrow> v \<noteq> Undef"
  by (cases v) simp_all

lemma weigh_array:
  assumes "list_all json_plain xs"
  shows "weigh f (text_of (Arr xs)) = f CHR ''['' + sum_list (map (\<lambda>x. weigh f (text_of x)) xs) + f CHR '','' * (length xs - 1) + f CHR '']''"
proof -
  have m: "map (\<lambda>x. case ser x of None \<Rightarrow> ''null'' | Some s \<Rightarrow> s) (map canonicalize xs) = map text_of xs"
    using assms by (induction xs) (auto simp: ser_canonical dest: plain_present)
  have "text_of (Arr xs) = ''['' @ join_with '','' (map text_of xs) @ '']''"
    unfolding text_of_def [of "Arr xs"] canonicalize.simps ser.simps by (simp only: m option.sel)
  then show ?thesis by (simp add: weigh_join comp_def)
qed

lemma number_weight: "list_all (\<lambda>c. is_digit c \<or> c = CHR ''-'') s \<Longrightarrow> weigh byte_weight s \<le> length s"
  by (induction s) (auto simp: digit_weights)

lemma int_weight: "weigh byte_weight (int_str n) \<le> length (int_str n)"
  by (rule number_weight) (use nat_str_digits [of "nat n"] nat_str_digits [of "nat (- n)"] in \<open>auto simp: int_str_def list_all_iff\<close>)

lemma json_weight: "json_plain v \<Longrightarrow> weigh byte_weight (text_of v) \<le> json_bound v"
proof (induction v rule: json_plain.induct)
  case (1 s)
  then show ?case using quote_weight [of s] by (simp add: text_of_def)
next
  case (2 xs)
  have "sum_list (map (\<lambda>x. weigh byte_weight (text_of x)) ys) + (length ys - 1) \<le> sum_list (map (\<lambda>x. json_bound x + 1) ys)"
    if "set ys \<subseteq> set xs" for ys
    using that 2 by (induction ys) (fastforce simp: list_all_iff)+
  from this [OF order_refl] 2(2) show ?case by (simp add: weigh_array)
next
  case (3 kvs)
  have p: "present kvs = kvs" using 3(2) by (induction kvs) (auto simp: present_def dest: plain_present)
  have e: "weigh byte_weight (entry_of kv) \<le> 2 * length (fst kv) + json_bound (snd kv) + 3" if "kv \<in> set kvs" for kv
    using that 3 quote_weight [of "fst kv"] by (fastforce simp: list_all_iff entry_of_def)
  have "sum_list (map (\<lambda>kv. weigh byte_weight (entry_of kv)) ys) + (length ys - 1)
      \<le> sum_list (map (\<lambda>kv. 2 * length (fst kv) + json_bound (snd kv) + 4) ys)" if "set ys \<subseteq> set kvs" for ys
    using that e by (induction ys) (fastforce)+
  from this [OF order_refl] show ?case by (simp add: weigh_object p)
qed (simp_all add: text_of_def int_weight)

lemma small_packet_measured:
  assumes "is_obj p" "jget ''budget'' p = empty_budget" "byte_length (canonicalJson p) + 12 \<le> 4000"
  shows "\<exists>m. measurePacket p = Inr m \<and> \<not> too_large m"
proof -
  have "jpath [''budget'', ''packet_bytes''] p = Num (int 0)" "jpath [''budget'', ''packet_characters''] p = Num (int 0)"
      "is_obj (jget ''budget'' p)"
    using assms(2) by (simp_all add: empty_budget_def)
  then obtain m where m: "measurePacket p = Inr m" "byte_length (canonicalJson m) \<le> byte_length (canonicalJson p) + 12"
    using converges [of p 0 0] assms(1,3) by auto
  then have "\<not> too_large m"
    using assms(3) length_le_bytes [of "canonicalJson m"]
    by (simp add: too_large_def PACKET_BYTE_CEILING_def PACKET_CHARACTER_CEILING_def)
  with m(1) show ?thesis by blast
qed

lemma freshened:
  "is_obj p \<Longrightarrow> is_obj (fresh env sha d c p) \<and> jget ''budget'' (fresh env sha d c p) = jget ''budget'' p"
  by (simp add: fresh_def applyFreshness_def)

text \<open>A small packet built from unchanged sources is returned.\<close>

lemma small_packet_returned:
  assumes "gather_sources env root sess wake (w, nothing_collected) = (Inr d, (w1, c))"
    and "build_packet env (digest w1) root d c = Inr p" "is_obj p" "jget ''budget'' p = empty_budget"
    and "byte_length (canonicalJson (fresh env (digest w1) d c p)) + 12 \<le> 4000"
    and "changed_source w1 (considered c) = None"
  shows "\<exists>packet telemetry w'. generateResumePacket env root persist sess wake w = (Inr (packet, telemetry), w')
    \<and> measurePacket (fresh env (digest w1) d c p) = Inr packet"
proof -
  obtain m where m: "measurePacket (fresh env (digest w1) d c p) = Inr m" "\<not> too_large m"
    using small_packet_measured [OF _ _ assms(5)] freshened [OF assms(3), of env "digest w1" d c] assms(4) by auto
  have "generate_packet env root sess wake (w, nothing_collected) = (Inr m, (w1, c))"
    using assms(1,2) m by (simp add: generate_packet_def bind_io_def look_def from_collected_def)
  then show ?thesis
    using assms(6) m(1)
    by (auto simp: generateResumePacket_def verified_packet_def bind_io_def verifyUnchanged_def look_def on_disk_def
        persist_packet_def now_def writeJson_def atomicWrite_def split: prod.splits)
qed

text \<open>An empty packet is measured as well.\<close>

definition tiny_packet :: jv where
  "tiny_packet = Obj [(''budget'', Obj [(''packet_bytes'', Num 0), (''packet_characters'', Num 0)])]"

lemma tiny_size: "byte_length (canonicalJson tiny_packet) = 52"
  by code_simp


end
