(* ===== verification/PacketLaws.thy ===== *)
theory PacketLaws imports Measure begin

text \<open>
  What a resume packet promises: evidence is handed out only as it was selected, a paused supervisor is
  never told to act, a packet is complete only when nothing was found, and bookkeeping does not make it stale.
\<close>

section \<open>Evidence\<close>

lemma find_err_found: "find_err f xs = Inr (Some x) \<Longrightarrow> x \<in> set xs \<and> f x = Inr True"
  by (induction xs) (auto simp: bind_err_eq_Inr split: if_splits)

lemma find_by_found:
  assumes "find_by k (Str x) v = Inr item" "truthy item"
  shows "jget k item = Str x"
proof -
  have "\<not> nullish v" using assms by (auto simp: find_by_def)
  with assms(1) obtain xs found where
      f: "find_err (\<lambda>item. bind_err (jdot k item) (\<lambda>y. Inr (strict_eq y (Str x)))) xs = Inr found"
      and item: "item = (case found of None \<Rightarrow> Undef | Some item \<Rightarrow> item)"
    unfolding find_by_def by (auto simp only: if_False bind_err_eq_Inr sum.inject)
  from item assms(2) have "found = Some item" by (cases found) simp_all
  with f have "bind_err (jdot k item) (\<lambda>y. Inr (strict_eq y (Str x))) = Inr True" by (blast dest: find_err_found)
  then show ?thesis by (simp add: bind_err_eq_Inr jdot_def split: if_splits)
qed


section \<open>The next action\<close>

lemma idle_null:
  "idle_action s unresolved = Null \<Longrightarrow> objective_complete s \<and> sit_classification s = ''complete_for_resume'' \<and> \<not> unresolved"
  by (simp add: idle_action_def split: if_splits)

lemma working_null:
  assumes "working_action s task current attention unresolved = Null"
  shows "idle_action s unresolved = Null \<and> \<not> attention \<and> current"
  using assms by (simp add: working_action_def Let_def split: if_splits)

definition paused_idle :: "situation \<Rightarrow> bool" where
  "paused_idle s \<longleftrightarrow> jget ''supervisor_state'' (sit_state s) = Str ''PAUSED'' \<and> \<not> truthy (activeWork (sit_active s))"

lemma next_action_cases:
  assumes "deriveNextAction s = Inr action"
  obtains (paused) clean where "paused_idle s" "action = paused_action clean"
  | (told) words where "\<not> paused_idle s" "action = Str words"
  | (working) task where "\<not> paused_idle s" "action = working_action s task (session_current (sit_session s))
      (positive_count (wake_count (sit_wake s))) (truthy (jget ''latest_unresolved_issue'' (sit_state s)))"
  using assms unfolding deriveNextAction_def Let_def bind_err_eq_Inr paused_idle_def [symmetric]
  by (elim exE conjE) (simp only: sum.inject split: if_splits; metis)

lemma paused_action_prefix: "is_str (paused_action clean) \<and> starts_with ''No automatic action while PAUSED'' (str_of (paused_action clean))"
  by (simp add: paused_action_def starts_with_def)

text \<open>C21: a paused supervisor without active work is told that nothing is automatic, whatever else was found; and the
  packet names no next action only for a completed objective with no issue, no unresolved question, no wake that
  needs attention and a current session.\<close>

theorem next_action_respects_pause:
  assumes "deriveNextAction s = Inr action"
  shows "(jget ''supervisor_state'' (sit_state s) = Str ''PAUSED'' \<and> \<not> truthy (activeWork (sit_active s))
        \<longrightarrow> is_str action \<and> starts_with ''No automatic action while PAUSED'' (str_of action))
    \<and> (action = Null \<longrightarrow> objective_complete s \<and> sit_classification s = ''complete_for_resume''
        \<and> \<not> truthy (jget ''latest_unresolved_issue'' (sit_state s)) \<and> \<not> positive_count (wake_count (sit_wake s))
        \<and> session_current (sit_session s))"
  using assms
proof (cases rule: next_action_cases)
  case (paused clean)
  then show ?thesis using paused_action_prefix [of clean] by (auto simp: paused_idle_def)
next
  case (working task)
  have "action = Null \<Longrightarrow> idle_action s (truthy (jget ''latest_unresolved_issue'' (sit_state s))) = Null
      \<and> \<not> positive_count (wake_count (sit_wake s)) \<and> session_current (sit_session s)"
    using working(2) by (metis working_null)
  then show ?thesis using working(1) idle_null [of s "truthy (jget ''latest_unresolved_issue'' (sit_state s))"]
    by (auto simp: paused_idle_def)
qed (auto simp: paused_idle_def)

section \<open>Freshness\<close>

lemma snapshot_update:
  assumes "k \<in> set IRRELEVANT_KEYS"
  shows "filter (\<lambda>kv. fst kv \<notin> set IRRELEVANT_KEYS) (map (\<lambda>kv. (fst kv, g (snd kv))) (AList.update k v kvs))
    = filter (\<lambda>kv. fst kv \<notin> set IRRELEVANT_KEYS) (map (\<lambda>kv. (fst kv, g (snd kv))) kvs)"
  using assms by (induction kvs) auto

lemma snapshot_jset: "k \<in> set IRRELEVANT_KEYS \<Longrightarrow> is_obj o1 \<Longrightarrow> snapshotValue (jset k v o1) = snapshotValue o1"
  by (cases o1) (simp_all add: snapshot_update)

lemma snapshotValue_idem: "snapshotValue (snapshotValue v) = snapshotValue v"
  by (induction v rule: snapshotValue.induct) (auto simp: filter_map comp_def intro!: map_cong)

lemma snapshot_canonicalize: "snapshotValue (canonicalize v) = canonicalize (snapshotValue v)"
proof (induction v rule: snapshotValue.induct)
  case (2 kvs)
  let ?c = "\<lambda>kv :: string \<times> jv. (fst kv, canonicalize (snd kv))" and ?s = "\<lambda>kv :: string \<times> jv. (fst kv, snapshotValue (snd kv))"
    and ?P = "\<lambda>kv :: string \<times> jv. fst kv \<notin> set IRRELEVANT_KEYS"
  have "map ?s (sort_key fst (map ?c kvs)) = sort_key fst (map ?s (map ?c kvs))"
    by (rule sort_key_map [symmetric]) simp
  also have "map ?s (map ?c kvs) = map ?c (map ?s kvs)" using 2 by auto
  finally have "filter ?P (map ?s (sort_key fst (map ?c kvs))) = sort_key fst (filter ?P (map ?c (map ?s kvs)))"
    by (simp only: filter_sort)
  also have "filter ?P (map ?c (map ?s kvs)) = map ?c (filter ?P (map ?s kvs))" by (simp add: filter_map comp_def)
  finally show ?case by (simp only: canonicalize.simps snapshotValue.simps)
qed simp_all

lemma snapshot_Undef: "snapshotValue v = Undef \<longleftrightarrow> v = Undef"
  by (cases v) simp_all

lemma snapshot_clean: "snapshotValue (json_clean v) = json_clean (snapshotValue v)"
proof (induction v rule: snapshotValue.induct)
  case (1 xs)
  then show ?case by (auto simp: snapshot_Undef)
next
  case (2 kvs)
  have "map (\<lambda>kv. (fst kv, snapshotValue (json_clean (snd kv)))) (filter (\<lambda>kv. snd kv \<noteq> Undef) kvs)
      = map (\<lambda>kv. (fst kv, json_clean (snapshotValue (snd kv)))) (filter (\<lambda>kv. snd kv \<noteq> Undef) kvs)"
    using 2 by auto
  then show ?case by (auto simp: filter_map comp_def snapshot_Undef conj_commute)
qed simp_all



section \<open>Issues\<close>

text \<open>\<open>grades m\<close>: every issue that \<open>m\<close> records has a classification above complete.\<close>

named_theorems grading "programs that record classified issues only"

definition graded :: "collected \<Rightarrow> bool" where
  "graded c \<longleftrightarrow> list_all (\<lambda>r. 0 < classification_priority (snd r)) (issue_records c)"

definition grades :: "'a rio \<Rightarrow> bool" where
  "grades m \<longleftrightarrow> (\<forall>s. graded (snd s) \<longrightarrow> graded (snd (snd (m s))))"

lemma gradesD: "grades m \<Longrightarrow> m s = (r, s') \<Longrightarrow> graded (snd s) \<Longrightarrow> graded (snd s')"
  by (metis grades_def snd_conv)

lemma grades_control [grading]:
  "grades (ret x)" "grades (throw e)" "grades (lift_io r)" "grades (on_disk d)" "grades verifyUnchanged" "grades (from_collected g)"
  "grades m \<Longrightarrow> (\<And>x. grades (f x)) \<Longrightarrow> grades (bind_io m f)"
  "grades m \<Longrightarrow> grades (guard_io c e m)"
  "(c \<Longrightarrow> grades m) \<Longrightarrow> (\<not> c \<Longrightarrow> grades m') \<Longrightarrow> grades (if c then m else m')"
  "grades m \<Longrightarrow> (\<And>e. grades (h e)) \<Longrightarrow> grades (try_io m h)"
  by (auto simp: grades_def bind_io_def guard_io_def try_io_def on_disk_def verifyUnchanged_def from_collected_def
      split: prod.splits sum.splits option.splits) (metis snd_conv)+

lemma grades_split [grading]:
  "(\<And>a b. grades (h a b)) \<Longrightarrow> grades (case ab of (a, b) \<Rightarrow> h a b)"
  "grades m \<Longrightarrow> (\<And>x. grades (f x)) \<Longrightarrow> grades (case o1 of None \<Rightarrow> m | Some x \<Rightarrow> f x)"
  by (auto split: prod.splits option.splits)

lemma grades_map_io [grading]: "(\<And>x. grades (f x)) \<Longrightarrow> grades (map_io f xs)"
  by (induction xs) (auto intro: grading)

lemma update_all: "list_all (\<lambda>r. Q (snd r)) xs \<Longrightarrow> Q v \<Longrightarrow> list_all (\<lambda>r. Q (snd r)) (AList.update k v xs)"
  by (induction xs) auto

lemma graded_update: "graded c \<Longrightarrow> 0 < classification_priority cls \<Longrightarrow> graded (add_issue code cls c)"
  by (auto simp: graded_def add_issue_def Let_def intro: update_all)

lemma some_priority [simp]:
  "0 < classification_priority ''incomplete''" "0 < classification_priority ''requires_escalation''"
  "0 < classification_priority ''contradictory''"
  by (simp_all add: classification_priority_def)

lemma graded_same [simp]:
  "graded (c\<lparr>considered := a\<rparr>) = graded c" "graded (c\<lparr>authoritative := b\<rparr>) = graded c" "graded (c\<lparr>escalations := d\<rparr>) = graded c"
  by (simp_all add: graded_def)

lemma grades_look: "(\<And>w c. graded c \<Longrightarrow> graded (snd (f w c))) \<Longrightarrow> grades (look f)"
  by (auto simp: grades_def look_def split: prod.splits) (metis snd_conv)

lemma grades_collect [grading]:
  "0 < classification_priority cls \<Longrightarrow> grades (issue code cls)" "grades (escalate root p selector reason)"
  "grades (note_authoritative root p)" "grades (read_source root required p)" "grades (track_source root p)"
  unfolding issue_def escalate_def note_authoritative_def read_source_def track_source_def
  by (auto intro!: grades_look graded_update simp: reader_read_def consider_source_def Let_def split: option.splits)

lemma grades_get [grading]: "grades (look (\<lambda>w c. (g w c, c)))"
  by (auto intro: grades_look)

lemma grades_notes [grading]:
  "0 < classification_priority cls \<Longrightarrow> grades (mismatch root wrong code cls p)"
  "0 < classification_priority cls \<Longrightarrow> grades (note_if wrong code cls)"
  "0 < classification_priority cls \<Longrightarrow> grades (flag root wrong code cls p selector)"
  unfolding mismatch_def note_if_def flag_def by (intro grading; assumption)+

lemma grades_core [grading]: "grades (read_core root)" "grades (check_core_state root so)" "grades (session_status env given)"
  unfolding read_core_def check_core_state_def check_pause_def session_status_def Let_def by (intro grading some_priority)+

lemma grades_work [grading]: "grades (classifyActiveWork root state supervisor objective)"
  unfolding classifyActiveWork_def read_authoritative_def check_active_task_def check_active_claim_def check_child_state_def Let_def
  by (intro grading some_priority)

lemma grades_decision [grading]: "grades (loadLatestSupervisorDecision cmp root state objective)"
  unfolding loadLatestSupervisorDecision_def loadTaskSupervisorDecision_def decided_attempt_def Let_def
  by (intro grading some_priority)

lemma grades_wakes [grading]:
  "grades (summarizeWake cmp root supervisor state injected)" "grades (check_session root session supervisor)"
  "grades (check_wake_item root item)"
  unfolding summarizeWake_def wake_of_request_def delivered_wake_def pending_wake_def read_named_def check_session_def
    check_wake_item_def Let_def
  by (intro grading some_priority | simp)+

lemma issue_classification_ge:
  "r \<in> set rs \<Longrightarrow> classification_priority (snd r) \<le> classification_priority
     (foldl (\<lambda>selected r. if classification_priority selected < classification_priority (snd r) then snd r else selected) c rs)"
  "classification_priority c \<le> classification_priority
     (foldl (\<lambda>selected r. if classification_priority selected < classification_priority (snd r) then snd r else selected) c rs)"
proof (induction rs arbitrary: c)
  case (Cons q rs)
  {
    case 1
    then show ?case using Cons.IH(1) [of "if classification_priority c < classification_priority (snd q) then snd q else c"]
        Cons.IH(2) [of "if classification_priority c < classification_priority (snd q) then snd q else c"] by (auto split: if_splits)
  next
    case 2
    then show ?case using Cons.IH(2) [of "if classification_priority c < classification_priority (snd q) then snd q else c"]
      by (auto split: if_splits)
  }
qed simp_all

lemma complete_is_empty:
  assumes "graded c" "issue_classification (issue_records c) = ''complete_for_resume''"
  shows "issue_records c = []"
proof (rule ccontr)
  assume "issue_records c \<noteq> []"
  then have "hd (issue_records c) \<in> set (issue_records c)" by simp
  with issue_classification_ge(1) [OF this, of "''complete_for_resume''"] assms show False
    by (auto simp: graded_def list_all_iff issue_classification_def classification_priority_def)
qed

lemma gather_grades: "grades (gather_sources env root sess wake)"
  unfolding gather_sources_def Let_def by (intro grading some_priority)

lemma gather_classification:
  assumes "gather_sources env root sess wake s = (Inr d, s')"
  shows "sit_classification (dr_situation d) = issue_classification (issue_records (snd s'))"
  using assms unfolding gather_sources_def Let_def by (auto simp: look_def elim!: bind_io_InrE)

lemma with_budget_other: "is_obj p \<Longrightarrow> k \<noteq> ''budget'' \<Longrightarrow> jget k (with_budget b n p) = jget k p"
  by (simp add: with_budget_def)

lemma measured_fields:
  "measure_loop n prior p = Inr m \<Longrightarrow> is_obj p \<Longrightarrow> k \<noteq> ''budget'' \<Longrightarrow> jget k m = jget k p"
proof (induction n prior p rule: measure_loop.induct)
  case (2 n prior p)
  then show ?case by (auto simp: Let_def with_budget_other split: if_splits) (simp add: with_budget_def)
qed simp

lemma build_fields:
  assumes "build_packet env sha root d c = Inr p"
  shows "is_obj p" "jget ''complete_for_resume'' p = JBool (sit_classification (dr_situation d) = ''complete_for_resume'')"
    "jget ''issues'' p = Arr (map Str (issue_codes (issue_records c)))"
    "jget ''requires_escalation'' p = JBool (sit_classification (dr_situation d) \<in> {''requires_escalation'', ''contradictory''})"
  using assms by (auto simp: build_packet_def Let_def bind_err_eq_Inr)

lemma measured_built:
  assumes "bind_err (build_packet env sha root d c) (\<lambda>packet. measurePacket (fresh env sha d c packet)) = Inr m"
    and "jget ''complete_for_resume'' m = JBool True"
  shows "sit_classification (dr_situation d) = ''complete_for_resume''"
    "jget ''issues'' m = Arr (map Str (issue_codes (issue_records c)))" "jget ''requires_escalation'' m = JBool False"
proof -
  from assms(1) obtain p where p: "build_packet env sha root d c = Inr p" "measure_loop 12 [] (fresh env sha d c p) = Inr m"
    by (auto simp: bind_err_eq_Inr measurePacket_def)
  note b = build_fields [OF p(1)]
  have f: "jget k m = jget k p" if "k \<noteq> ''budget''" "k \<noteq> ''freshness''" for k
    using measured_fields [OF p(2), of k] freshened [OF b(1), of env sha d c] that
    by (simp add: fresh_def applyFreshness_def b(1))
  show c: "sit_classification (dr_situation d) = ''complete_for_resume''" using f b(2) assms(2) by simp
  show "jget ''issues'' m = Arr (map Str (issue_codes (issue_records c)))" using f b(3) by simp
  show "jget ''requires_escalation'' m = JBool False" using f b(4) c by simp
qed

lemma compacted_incomplete:
  assumes "bind_err (compact_packet env sha root d m0 c) (\<lambda>packet. measurePacket (fresh env sha d c packet)) = Inr m" "is_obj m0"
  shows "jget ''complete_for_resume'' m = JBool False"
proof -
  from assms obtain p where p: "compact_packet env sha root d m0 c = Inr p" "measure_loop 12 [] (fresh env sha d c p) = Inr m"
    by (auto simp: bind_err_eq_Inr measurePacket_def)
  have o1: "is_obj p" "jget ''complete_for_resume'' p = JBool False"
    using p(1) assms(2) by (auto simp: compact_packet_def Let_def bind_err_eq_Inr)
  show ?thesis using measured_fields [OF p(2), of "''complete_for_resume''"] freshened [OF o1(1), of env sha d c] o1
    by (simp add: fresh_def applyFreshness_def)
qed

lemma measured_obj: "measured m \<Longrightarrow> is_obj m"
  by (cases m) (simp_all add: measured_def)

lemma graded_complete_codes:
  "graded c \<Longrightarrow> issue_classification (issue_records c) = ''complete_for_resume'' \<Longrightarrow> issue_codes (issue_records c) = []"
  using complete_is_empty [of c] by (simp add: issue_codes_def)

lemma generate_packet_complete:
  assumes "generate_packet env root sess wake s = (Inr packet, s')" "graded (snd s)"
    and "jget ''complete_for_resume'' packet = JBool True"
  shows "jget ''issues'' packet = Arr [] \<and> jget ''requires_escalation'' packet = JBool False"
  using assms(1) unfolding generate_packet_def
proof (elim bind_io_InrE)
  fix d s1 sha s2 m s3
  assume g: "gather_sources env root sess wake s = (Inr d, s1)" and l: "look (\<lambda>w c. (digest w, c)) s1 = (Inr sha, s2)"
    and m: "from_collected (\<lambda>c. bind_err (build_packet env sha root d c) (\<lambda>packet. measurePacket (fresh env sha d c packet))) s2 = (Inr m, s3)"
    and rest: "(if \<not> too_large m then ret m
      else let code = ''objective-text-requires-bounded-escalation'' in bind_io (issue code ''requires_escalation'') (\<lambda>_.
        bind_io (escalate root (p_objective (paths root)) ''current_objective'' code) (\<lambda>_.
        bind_io (from_collected (\<lambda>c. bind_err (compact_packet env sha root d m c) (\<lambda>packet. measurePacket (fresh env sha d c packet))))
          (\<lambda>compacted. guard_io (too_large compacted) (size_error compacted) (ret compacted))))) s3 = (Inr packet, s')"
  have c: "snd s2 = snd s1" using l by (auto simp: look_def)
  have gr: "graded (snd s1)" by (rule gradesD [OF gather_grades g assms(2)])
  from m have b: "bind_err (build_packet env sha root d (snd s2)) (\<lambda>packet. measurePacket (fresh env sha d (snd s2) packet)) = Inr m"
    by (simp add: from_collected_Inr)
  then have obj: "is_obj m" by (auto simp: bind_err_eq_Inr dest!: measurePacket_measured measured_obj)
  show ?thesis
  proof (cases "too_large m")
    case False
    then have "packet = m" using rest by simp
    with measured_built [OF b] assms(3) gather_classification [OF g] graded_complete_codes [OF gr] c show ?thesis by simp
  next
    case True
    then have "jget ''complete_for_resume'' packet = JBool False"
      using rest obj by (auto simp: Let_def from_collected_Inr guard_io_eq_Inr dest: compacted_incomplete elim!: bind_io_InrE)
    then show ?thesis using assms(3) by simp
  qed
qed


end
