(* ===== verification/PacketDemo.thy ===== *)
theory PacketDemo imports PacketLaws begin

text \<open>
  A repository whose resume packet is complete, evaluated: the instances of the properties of resume packets.
\<close>

definition packet_demo :: packet_env where
  "packet_demo = \<lparr>collate = (\<lambda>a b. 0), refresh = ret Null, elapsed_ms = Num 1, suppression = (\<lambda>a b. Num 0),
     is_regular = (\<lambda>p. True)\<rparr>"

definition packet_world :: world where
  "packet_world = \<lparr>files = [
     (''/r/.opsle/supervisor.json'', canonicalJson (Obj [
       (''repository'', Str ''/r''), (''authority_status'', Str ''AUTHORITATIVE''), (''generation'', Num 2), (''supervisor_id'', Str ''s'')])),
     (''/r/.opsle/state.json'', canonicalJson (Obj [(''phase'', Str ''P'')])),
     (''/r/.opsle/objective.json'', canonicalJson (Obj [(''objective_id'', Str ''o''), (''current_revision'', Num 1),
       (''history'', Arr [Obj [(''revision'', Num 1), (''objective'', Str ''x'')]])])),
     (''/r/.opsle/policy.json'', canonicalJson (Obj [(''version'', Num 1)]))],
     dirs = [], clock = (\<lambda>n. ''T''), ticks = 0, uuids = nat_str, drawn = 0, digest = (\<lambda>s. ''d'')\<rparr>"

definition demo_session :: jv where
  "demo_session = Obj [(''classification'', Str ''bound-authoritative-herdr''), (''valid'', JBool True), (''supported'', JBool True),
     (''binding'', Obj [(''supervisor_id'', Str ''s''), (''supervisor_generation'', Num 2),
       (''host'', Obj [(''kind'', Str ''herdr''), (''authority'', Str ''authoritative'')])])]"

definition demo_wake :: jv where
  "demo_wake = Obj [(''items'', Arr [])]"

definition demo_draft :: draft where
  "demo_draft = \<lparr>
     dr_sources = \<lparr>so_supervisor = Obj [(''authority_status'', Str ''AUTHORITATIVE''), (''generation'', Num 2),
         (''repository'', Str ''/r''), (''supervisor_id'', Str ''s'')],
       so_state = Obj [(''phase'', Str ''P'')],
       so_objective = Obj [(''current_revision'', Num 1),
         (''history'', Arr [Obj [(''objective'', Str ''x''), (''revision'', Num 1)]]), (''objective_id'', Str ''o'')],
       so_policy = Obj [(''version'', Num 1)], so_requirements = Null,
       so_objective_entry = Obj [(''objective'', Str ''x''), (''revision'', Num 1)], so_unsatisfied = []\<rparr>,
     dr_situation = \<lparr>sit_state = Obj [(''phase'', Str ''P'')],
       sit_active = \<lparr>activeWork = Null, active_decision = Null, active_attempt = Null\<rparr>,
       sit_wake = demo_wake, sit_session = demo_session, objective_complete = False, unsatisfied_count = 0,
       requirement_driven = False, sit_classification = ''complete_for_resume''\<rparr>,
     dr_decision = Null\<rparr>"

definition demo_source :: "nat \<Rightarrow> string \<Rightarrow> string \<times> source" where
  "demo_source n p = (''/r/'' @ p, \<lparr>src_bytes = n, src_sha = ''d'', src_snapshot = ''d'', src_path = p\<rparr>)"

definition demo_collected :: collected where
  "demo_collected = \<lparr>
     issue_records = [],
     considered = [demo_source 90 ''.opsle/supervisor.json'', demo_source 14 ''.opsle/state.json'',
       demo_source 85 ''.opsle/objective.json'', demo_source 14 ''.opsle/policy.json''],
     authoritative = [''.opsle/supervisor.json'', ''.opsle/state.json'', ''.opsle/objective.json'', ''.opsle/policy.json'',
       ''.opsle/wake/codex-session-binding.json''],
     escalations = []\<rparr>"

lemma demo_gathered:
  "case gather_sources packet_demo ''/r'' demo_session demo_wake (packet_world, nothing_collected) of (r, (w1, c)) \<Rightarrow>
     r = Inr demo_draft \<and> c = demo_collected \<and> digest w1 s = ''d'' \<and> changed_source w1 (considered c) = None"
  by code_simp

lemma demo_gather:
  obtains w1 where
    "gather_sources packet_demo ''/r'' demo_session demo_wake (packet_world, nothing_collected) = (Inr demo_draft, (w1, demo_collected))"
    "digest w1 = (\<lambda>s. ''d'')" "changed_source w1 (considered demo_collected) = None"
proof -
  obtain r w1 c where g: "gather_sources packet_demo ''/r'' demo_session demo_wake (packet_world, nothing_collected) = (r, (w1, c))"
    by (metis surj_pair)
  have f: "r = Inr demo_draft \<and> c = demo_collected \<and> digest w1 s = ''d'' \<and> changed_source w1 (considered c) = None" for s
    using demo_gathered [of s] unfolding g prod.case .
  show ?thesis
  proof (rule that)
    show "digest w1 = (\<lambda>s. ''d'')" using f by (simp add: fun_eq_iff)
  qed (use g f [of "[]"] in auto)
qed

definition demo_built :: jv where
  "demo_built = Obj [(''schema'', Str ''opsle.durable-supervisor.resume-packet/v1''),
     (''version'', Num 1), (''classification'', Str ''complete_for_resume''), (''complete_for_resume'', JBool True),
     (''requires_escalation'', JBool False), (''repository'', Str ''/r''),
     (''supervisor'', Obj [(''id'', Str ''s''), (''generation'', Num 2), (''authority'', Str ''AUTHORITATIVE''), (''state'', Null),
       (''phase'', Str ''P'')]),
     (''herdr'', Obj [(''authority'', Str ''authoritative''), (''kind'', Str ''herdr''), (''status'', Str ''current''),
       (''workspace_id'', Null), (''host_pid'', Null)]),
     (''session_binding'', Obj [(''classification'', Str ''bound-authoritative-herdr''), (''valid'', JBool True),
       (''supported'', JBool True), (''binding_revision'', Null), (''codex_session_uuid'', Null),
       (''supervisor_generation'', Num 2), (''reasons'', Arr [])]),
     (''objective'', Obj [(''id'', Str ''o''), (''revision'', Num 1), (''text'', Str ''x''), (''objective_compacted'', JBool False),
       (''complete'', JBool False), (''unsatisfied_requirements'', Null)]),
     (''policy'', Obj [(''version'', Num 1), (''providers'', Obj []), (''review'', Null), (''gearbox_required'', Null),
       (''model_polling_permitted'', Null), (''affected_verification'', Null)]),
     (''pause'', Null), (''active_work'', Null),
     (''wake_attention'', Obj [(''attention_count'', Num 0), (''queued'', Num 0), (''uncertain'', Num 0),
       (''selected_count'', Num 0), (''omitted_count'', Num 0), (''items'', Arr [])]),
     (''latest_relevant_decision'', Null), (''unresolved'', Null),
     (''next_action'', Str ''Evaluate objective completion from authoritative objective and task evidence.''),
     (''issues'', Arr []),
     (''evidence'', Obj [(''authoritative'', Obj [(''count'', Num 5), (''manifest_sha256'', Str ''d'')]), (''escalation'', Arr [])]),
     (''budget'', empty_budget)]"

lemma demo_build: "build_packet packet_demo (\<lambda>s. ''d'') ''/r'' demo_draft demo_collected = Inr demo_built"
  by code_simp

lemma demo_fresh:
  "fresh packet_demo (\<lambda>s. ''d'') demo_draft demo_collected demo_built = jset ''freshness''
     (Obj [(''schema'', Str ''opsle.durable-supervisor.resume-freshness/v1''), (''authority_sha256'', Str ''d'')]) demo_built"
  by (simp only: fresh_def applyFreshness_def)

lemma demo_plain:
  "json_plain (jset ''freshness''
     (Obj [(''schema'', Str ''opsle.durable-supervisor.resume-freshness/v1''), (''authority_sha256'', Str ''d'')]) demo_built)"
  by (simp add: demo_built_def empty_budget_def)

lemma demo_bound:
  "json_bound (jset ''freshness''
     (Obj [(''schema'', Str ''opsle.durable-supervisor.resume-freshness/v1''), (''authority_sha256'', Str ''d'')]) demo_built) \<le> 3900"
  by (simp add: demo_built_def empty_budget_def int_str_def nat_str.simps PACKET_BYTE_CEILING_def PACKET_CHARACTER_CEILING_def)

lemma demo_returned:
  obtains packet telemetry w' where
    "generateResumePacket packet_demo ''/r'' True demo_session demo_wake packet_world = (Inr (packet, telemetry), w')"
    "jget ''complete_for_resume'' packet = JBool True"
proof -
  obtain w1 where g: "gather_sources packet_demo ''/r'' demo_session demo_wake (packet_world, nothing_collected)
      = (Inr demo_draft, (w1, demo_collected))" and w1: "digest w1 = (\<lambda>s. ''d'')" "changed_source w1 (considered demo_collected) = None"
    by (rule demo_gather)
  let ?p = "fresh packet_demo (\<lambda>s. ''d'') demo_draft demo_collected demo_built"
  have "weigh byte_weight (text_of ?p) \<le> 3900"
    using json_weight [OF demo_plain] demo_bound unfolding demo_fresh by (rule le_trans)
  then have "byte_length (canonicalJson ?p) + 12 \<le> 4000"
    by (simp add: demo_fresh canonicalJson_split byte_length_weigh)
  then obtain packet telemetry w' where
    r: "generateResumePacket packet_demo ''/r'' True demo_session demo_wake packet_world = (Inr (packet, telemetry), w')"
      "measurePacket ?p = Inr packet"
    using small_packet_returned [OF g, of demo_built True] demo_build w1 by (auto simp: demo_built_def)
  have "jget ''complete_for_resume'' packet = jget ''complete_for_resume'' ?p"
    using measured_fields [of 12 "[]" ?p packet "''complete_for_resume''"] r(2) by (simp add: measurePacket_def demo_fresh)
  then show thesis using that [OF r(1)] by (simp add: demo_fresh) (simp add: demo_built_def)
qed

lemma resume_packet_is_bounded_witness:
  "\<exists>packet telemetry w'. generateResumePacket packet_demo ''/r'' True demo_session demo_wake packet_world = (Inr (packet, telemetry), w')
     \<and> byte_length (canonicalJson packet) \<le> 4000
     \<and> bytes_at w' ''/r/.opsle/resume-packet.json'' = Some (canonicalJson packet)"
proof -
  obtain packet telemetry w' where
    r: "generateResumePacket packet_demo ''/r'' True demo_session demo_wake packet_world = (Inr (packet, telemetry), w')"
    by (rule demo_returned)
  from resume_packet_is_bounded [OF r] r show ?thesis by (auto simp: paths_def)
qed


text \<open>A paused supervisor, and an objective that is done.\<close>

definition paused_situation :: situation where
  "paused_situation = \<lparr>sit_state = Obj [(''supervisor_state'', Str ''PAUSED'')],
     sit_active = \<lparr>activeWork = Null, active_decision = Null, active_attempt = Null\<rparr>, sit_wake = demo_wake,
     sit_session = demo_session, objective_complete = True, unsatisfied_count = 0, requirement_driven = False,
     sit_classification = ''complete_for_resume''\<rparr>"

lemma paused_demo: "deriveNextAction paused_situation = Inr (Str ''No automatic action while PAUSED; operator must explicitly resume.'')"
  by code_simp

lemma next_action_respects_pause_witness:
  "deriveNextAction paused_situation = Inr (Str ''No automatic action while PAUSED; operator must explicitly resume.'')
     \<and> starts_with ''No automatic action while PAUSED'' ''No automatic action while PAUSED; operator must explicitly resume.''"
  using next_action_respects_pause [OF paused_demo] paused_demo by (simp add: paused_situation_def)

text \<open>Evidence of an incomplete packet.\<close>

definition evidence_world :: world where
  "evidence_world = \<lparr>files = [
     (''/r/.opsle/resume-packet.json'', canonicalJson (Obj [(''schema'', Str PACKET_SCHEMA), (''complete_for_resume'', JBool False),
       (''evidence'', Obj [(''escalation'', Arr [Obj [(''path'', Str ''.opsle/state.json''), (''selector'', Str ''identity''),
         (''reason'', Str ''r''), (''sha256'', Str ''d'')]])])])),
     (''/r/.opsle/state.json'', canonicalJson (Obj [(''schema'', Str ''a'')]))],
     dirs = [], clock = (\<lambda>n. ''T''), ticks = 0, uuids = nat_str, drawn = 0, digest = (\<lambda>s. ''d'')\<rparr>"

lemma packet_demo_evidence: "\<not> isl (fst (readResumeEvidence packet_demo ''/r'' ''.opsle/state.json'' evidence_world))"
  by code_simp


end
