(* ===== verification/Spec2Isabelle.thy ===== *)
theory Spec2Isabelle
  imports AtomicWrite CasProtocol ClaimProtocol WakeQueue Routing Initial Handoff HostLock Cleanup Consume Registry PacketDemo
begin

text \<open>
  Durable supervisor: a development over src/src.

  The program keeps the state of a long-running supervisor in JSON files below \<open>.opsle/\<close> and lets
  several short-lived processes act on it.  Every decision is a read of these files, a pure check, and
  an atomic replacement of a file; the theories follow the same order.

  Foundations.  \<open>Prelude\<close>: errors as values of a sum, the state-passing programs \<open>io\<close>, postconditions
  (\<open>post\<close>, the collection \<open>wp\<close>).  \<open>JsValue\<close>: JavaScript values, property reads and the operators the
  code applies to them.  \<open>JsonText\<close>: canonical JSON of io.js and the parser, with the round trip.
  \<open>ReadBack\<close>: what a field of a record is after it was written and read again.  \<open>Store\<close>: the world (files,
  directories, clock, identifiers, the digest function, which is a parameter) and the operations of
  io.js over it.  \<open>Events\<close>, \<open>Dates\<close>, \<open>Register\<close>: the event journal of state.js, timestamps, and the
  interface of one compare-and-swap register.

  Durable files (io.js).  \<open>AtomicWrite\<close> splits a write into system calls with a crash between any two;
  \<open>CasProtocol\<close> interleaves compare-and-swap calls of several processes.

  Claims (pipeline.js).  \<open>Claims\<close> and \<open>ClaimLaws\<close>: acquireClaim and releaseClaim over the claim index, whose
  retry loop is bounded by the constant of the source; \<open>ClaimProtocol\<close>: the same steps from several
  processes.

  Wake-up (wakeup.js).  \<open>WakeEvents\<close>: registering a wait and applying an event to it; \<open>Lease\<close>: the
  activation lease and its fencing token; \<open>Decision\<close> and \<open>WakeQueue\<close>: claiming and settling an activation
  decision, enqueueing and classifying a wake.  \<open>Rollout\<close> (codex-resume-transport.js): the resume command
  and its quoting, and the confirmation of a message in a rollout; \<open>Delivery\<close>, \<open>Cleanup\<close> and \<open>Consume\<close>: the
  receipt of a delivery behind its fences, the evidence that the temporary frontend is gone, and the
  consumption of a wake by the supervisor.  \<open>ReleaseFence\<close> (runtime-release.js): the release a process
  runs and the fence a helper has to match.

  Reconstruction (reconstruction.js).  \<open>Resume\<close>: the readers and collectors of a resume packet as one record that the
  programs pass on, the wakes that need attention, the active work, the latest decision and the next action;
  \<open>Packet\<close>: the packet, its measurement, compaction and freshness, and the evidence read through it; \<open>Measure\<close>: the
  measuring loop, whose twelve rounds are enough because the sizes enter only by their number of digits;
  \<open>PacketLaws\<close> and \<open>PacketDemo\<close>: what a packet promises, and a repository where it is evaluated.

  Routing (supervisor-routing.js).  \<open>Routing\<close>: discovery of optional capabilities, the exact route record,
  selection, validation and use of a selected capability.

  Repository state (state.js, durable-schema.js).  \<open>Schema\<close>: the compatibility header and its migration;
  \<open>State\<close>: requirements, next action and initialization; \<open>Frames\<close>: which files an operation leaves alone;
  \<open>Validate\<close>: validateDurableState; \<open>Initial\<close>: initialization succeeds and what it leaves validates;
  \<open>Git\<close>: git metadata and executables.  \<open>Handoff\<close> (pipeline.js): handoffs, tasks, routes and attempts.
  \<open>HostLock\<close> (host-lock.js): the lock directory of a host and the takeover of a stale one.
  \<open>Registry\<close> (opsled-registry.js): the repositories a host owns, replaced as a whole under a host lock, and the
  ownership pointer each repository keeps to its one host.

  Not modelled: reads of /proc, of the git directory and of PATH, child processes and pipes (their results
  are parameters where a modelled operation uses them), argument parsing and console output.
\<close>

end
